(* ===== verification/Prelude.thy ===== *)
theory Prelude
  imports Main "HOL-Library.Word" "HOL-Library.State_Monad"
begin

text \<open>
  Shared vocabulary of the development: the widths of the C integer types the sources use,
  C's truncating division on signed values, the POSIX error numbers that occur in the code,
  lists as C arrays and C strings, and the weakest-precondition rules for state-monad
  programs.  Every other theory imports this one.
\<close>

unbundle bit_operations_syntax

named_theorems wp_rules \<open>weakest preconditions of the monad primitives\<close>
named_theorems unat_rules \<open>moving unsigned machine arithmetic to the natural numbers\<close>

section \<open>Machine integers\<close>

type_synonym u8 = "8 word"
type_synonym u16 = "16 word"
type_synonym u32 = "32 word"
type_synonym u64 = "64 word"

text \<open>
  \<open>cdiv\<close> and \<open>cmod\<close> are the signed \<open>/\<close> and \<open>%\<close> of C: the quotient is
  truncated towards zero and the remainder has the sign of the dividend.
\<close>

definition cdiv :: "int \<Rightarrow> int \<Rightarrow> int" where
  "cdiv a b = sgn a * sgn b * (\<bar>a\<bar> div \<bar>b\<bar>)"

definition cmod :: "int \<Rightarrow> int \<Rightarrow> int" where
  "cmod a b = a - b * cdiv a b"

lemma cdiv_nonneg [simp]: "0 \<le> a \<Longrightarrow> 0 < b \<Longrightarrow> cdiv a b = a div b"
  by (cases "a = 0") (simp_all add: cdiv_def)

lemma cmod_nonneg [simp]: "0 \<le> a \<Longrightarrow> 0 < b \<Longrightarrow> cmod a b = a mod b"
  by (simp add: cmod_def minus_mult_div_eq_mod)

lemma cdiv_cmod: "b * cdiv a b + cmod a b = a"
  by (simp add: cmod_def)

lemma cmod_bound: "b > 0 \<Longrightarrow> \<bar>cmod a b\<bar> < b"
proof -
  assume b: "b > 0"
  show ?thesis
  proof (cases "a < 0")
    case True
    have "cmod a b = - ((- a) mod b)"
      using True b by (simp add: cmod_def cdiv_def minus_mult_div_eq_mod [of "- a" b, symmetric])
    then show ?thesis using b by simp
  next
    case False
    then show ?thesis using b by simp
  qed
qed

lemma div_bounds:
  fixes a b :: int
  assumes "0 < b"
  shows "a div b * b \<le> a" "a < (a div b + 1) * b"
proof -
  note * = div_mult_mod_eq [of a b] pos_mod_sign [OF assms, of a] pos_mod_bound [OF assms, of a]
  show "a div b * b \<le> a" using * by linarith
  show "a < (a div b + 1) * b" unfolding distrib_right using * by linarith
qed

lemma div_add_upper:
  fixes a b n :: int
  assumes "0 < n"
  shows "(a + b) div n \<le> a div n + b div n + 1"
proof -
  have "(a + b) div n * n < (a div n + b div n + 2) * n"
    using div_bounds [OF assms, of a] div_bounds [OF assms, of b] div_bounds [OF assms, of "a + b"]
    by (simp add: algebra_simps)
  then show ?thesis using assms by simp
qed

text \<open>Conversion to a signed 32-bit or 64-bit integer: two's complement wrap-around.\<close>

definition to_s32 :: "int \<Rightarrow> int" where
  "to_s32 x = (x + 2 ^ 31) mod 2 ^ 32 - 2 ^ 31"

definition to_s64 :: "int \<Rightarrow> int" where
  "to_s64 x = (x + 2 ^ 63) mod 2 ^ 64 - 2 ^ 63"

lemma to_s32_id [simp]: "- (2 ^ 31) \<le> x \<Longrightarrow> x < 2 ^ 31 \<Longrightarrow> to_s32 x = x"
  by (simp add: to_s32_def)

lemma to_s32_idI: "- 2147483648 \<le> x \<Longrightarrow> x < 2147483648 \<Longrightarrow> to_s32 x = x"
  by simp

lemma to_s64_id [simp]: "- (2 ^ 63) \<le> x \<Longrightarrow> x < 2 ^ 63 \<Longrightarrow> to_s64 x = x"
  by (simp add: to_s64_def)

lemma to_s32_range: "- (2 ^ 31) \<le> to_s32 x \<and> to_s32 x < 2 ^ 31"
  by (simp add: to_s32_def)

lemma unat_add_bounded [unat_rules]:
  "unat a + unat b < 2 ^ LENGTH('a) \<Longrightarrow> unat (a + b) = unat a + unat (b :: 'a::len word)"
  by (rule unat_add_lem [THEN iffD1])

lemma unat_sub_bounded [unat_rules]:
  "b \<le> a \<Longrightarrow> unat (a - b) = unat a - unat (b :: 'a::len word)"
  by (rule unat_sub)

lemma unat_of_nat_bounded [unat_rules]:
  "n < 2 ^ LENGTH('a) \<Longrightarrow> unat (of_nat n :: 'a::len word) = n"
  by (simp add: unat_of_nat)

lemma unat_ucast_up [unat_rules]:
  "LENGTH('a) \<le> LENGTH('b) \<Longrightarrow> unat (ucast (a :: 'a::len word) :: 'b::len word) = unat a"
proof -
  assume le: "LENGTH('a) \<le> LENGTH('b)"
  have "unat a < 2 ^ LENGTH('b)"
    by (rule less_le_trans [OF unsigned_less power_increasing [OF le]]) simp
  then show ?thesis by (simp add: unsigned_ucast_eq take_bit_nat_eq_self)
qed

section \<open>Error numbers of the C library\<close>

definition ENOENT :: int where "ENOENT = 2"
definition EINTR :: int where "EINTR = 4"
definition EIO :: int where "EIO = 5"
definition EAGAIN :: int where "EAGAIN = 11"
definition EINVAL :: int where "EINVAL = 22"
definition EPIPE :: int where "EPIPE = 32"
definition ESTRPIPE :: int where "ESTRPIPE = 86"

lemmas errno_defs = ENOENT_def EINTR_def EIO_def EAGAIN_def EINVAL_def EPIPE_def ESTRPIPE_def

text \<open>The code of success of the qcap functions.\<close>

definition QCAP_RS_SUCCESSFUL :: int where "QCAP_RS_SUCCESSFUL = 0"


section \<open>Arrays and strings\<close>

text \<open>
  A C string is a character list without its terminating NUL; \<open>cchar s i\<close> is what
  \<open>s[i]\<close> reads for \<open>i\<close> up to and including the terminator.
\<close>

definition cchar :: "string \<Rightarrow> nat \<Rightarrow> char" where
  "cchar s i = (if i < length s then s ! i else CHR 0x00)"

definition is_cstring :: "string \<Rightarrow> bool" where
  "is_cstring s = (CHR 0x00 \<notin> set s)"

definition isdigit :: "char \<Rightarrow> bool" where
  "isdigit c = (of_char CHR ''0'' \<le> (of_char c :: nat) \<and> (of_char c :: nat) \<le> of_char CHR ''9'')"

definition toupper :: "char \<Rightarrow> char" where
  "toupper c =
     (if of_char CHR ''a'' \<le> (of_char c :: nat) \<and> (of_char c :: nat) \<le> of_char CHR ''z''
      then char_of ((of_char c :: nat) - 32) else c)"

lemma isdigit_iff: "isdigit c \<longleftrightarrow> 48 \<le> (of_char c :: nat) \<and> (of_char c :: nat) \<le> 57"
  by (simp add: isdigit_def)

lemma sum_list_take_drop: "sum_list (take n xs) + sum_list (drop n xs) = (sum_list xs :: 'a::comm_monoid_add)"
  by (metis append_take_drop_id sum_list.append)

lemma take_min_length: "take (min (length xs) n) xs = take n xs"
  by (simp add: min_def)

section \<open>Weakest preconditions for the state monad\<close>

text \<open>
  \<open>wp m Q s\<close>: running \<open>m\<close> from \<open>s\<close> ends with a value and a state that
  satisfy \<open>Q\<close>.  Programs are total, so this is total correctness.
\<close>

abbreviation ret :: "'a \<Rightarrow> ('s, 'a) state" where
  "ret \<equiv> State_Monad.return"

definition wp :: "('s, 'a) state \<Rightarrow> ('a \<Rightarrow> 's \<Rightarrow> bool) \<Rightarrow> 's \<Rightarrow> bool" where
  "wp m Q s = (case run_state m s of (a, t) \<Rightarrow> Q a t)"

lemma wp_return [wp_rules]: "wp (State_Monad.return x) Q s = Q x s"
  by (simp add: wp_def)

lemma wp_bind [wp_rules]: "wp (State_Monad.bind m f) Q s = wp m (\<lambda>x. wp (f x) Q) s"
  by (simp add: wp_def split: prod.splits)

lemma wp_get [wp_rules]: "wp State_Monad.get Q s = Q s s"
  by (simp add: wp_def)

lemma wp_update [wp_rules]: "wp (State_Monad.update f) Q s = Q () (f s)"
  by (simp add: wp_def State_Monad.update_def)

lemma wp_if [wp_rules]: "wp (if b then m else n) Q s = (if b then wp m Q s else wp n Q s)"
  by simp

lemma wp_conseq: "wp m P s \<Longrightarrow> (\<And>a t. P a t \<Longrightarrow> Q a t) \<Longrightarrow> wp m Q s"
  by (auto simp: wp_def split: prod.splits)

lemma wp_conj: "wp m P s \<Longrightarrow> wp m Q s \<Longrightarrow> wp m (\<lambda>a t. P a t \<and> Q a t) s"
  by (auto simp: wp_def split: prod.splits)

lemma wp_run: "wp m Q s \<longleftrightarrow> Q (fst (run_state m s)) (snd (run_state m s))"
  by (simp add: wp_def split: prod.splits)

section \<open>Programs inside a relation\<close>

text \<open>
  \<open>stays R m\<close>: every run of \<open>m\<close> relates its initial to its final state by \<open>R\<close>.  For a
  reflexive and transitive relation the programs inside it are closed under composition.
\<close>

definition stays :: "('s \<Rightarrow> 's \<Rightarrow> bool) \<Rightarrow> ('s, 'a) state \<Rightarrow> bool" where
  "stays R m \<longleftrightarrow> (\<forall>s. wp m (\<lambda>_ t. R s t) s)"

locale step_relation =
  fixes R :: "'s \<Rightarrow> 's \<Rightarrow> bool"
  assumes refl: "R s s"
    and trans: "R s t \<Longrightarrow> R t u \<Longrightarrow> R s u"
begin

lemma ret: "stays R (State_Monad.return x)"
  by (simp add: stays_def wp_rules refl)

lemma get: "stays R State_Monad.get"
  by (simp add: stays_def wp_rules refl)

lemma bind: "stays R m \<Longrightarrow> (\<And>x. stays R (f x)) \<Longrightarrow> stays R (State_Monad.bind m f)"
  unfolding stays_def wp_bind
  by (intro allI, rule wp_conseq, blast, rule wp_conseq, blast) (rule trans)

end

end
