(* ===== verification/Effects.thy ===== *)
theory Effects
  imports Prelude "HOL-Library.Multiset"
begin

text \<open>
  Calls that leave the repository (the qcap2, zstreamer, ALSA and kernel interfaces) as
  effects.  A program is a state-monad computation over a state that holds the trace of
  the calls made so far.  The outside world is the parameter \<open>api\<close>: what a call
  returns is an arbitrary function of the history and of the call, so that a theorem for
  every \<open>api\<close> holds for every behaviour of the called library, also a stateful one.

  The second half is the resource ledger.  \<open>acq\<close> says which resource a call acquires
  when it returns a given reply, \<open>rel\<close> which one it releases; \<open>live\<close> replays a trace and
  yields the resources still held, innermost first, or \<open>None\<close> as soon as a call releases
  anything but the innermost one (a double release, a release of something never acquired,
  a wrong order).
\<close>

type_synonym reply = "int \<times> int list"  \<comment> \<open>return value and out parameters\<close>
type_synonym 'c event = "'c \<times> reply"
type_synonym 'c api = "'c event list \<Rightarrow> 'c \<Rightarrow> reply"

definition outp :: "reply \<Rightarrow> nat \<Rightarrow> int" where
  "outp r i = (if i < length (snd r) then snd r ! i else 0)"

record 'c io =
  trace :: "'c event list"  \<comment> \<open>latest call first\<close>

definition call :: "'c api \<Rightarrow> 'c \<Rightarrow> (('c, 'z) io_scheme, reply) state" where
  "call api c = State (\<lambda>s. let r = api (trace s) c in (r, s\<lparr>trace := (c, r) # trace s\<rparr>))"

lemma run_call [simp]:
  "run_state (call api c) s = (api (trace s) c, s\<lparr>trace := (c, api (trace s) c) # trace s\<rparr>)"
  by (simp add: call_def Let_def)

lemma wp_call:
  "wp (call api c) Q s = Q (api (trace s) c) (s\<lparr>trace := (c, api (trace s) c) # trace s\<rparr>)"
  by (simp add: wp_def)

text \<open>
  The rule proofs use: nothing is known of the reply.  Repeated over a sequence of calls
  it keeps every reply a variable.
\<close>

lemma wp_callI: "(\<And>r. Q r (s\<lparr>trace := (c, r) # trace s\<rparr>)) \<Longrightarrow> wp (call api c) Q s"
  by (simp add: wp_call)

definition modify :: "('s \<Rightarrow> 's) \<Rightarrow> ('s, unit) state" where
  "modify f = State (\<lambda>s. ((), f s))"

lemma run_modify [simp]: "run_state (modify f) s = ((), f s)"
  by (simp add: modify_def)

lemma wp_modify [wp_rules]: "wp (modify f) Q s = Q () (f s)"
  by (simp add: wp_def)

section \<open>The resource ledger\<close>

fun live :: "('c \<Rightarrow> reply \<Rightarrow> 'r option) \<Rightarrow> ('c \<Rightarrow> 'r option) \<Rightarrow> 'c event list \<Rightarrow> 'r list option" where
  "live acq rel [] = Some []"
| "live acq rel ((c, r) # tr) =
     (case live acq rel tr of
        None \<Rightarrow> None
      | Some held \<Rightarrow>
          (case rel c of
             Some x \<Rightarrow> (case held of [] \<Rightarrow> None | y # ys \<Rightarrow> if x = y then Some ys else None)
           | None \<Rightarrow> Some (case acq c r of Some x \<Rightarrow> x # held | None \<Rightarrow> held)))"

lemma live_prefix: "live acq rel (tr @ tr0) \<noteq> None \<Longrightarrow> live acq rel tr0 \<noteq> None"
  by (induction tr) (auto split: option.splits prod.splits)

text \<open>
  Counting: in a trace that replays, every resource has been acquired exactly as often as
  it has been released, plus its occurrences among the live ones.
\<close>

fun n_acq :: "('c \<Rightarrow> reply \<Rightarrow> 'r option) \<Rightarrow> ('c \<Rightarrow> 'r option) \<Rightarrow> 'r \<Rightarrow> 'c event list \<Rightarrow> nat" where
  "n_acq acq rel x [] = 0"
| "n_acq acq rel x ((c, r) # tr) =
     n_acq acq rel x tr + (if rel c = None \<and> acq c r = Some x then 1 else 0)"

fun n_rel :: "('c \<Rightarrow> 'r option) \<Rightarrow> 'r \<Rightarrow> 'c event list \<Rightarrow> nat" where
  "n_rel rel x [] = 0"
| "n_rel rel x ((c, r) # tr) = n_rel rel x tr + (if rel c = Some x then 1 else 0)"

lemma live_balance:
  "live acq rel tr = Some held \<Longrightarrow> n_acq acq rel x tr = n_rel rel x tr + count_list held x"
proof (induction tr arbitrary: held)
  case Nil
  then show ?case by simp
next
  case (Cons e tr)
  obtain c r where e: "e = (c, r)" by (cases e)
  from Cons.prems e obtain h where h: "live acq rel tr = Some h"
    by (auto split: option.splits)
  note ih = Cons.IH [OF h]
  show ?case
  proof (cases "rel c")
    case None
    with Cons.prems e h ih show ?thesis by (auto split: option.splits)
  next
    case (Some y)
    with Cons.prems e h obtain ys where "h = y # ys" "held = ys"
      by (auto split: list.splits if_splits)
    with Some e ih show ?thesis by auto
  qed
qed

text \<open>
  The ledger that does not ask for an order: a release must be of something that is held.
  A trace that replays on the stack replays here with the same resources.
\<close>

fun ledger :: "('c \<Rightarrow> reply \<Rightarrow> 'r option) \<Rightarrow> ('c \<Rightarrow> 'r option) \<Rightarrow> 'c event list \<Rightarrow> 'r multiset option" where
  "ledger acq rel [] = Some {#}"
| "ledger acq rel ((c, r) # tr) =
     (case ledger acq rel tr of
        None \<Rightarrow> None
      | Some held \<Rightarrow>
          (case rel c of
             Some x \<Rightarrow> if x \<in># held then Some (held - {#x#}) else None
           | None \<Rightarrow> Some (case acq c r of Some x \<Rightarrow> add_mset x held | None \<Rightarrow> held)))"

lemma live_ledger: "live acq rel tr = Some held \<Longrightarrow> ledger acq rel tr = Some (mset held)"
proof (induction tr arbitrary: held)
  case (Cons e tr)
  then obtain h where "live acq rel tr = Some h" by (cases e) (auto split: option.splits)
  with Cons show ?case by (cases e) (auto split: option.splits list.splits if_splits)
qed simp

section \<open>Programs inside a larger interface\<close>

text \<open>
  A program written for the calls of type \<open>'c\<close> runs inside one whose calls are of type
  \<open>'d\<close>: \<open>tag\<close> names its calls there, and what they return may depend on the whole history.
\<close>

definition embed :: "('c \<Rightarrow> 'd) \<Rightarrow> 'd api \<Rightarrow> ('c api \<Rightarrow> ('c io, 'a) state) \<Rightarrow> (('d, 'z) io_scheme, 'a) state" where
  "embed tag api prog = State (\<lambda>s.
     let past = trace s;
         (a, t) = run_state (prog (\<lambda>tr c. api (map (\<lambda>(c, r). (tag c, r)) tr @ past) (tag c))) \<lparr>trace = []\<rparr>
     in (a, s\<lparr>trace := map (\<lambda>(c, r). (tag c, r)) (trace t) @ past\<rparr>))"

lemma wp_embed:
  assumes "\<And>api a t. run_state (prog api) \<lparr>trace = []\<rparr> = (a, t) \<Longrightarrow>
      Q a (s\<lparr>trace := map (\<lambda>(c, r). (tag c, r)) (trace t) @ trace s\<rparr>)"
  shows "wp (embed tag api prog) Q s"
  using assms by (auto simp: wp_def embed_def Let_def split: prod.splits)

text \<open>
  The same for a program with a state of its own, kept in the larger state by \<open>get\<close> and \<open>put\<close>:
  its trace holds its own calls, the trace outside holds them among all others.
\<close>

definition embed_at :: "('c \<Rightarrow> 'd) \<Rightarrow> (('d, 'z) io_scheme \<Rightarrow> ('c, 'y) io_scheme) \<Rightarrow>
    (('c, 'y) io_scheme \<Rightarrow> ('d, 'z) io_scheme \<Rightarrow> ('d, 'z) io_scheme) \<Rightarrow> 'd api \<Rightarrow>
    ('c api \<Rightarrow> (('c, 'y) io_scheme, 'a) state) \<Rightarrow> (('d, 'z) io_scheme, 'a) state" where
  "embed_at tag get put api prog = State (\<lambda>s.
     let past = trace s;
         fresh = (\<lambda>tr. map (\<lambda>(c, r). (tag c, r)) (take (length tr - length (trace (get s))) tr));
         (a, t) = run_state (prog (\<lambda>tr c. api (fresh tr @ past) (tag c))) (get s)
     in (a, put t (s\<lparr>trace := fresh (trace t) @ past\<rparr>)))"

lemma wp_embed_at:
  assumes "\<And>api'. (\<forall>tr c. \<exists>h. api' tr c = api h (tag c)) \<Longrightarrow> wp (prog api') P (get s)"
    and "\<And>a t new. P a t \<Longrightarrow> Q a (put t (s\<lparr>trace := map (\<lambda>(c, r). (tag c, r)) new @ trace s\<rparr>))"
  shows "wp (embed_at tag get put api prog) Q s"
proof -
  define fresh :: "'a event list \<Rightarrow> 'b event list" where
    "fresh = (\<lambda>tr. map (\<lambda>(c, r). (tag c, r)) (take (length tr - length (trace (get s))) tr))"
  have "wp (prog (\<lambda>tr c. api (fresh tr @ trace s) (tag c))) P (get s)" by (rule assms(1)) blast
  then show ?thesis
    using assms(2) by (auto simp: wp_def embed_at_def Let_def fresh_def split: prod.splits)
qed

section \<open>Clean-up stacks\<close>

text \<open>
  \<open>free_stack_t\<close> of testkit.h and \<open>ZzUtils::FreeStack\<close> are stacks of clean-up
  closures.  Every closure that is pushed on one makes a single call that releases one
  resource, so a stack is a list of calls, its top first.  A program may use several stacks
  (the test cases have one for the main thread and one for the event thread); the closures
  refer to them by name.
\<close>

record ('c, 'k) stk = "'c io" +
  fs :: "'k \<Rightarrow> 'c list"

definition push :: "'k \<Rightarrow> 'c \<Rightarrow> (('c, 'k, 'z) stk_scheme, unit) state" where
  "push k c = modify (\<lambda>s. s\<lparr>fs := (fs s)(k := c # fs s k)\<rparr>)"

definition pop :: "'k \<Rightarrow> (('c, 'k, 'z) stk_scheme, unit) state" where
  "pop k = modify (\<lambda>s. s\<lparr>fs := (fs s)(k := tl (fs s k))\<rparr>)"

lemma wp_push [wp_rules]: "wp (push k c) Q s = Q () (s\<lparr>fs := (fs s)(k := c # fs s k)\<rparr>)"
  by (simp add: push_def wp_modify)

lemma wp_pop [wp_rules]: "wp (pop k) Q s = Q () (s\<lparr>fs := (fs s)(k := tl (fs s k))\<rparr>)"
  by (simp add: pop_def wp_modify)

text \<open>
  The loop of \<open>flush\<close>: run the top closure, then pop it, until the stack is empty.
  The argument is the stack content at loop entry; the closures do not push.
\<close>

primrec flush_from :: "'c api \<Rightarrow> 'k \<Rightarrow> 'c list \<Rightarrow> (('c, 'k, 'z) stk_scheme, unit) state" where
  "flush_from api k [] = State_Monad.return ()"
| "flush_from api k (c # cs) = do { _ \<leftarrow> call api c; _ \<leftarrow> pop k; flush_from api k cs }"

definition flush_stack :: "'c api \<Rightarrow> 'k \<Rightarrow> (('c, 'k, 'z) stk_scheme, unit) state" where
  "flush_stack api k = do { s \<leftarrow> State_Monad.get; flush_from api k (fs s k) }"

text \<open>
  The contract between a program and its clean-up stack: the closures on stack \<open>k\<close>
  release, top first, exactly the resources that are live above \<open>base\<close>.
\<close>

definition owns :: "('c \<Rightarrow> reply \<Rightarrow> 'r option) \<Rightarrow> ('c \<Rightarrow> 'r option) \<Rightarrow> 'k \<Rightarrow> 'r list \<Rightarrow>
    ('c, 'k, 'z) stk_scheme \<Rightarrow> bool" where
  "owns acq rel k base s \<longleftrightarrow>
     (\<forall>c \<in> set (fs s k). rel c \<noteq> None) \<and>
     live acq rel (trace s) = Some (map (\<lambda>c. the (rel c)) (fs s k) @ base)"

locale cleanup =
  fixes acq :: "'c \<Rightarrow> reply \<Rightarrow> 'r option"
    and rel :: "'c \<Rightarrow> 'r option"
  assumes release_only: "rel c \<noteq> None \<Longrightarrow> acq c r = None"
begin

lemma owns_neutral:
  assumes "owns acq rel k base s" and "rel c = None" and "acq c r = None"
  shows "owns acq rel k base (s\<lparr>trace := (c, r) # trace s\<rparr>)"
  using assms by (simp add: owns_def)

lemma owns_acquire:
  assumes "owns acq rel k base s" and "rel c = None" and "acq c r = Some x" and "rel d = Some x"
  shows "owns acq rel k base
    (s\<lparr>trace := (c, r) # trace s, fs := (fs s)(k := d # fs s k)\<rparr>)"
  using assms by (simp add: owns_def)

lemma owns_other:
  "k \<noteq> k' \<Longrightarrow> owns acq rel k base (s\<lparr>fs := (fs s)(k' := cs)\<rparr>) = owns acq rel k base s"
  by (simp add: owns_def)

lemma flush_from_live:
  assumes "\<forall>c \<in> set cs. rel c \<noteq> None"
    and "live acq rel (trace s) = Some (map (\<lambda>c. the (rel c)) cs @ base)"
    and "fs s k = cs"
  shows "wp (flush_from api k cs)
    (\<lambda>_ t. live acq rel (trace t) = Some base \<and> fs t = (fs s)(k := []) \<and> stk.more t = stk.more s) s"
  using assms
proof (induction cs arbitrary: s)
  case Nil
  then show ?case by (auto simp: wp_rules fun_upd_idem)
next
  case (Cons c cs)
  obtain x where x: "rel c = Some x" using Cons.prems by auto
  show ?case
    unfolding flush_from.simps wp_bind
  proof (rule wp_callI, unfold wp_pop)
    fix r
    let ?s = "s\<lparr>trace := (c, r) # trace s, fs := (fs s)(k := cs)\<rparr>"
    have eq: "s\<lparr>trace := (c, r) # trace s,
        fs := (fs (s\<lparr>trace := (c, r) # trace s\<rparr>))(k := tl (fs (s\<lparr>trace := (c, r) # trace s\<rparr>) k))\<rparr> = ?s"
      using Cons.prems(3) by simp
    have "wp (flush_from api k cs)
      (\<lambda>_ t. live acq rel (trace t) = Some base \<and> fs t = (fs ?s)(k := []) \<and> stk.more t = stk.more ?s) ?s"
      by (rule Cons.IH) (use Cons.prems x in auto)
    then show "wp (flush_from api k cs)
      (\<lambda>_ t. live acq rel (trace t) = Some base \<and> fs t = (fs s)(k := []) \<and> stk.more t = stk.more s)
      (s\<lparr>trace := (c, r) # trace s,
        fs := (fs (s\<lparr>trace := (c, r) # trace s\<rparr>))(k := tl (fs (s\<lparr>trace := (c, r) # trace s\<rparr>) k))\<rparr>)"
      unfolding eq by simp
  qed
qed

theorem flush_releases:
  assumes "owns acq rel k base s"
  shows "wp (flush_stack api k)
    (\<lambda>_ t. live acq rel (trace t) = Some base \<and> fs t = (fs s)(k := []) \<and> stk.more t = stk.more s) s"
  using assms flush_from_live [of "fs s k" s base k api]
  by (simp add: flush_stack_def wp_rules owns_def)

end

end
