(* ===== verification/Testkit.thy ===== *)
theory Testkit
  imports Effects
begin

text \<open>
  src/src/zzlab/testkit.h: the helpers every test program is built from.  The qcap2 calls,
  and the C++ allocations the helpers make, are the constructors of \<open>qcall\<close>; their
  behaviour is the parameter \<open>api\<close>.  Logging is left out.  A helper that takes
  \<open>free_stack_t& _FreeStack_\<close> takes the name of the stack, \<open>k\<close>; a helper with an
  out parameter \<open>T** ppX\<close> returns a pair of its \<open>QRESULT\<close> and the stored value, \<open>None\<close>
  when it leaves \<open>*ppX\<close> unwritten.
\<close>

section \<open>Calls and results\<close>

text \<open>
  The codes of qcap's QRESULT the helpers test and return; the code only compares them for
  equality.
\<close>

definition QCAP_RS_ERROR_OUT_OF_MEMORY :: int where "QCAP_RS_ERROR_OUT_OF_MEMORY = 2"
definition QCAP_RS_ERROR_INVALID_PARAMETER :: int where "QCAP_RS_ERROR_INVALID_PARAMETER = 3"

lemmas qres_defs = QCAP_RS_SUCCESSFUL_def QCAP_RS_ERROR_OUT_OF_MEMORY_def
  QCAP_RS_ERROR_INVALID_PARAMETER_def

type_synonym ptr = int

datatype colorspace = CS_NV12 | CS_NV16 | CS_Y444 | CS_RGBA | CS_other int

datatype arg = AI int | AB bool | AS string | AC colorspace | AL "int list"

text \<open>
  The objects of the qcap2 interface (and of C++: a \<open>callback_t\<close>, one held by a
  \<open>shared_ptr\<close>, another heap object), and the kinds of memory attached to a buffer.
\<close>

datatype obj =
    O_event | O_event_handlers | O_timer | O_video_sink | O_video_format | O_rcbuffer
  | O_callback | O_shared_callback | O_heap | O_usermm | O_device | O_window | O_av_frame

datatype mem = M_frame_buffer | M_qdmabuf | M_nvbuf | M_cuda | M_cuda_host | M_cuda_managed

text \<open>
  One constructor per shape of call: \<open>New O_event []\<close> is \<open>qcap2_event_new()\<close>,
  \<open>Start O_event p []\<close> is \<open>qcap2_event_start(p)\<close>, \<open>Alloc M_qdmabuf p xs\<close> is
  \<open>qcap2_rcbuffer_alloc_qdmabuf(p, xs)\<close>, \<open>Set\<close> and \<open>Get\<close> are the setters and
  getters by name.
\<close>

datatype qcall =
    New obj "arg list"
  | Delete obj ptr
  | Start obj ptr "arg list"
  | Stop obj ptr
  | Alloc mem ptr "arg list"
  | Free mem ptr
  | AddHandler ptr int ptr
  | RemoveHandler ptr int
  | Invoke ptr ptr
  | NativeHandle obj ptr
  | Set obj string ptr "arg list"
  | Get obj string ptr "arg list"

datatype fsref = FS_main | FS_evt

type_synonym ('z, 'a) q = "((qcall, fsref, 'z) stk_scheme, 'a) state"

section \<open>Resources\<close>

datatype resource =
    R_obj obj ptr
  | R_started obj ptr
  | R_mem mem ptr
  | R_handler ptr int

text \<open>
  What a call acquires: an object from its constructor, a started object, attached memory or
  a registered handler when the call reports success.  The frame-buffer allocators return a
  bool, the others a QRESULT.  A callback in a \<open>shared_ptr\<close> is freed by its scope
  and is not on the ledger.
\<close>

definition alloc_ok :: "mem \<Rightarrow> reply \<Rightarrow> bool" where
  "alloc_ok m r = (if m = M_qdmabuf \<or> m = M_nvbuf then fst r = QCAP_RS_SUCCESSFUL else fst r \<noteq> 0)"

fun q_acq :: "qcall \<Rightarrow> reply \<Rightarrow> resource option" where
  "q_acq (New ob as) r = (if ob = O_shared_callback then None else Some (R_obj ob (fst r)))"
| "q_acq (Start ob p as) r = (if fst r = QCAP_RS_SUCCESSFUL then Some (R_started ob p) else None)"
| "q_acq (Alloc m p as) r = (if alloc_ok m r then Some (R_mem m p) else None)"
| "q_acq (AddHandler h n cb) r = (if fst r = QCAP_RS_SUCCESSFUL then Some (R_handler h n) else None)"
| "q_acq _ r = None"

fun q_rel :: "qcall \<Rightarrow> resource option" where
  "q_rel (Delete ob p) = (if ob = O_shared_callback then None else Some (R_obj ob p))"
| "q_rel (Stop ob p) = Some (R_started ob p)"
| "q_rel (Free m p) = Some (R_mem m p)"
| "q_rel (RemoveHandler h n) = Some (R_handler h n)"
| "q_rel _ = None"

lemma q_release_only: "q_rel c \<noteq> None \<Longrightarrow> q_acq c r = None"
  by (cases c) auto

interpretation tk: cleanup q_acq q_rel
  by unfold_locales (rule q_release_only)

section \<open>The helpers\<close>

definition NewEvent :: "qcall api \<Rightarrow> fsref \<Rightarrow> ('z, int \<times> ptr option) q" where
  "NewEvent api k = do {
     r0 \<leftarrow> call api (New O_event []);
     let pEvent = fst r0;
     push k (Delete O_event pEvent);
     r1 \<leftarrow> call api (Start O_event pEvent []);
     if fst r1 \<noteq> QCAP_RS_SUCCESSFUL then ret (fst r1, None)
     else do {
       push k (Stop O_event pEvent);
       ret (fst r1, Some pEvent) } }"

definition StartEventHandlers :: "qcall api \<Rightarrow> fsref \<Rightarrow> ('z, int \<times> ptr option) q" where
  "StartEventHandlers api k = do {
     r0 \<leftarrow> call api (New O_event_handlers []);
     let pEventHandlers = fst r0;
     push k (Delete O_event_handlers pEventHandlers);
     r1 \<leftarrow> call api (Start O_event_handlers pEventHandlers []);
     if fst r1 \<noteq> QCAP_RS_SUCCESSFUL then ret (fst r1, None)
     else do {
       push k (Stop O_event_handlers pEventHandlers);
       ret (fst r1, Some pEventHandlers) } }"

text \<open>
  \<open>ExecInEventHandlers\<close> runs \<open>body\<close> on the event thread through
  \<open>qcap2_event_handlers_invoke\<close> and waits for it.  Whether the library ran the
  callback is its business: the first out parameter of the reply says so.
\<close>

definition ExecInEventHandlers :: "qcall api \<Rightarrow> ptr \<Rightarrow> ('z, unit) q \<Rightarrow> ('z, int) q" where
  "ExecInEventHandlers api h body = do {
     r0 \<leftarrow> call api (New O_shared_callback []);
     r1 \<leftarrow> call api (Invoke h (fst r0));
     (if outp r1 0 \<noteq> 0 then body else ret ());
     _ \<leftarrow> call api (Delete O_shared_callback (fst r0));
     ret (fst r1) }"

definition AddEventHandler_handle :: "qcall api \<Rightarrow> fsref \<Rightarrow> ptr \<Rightarrow> int \<Rightarrow> ('z, int) q" where
  "AddEventHandler_handle api k h nHandle = do {
     r0 \<leftarrow> call api (New O_callback []);
     let pCallback = fst r0;
     push k (Delete O_callback pCallback);
     r1 \<leftarrow> call api (AddHandler h nHandle pCallback);
     if fst r1 \<noteq> QCAP_RS_SUCCESSFUL then ret (fst r1)
     else do {
       push k (RemoveHandler h nHandle);
       ret (fst r1) } }"

definition AddEventHandler :: "qcall api \<Rightarrow> fsref \<Rightarrow> ptr \<Rightarrow> ptr \<Rightarrow> ('z, int) q" where
  "AddEventHandler api k h pEvent = do {
     r0 \<leftarrow> call api (NativeHandle O_event pEvent);
     if fst r0 \<noteq> QCAP_RS_SUCCESSFUL then ret (fst r0)
     else AddEventHandler_handle api k h (outp r0 0) }"

definition AddTimerHandler :: "qcall api \<Rightarrow> fsref \<Rightarrow> ptr \<Rightarrow> ptr \<Rightarrow> ('z, int) q" where
  "AddTimerHandler api k h pTimer = do {
     r0 \<leftarrow> call api (NativeHandle O_timer pTimer);
     if fst r0 \<noteq> QCAP_RS_SUCCESSFUL then ret (fst r0)
     else do {
       let nHandle = outp r0 0;
       r1 \<leftarrow> call api (New O_callback []);
       let pCallback = fst r1;
       push k (Delete O_callback pCallback);
       r2 \<leftarrow> call api (AddHandler h nHandle pCallback);
       if fst r2 \<noteq> QCAP_RS_SUCCESSFUL then ret (fst r2)
       else do {
         push k (RemoveHandler h nHandle);
         ret (fst r2) } } }"

definition StartVsink_ximage :: "qcall api \<Rightarrow> fsref \<Rightarrow> colorspace \<Rightarrow> int \<Rightarrow> int \<Rightarrow> ptr \<Rightarrow>
    ('z, int \<times> ptr option) q" where
  "StartVsink_ximage api k nColorSpaceType nVideoFrameWidth nVideoFrameHeight pWindow = do {
     r0 \<leftarrow> call api (New O_video_sink []);
     let pVsink = fst r0;
     push k (Delete O_video_sink pVsink);
     _ \<leftarrow> call api (Set O_video_sink ''backend_type'' pVsink [AS ''GSTREAMER'']);
     _ \<leftarrow> call api (Set O_video_sink ''gst_sink_name'' pVsink [AS ''xvimagesink'']);
     r1 \<leftarrow> call api (NativeHandle O_window pWindow);
     if fst r1 \<noteq> QCAP_RS_SUCCESSFUL then ret (fst r1, None)
     else do {
       _ \<leftarrow> call api (Set O_video_sink ''native_handle'' pVsink [AI (outp r1 0)]);
       r2 \<leftarrow> call api (New O_video_format []);
       let pVideoFormat = fst r2;
       _ \<leftarrow> call api (Set O_video_format ''property'' pVideoFormat
              [AC nColorSpaceType, AI nVideoFrameWidth, AI nVideoFrameHeight, AB False, AI 60]);
       _ \<leftarrow> call api (Set O_video_sink ''video_format'' pVsink [AI pVideoFormat]);
       _ \<leftarrow> call api (Delete O_video_format pVideoFormat);
       r3 \<leftarrow> call api (Start O_video_sink pVsink []);
       if fst r3 \<noteq> QCAP_RS_SUCCESSFUL then ret (fst r3, None)
       else do {
         push k (Stop O_video_sink pVsink);
         ret (fst r3, Some pVsink) } } }"

text \<open>
  The five frame constructors that allocate the frame memory with a bool result
  (\<open>new_video_sysbuf\<close>, \<open>new_audio_sysbuf\<close> and the three CUDA variants) differ in
  the property setter and in the allocator.
\<close>

definition new_frame :: "qcall api \<Rightarrow> fsref \<Rightarrow> string \<Rightarrow> arg list \<Rightarrow> mem \<Rightarrow> arg list \<Rightarrow>
    ('z, int \<times> ptr option) q" where
  "new_frame api k setter as m bs = do {
     r0 \<leftarrow> call api (New O_rcbuffer []);
     let pRCBuffer = fst r0;
     push k (Delete O_rcbuffer pRCBuffer);
     r1 \<leftarrow> call api (Get O_rcbuffer ''data'' pRCBuffer []);
     let pAVFrame = fst r1;
     _ \<leftarrow> call api (Set O_av_frame setter pAVFrame as);
     r2 \<leftarrow> call api (Alloc m pAVFrame bs);
     if fst r2 = 0 then ret (QCAP_RS_ERROR_OUT_OF_MEMORY, None)
     else do {
       push k (Free m pAVFrame);
       ret (QCAP_RS_SUCCESSFUL, Some pRCBuffer) } }"

definition new_video_sysbuf :: "qcall api \<Rightarrow> fsref \<Rightarrow> colorspace \<Rightarrow> int \<Rightarrow> int \<Rightarrow> ('z, int \<times> ptr option) q" where
  "new_video_sysbuf api k nColorSpaceType nWidth nHeight =
     new_frame api k ''video_property'' [AC nColorSpaceType, AI nWidth, AI nHeight]
       M_frame_buffer [AI 32, AI 1]"

definition new_audio_sysbuf :: "qcall api \<Rightarrow> fsref \<Rightarrow> int \<Rightarrow> int \<Rightarrow> int \<Rightarrow> int \<Rightarrow> ('z, int \<times> ptr option) q" where
  "new_audio_sysbuf api k nChannels nSampleFmt nSampleFrequency nFrameSize =
     new_frame api k ''audio_property'' [AI nChannels, AI nSampleFmt, AI nSampleFrequency, AI nFrameSize]
       M_frame_buffer [AI 32, AI 1]"

definition new_video_cudabuf :: "qcall api \<Rightarrow> fsref \<Rightarrow> colorspace \<Rightarrow> int \<Rightarrow> int \<Rightarrow> ('z, int \<times> ptr option) q" where
  "new_video_cudabuf api k nColorSpaceType nWidth nHeight =
     new_frame api k ''video_property'' [AC nColorSpaceType, AI nWidth, AI nHeight] M_cuda [AI 32, AI 1]"

definition new_video_cudabuf_host :: "qcall api \<Rightarrow> fsref \<Rightarrow> colorspace \<Rightarrow> int \<Rightarrow> int \<Rightarrow> int \<Rightarrow>
    ('z, int \<times> ptr option) q" where
  "new_video_cudabuf_host api k nColorSpaceType nWidth nHeight nFlags =
     new_frame api k ''video_property'' [AC nColorSpaceType, AI nWidth, AI nHeight]
       M_cuda_host [AI nFlags, AI 32, AI 1]"

definition new_video_cudabuf_managed :: "qcall api \<Rightarrow> fsref \<Rightarrow> colorspace \<Rightarrow> int \<Rightarrow> int \<Rightarrow> int \<Rightarrow>
    ('z, int \<times> ptr option) q" where
  "new_video_cudabuf_managed api k nColorSpaceType nWidth nHeight nFlags =
     new_frame api k ''video_property'' [AC nColorSpaceType, AI nWidth, AI nHeight]
       M_cuda_managed [AI nFlags, AI 32, AI 1]"

definition new_qdmabuf :: "qcall api \<Rightarrow> fsref \<Rightarrow> int \<Rightarrow> int \<Rightarrow> ('z, int \<times> ptr option) q" where
  "new_qdmabuf api k nSize nProt = do {
     r0 \<leftarrow> call api (New O_rcbuffer []);
     let pRCBuffer_ret = fst r0;
     push k (Delete O_rcbuffer pRCBuffer_ret);
     r1 \<leftarrow> call api (Alloc M_qdmabuf pRCBuffer_ret [AI nSize, AI nProt]);
     if fst r1 \<noteq> QCAP_RS_SUCCESSFUL then ret (fst r1, None)
     else do {
       push k (Free M_qdmabuf pRCBuffer_ret);
       ret (fst r1, Some pRCBuffer_ret) } }"

definition new_video_nvbuf :: "qcall api \<Rightarrow> fsref \<Rightarrow> int \<Rightarrow> ('z, int \<times> ptr option) q" where
  "new_video_nvbuf api k oNVBufParam = do {
     r0 \<leftarrow> call api (New O_rcbuffer []);
     let pRCBuffer_ret = fst r0;
     push k (Delete O_rcbuffer pRCBuffer_ret);
     r1 \<leftarrow> call api (Alloc M_nvbuf pRCBuffer_ret [AI oNVBufParam]);
     if fst r1 \<noteq> QCAP_RS_SUCCESSFUL then ret (fst r1, None)
     else do {
       push k (Free M_nvbuf pRCBuffer_ret);
       ret (fst r1, Some pRCBuffer_ret) } }"

text \<open>
  \<open>align\<close> and the plane layout \<open>new_video_qdmabuf\<close> computes.  \<open>ULONG\<close> is a type
  of qcap's headers: \<open>ub\<close> is its width in bits.  The result is the buffer size, the two
  plane offsets and the two strides (planes 2 and 3 stay 0); \<open>None\<close> is the default
  branch of the switch.
\<close>

definition align :: "int \<Rightarrow> int \<Rightarrow> int" where
  "align x a = (x + a - 1) AND NOT (a - 1)"

definition qdmabuf_layout :: "nat \<Rightarrow> colorspace \<Rightarrow> int \<Rightarrow> int \<Rightarrow> (int \<times> int list \<times> int list) option" where
  "qdmabuf_layout ub cs nWidth nHeight =
     (case cs of
        CS_NV12 \<Rightarrow>
          (let st = align (to_s32 nWidth) 16 in
           Some (to_s32 ((st * nHeight * 3) mod 2 ^ ub div 2),
                 [0, to_s32 (st * to_s32 nHeight), 0, 0], [st, st, 0, 0]))
      | CS_NV16 \<Rightarrow>
          (let st = align (to_s32 nWidth) 16 in
           Some (to_s32 ((st * nHeight * 2) mod 2 ^ ub),
                 [0, to_s32 (st * to_s32 nHeight), 0, 0], [st, st, 0, 0]))
      | CS_Y444 \<Rightarrow>
          (let st = align (to_s32 (nWidth * 3 mod 2 ^ ub)) 16 in
           Some (to_s32 (st * to_s32 nHeight), [0, 0, 0, 0], [st, 0, 0, 0]))
      | CS_RGBA \<Rightarrow>
          (let st = align (to_s32 (nWidth * 4 mod 2 ^ ub)) 16 in
           Some (to_s32 (st * to_s32 nHeight), [0, 0, 0, 0], [st, 0, 0, 0]))
      | CS_other _ \<Rightarrow> None)"

definition new_video_qdmabuf :: "nat \<Rightarrow> qcall api \<Rightarrow> fsref \<Rightarrow> int \<Rightarrow> int \<Rightarrow> colorspace \<Rightarrow> int \<Rightarrow>
    ('z, int \<times> ptr option) q" where
  "new_video_qdmabuf ub api k nWidth nHeight nColorSpaceType nProt = do {
     r0 \<leftarrow> call api (New O_rcbuffer []);
     push k (Delete O_rcbuffer (fst r0));
     (case qdmabuf_layout ub nColorSpaceType nWidth nHeight of
        None \<Rightarrow> ret (QCAP_RS_ERROR_INVALID_PARAMETER, None)
      | Some (nSize, pBuffer, pStride) \<Rightarrow> do {
          res \<leftarrow> new_qdmabuf api k nSize nProt;
          (case res of
             (qres, None) \<Rightarrow> ret (qres, None)
           | (qres, Some b) \<Rightarrow> if qres \<noteq> QCAP_RS_SUCCESSFUL then ret (qres, Some b) else do {
               r1 \<leftarrow> call api (Get O_rcbuffer ''data'' b []);
               _ \<leftarrow> call api (Set O_av_frame ''video_property'' (fst r1)
                      [AC nColorSpaceType, AI nWidth, AI nHeight]);
               _ \<leftarrow> call api (Set O_av_frame ''buffer1'' (fst r1) [AL pBuffer, AL pStride]);
               ret (qres, Some b) }) }) }"

text \<open>
  Mapping moves the four plane addresses of the frame by the address of the mapping,
  unmapping moves them back.  \<open>Get O_av_frame ''buffer1''\<close> returns the four addresses
  and the four strides, \<open>Get O_rcbuffer ''qdmabuf''\<close> the \<open>pVirAddr\<close> of the buffer.
\<close>

definition outs :: "reply \<Rightarrow> nat \<Rightarrow> nat \<Rightarrow> int list" where
  "outs r from n = map (outp r) [from ..< from + n]"

definition map_video_qdmabuf :: "qcall api \<Rightarrow> ptr \<Rightarrow> int \<Rightarrow> ('z, int) q" where
  "map_video_qdmabuf api pRCBuffer nProt = do {
     r0 \<leftarrow> call api (Get O_rcbuffer ''data'' pRCBuffer []);
     let pAVFrame = fst r0;
     r1 \<leftarrow> call api (Set O_rcbuffer ''map_qdmabuf'' pRCBuffer [AI nProt]);
     if fst r1 \<noteq> QCAP_RS_SUCCESSFUL then ret (fst r1)
     else do {
       r2 \<leftarrow> call api (Get O_rcbuffer ''qdmabuf'' pRCBuffer []);
       if fst r2 \<noteq> QCAP_RS_SUCCESSFUL then ret (fst r2)
       else do {
         r3 \<leftarrow> call api (Get O_av_frame ''buffer1'' pAVFrame []);
         _ \<leftarrow> call api (Set O_av_frame ''buffer1'' pAVFrame
                [AL (map (\<lambda>p. p + outp r2 0) (outs r3 0 4)), AL (outs r3 4 4)]);
         ret (fst r2) } } }"

definition unmap_video_qdmabuf :: "qcall api \<Rightarrow> ptr \<Rightarrow> ('z, int) q" where
  "unmap_video_qdmabuf api pRCBuffer = do {
     r0 \<leftarrow> call api (Get O_rcbuffer ''qdmabuf'' pRCBuffer []);
     if fst r0 \<noteq> QCAP_RS_SUCCESSFUL then ret (fst r0)
     else do {
       r1 \<leftarrow> call api (Get O_rcbuffer ''data'' pRCBuffer []);
       let pAVFrame = fst r1;
       r2 \<leftarrow> call api (Get O_av_frame ''buffer1'' pAVFrame []);
       _ \<leftarrow> call api (Set O_av_frame ''buffer1'' pAVFrame
              [AL (map (\<lambda>p. p - outp r0 0) (outs r2 0 4)), AL (outs r2 4 4)]);
       r3 \<leftarrow> call api (Set O_rcbuffer ''unmap_qdmabuf'' pRCBuffer []);
       ret (fst r3) } }"

section \<open>Every helper keeps the clean-up contract\<close>

abbreviation q_owns :: "fsref \<Rightarrow> resource list \<Rightarrow> (qcall, fsref, 'z) stk_scheme \<Rightarrow> bool" where
  "q_owns \<equiv> owns q_acq q_rel"

text \<open>What a helper leaves alone: the other stacks and the fields of the program.\<close>

definition frame_of :: "fsref \<Rightarrow> (qcall, fsref, 'z) stk_scheme \<Rightarrow> (qcall, fsref, 'z) stk_scheme \<Rightarrow> bool" where
  "frame_of k s t \<longleftrightarrow> (\<forall>k'. k' \<noteq> k \<longrightarrow> fs t k' = fs s k') \<and> stk.more t = stk.more s"

lemma frame_of_refl [simp]: "frame_of k s s"
  by (simp add: frame_of_def)

lemma frame_of_trans: "frame_of k s t \<Longrightarrow> frame_of k t u \<Longrightarrow> frame_of k s u"
  by (simp add: frame_of_def)

lemma frame_of_upd [simp]:
  "frame_of k s (t\<lparr>trace := tr\<rparr>) = frame_of k s t"
  "frame_of k s (t\<lparr>fs := (fs t)(k := cs)\<rparr>) = frame_of k s t"
  by (simp_all add: frame_of_def)

definition keeps :: "fsref \<Rightarrow> resource list \<Rightarrow> (qcall, fsref, 'z) stk_scheme \<Rightarrow>
    (qcall, fsref, 'z) stk_scheme \<Rightarrow> bool" where
  "keeps k base s t \<longleftrightarrow> q_owns k base t \<and> frame_of k s t"

lemmas helper_rules = wp_rules keeps_def owns_def frame_of_def Let_def alloc_ok_def

lemma NewEvent_keeps:
  "q_owns k base s \<Longrightarrow> wp (NewEvent api k) (\<lambda>r t. keeps k base s t) s"
  by (auto simp: NewEvent_def helper_rules intro!: wp_callI)

lemma StartEventHandlers_keeps:
  "q_owns k base s \<Longrightarrow> wp (StartEventHandlers api k) (\<lambda>r t. keeps k base s t) s"
  by (auto simp: StartEventHandlers_def helper_rules intro!: wp_callI)

lemma AddTimerHandler_keeps:
  "q_owns k base s \<Longrightarrow> wp (AddTimerHandler api k h p) (\<lambda>r t. keeps k base s t) s"
  by (auto simp: AddTimerHandler_def helper_rules intro!: wp_callI)

lemma StartVsink_ximage_keeps:
  "q_owns k base s \<Longrightarrow> wp (StartVsink_ximage api k cs w h win) (\<lambda>r t. keeps k base s t) s"
  by (auto simp: StartVsink_ximage_def helper_rules intro!: wp_callI)

lemma new_qdmabuf_keeps:
  "q_owns k base s \<Longrightarrow> wp (new_qdmabuf api k n p) (\<lambda>r t. keeps k base s t) s"
  by (auto simp: new_qdmabuf_def helper_rules intro!: wp_callI)

lemma AddEventHandler_handle_keeps:
  "q_owns k base s \<Longrightarrow> wp (AddEventHandler_handle api k h n) (\<lambda>r t. keeps k base s t) s"
  by (auto simp: AddEventHandler_handle_def helper_rules intro!: wp_callI)

lemma AddEventHandler_keeps:
  "q_owns k base s \<Longrightarrow> wp (AddEventHandler api k h p) (\<lambda>r t. keeps k base s t) s"
  by (auto simp: AddEventHandler_def AddEventHandler_handle_def helper_rules intro!: wp_callI)

lemma new_frame_keeps:
  assumes "m \<noteq> M_qdmabuf" "m \<noteq> M_nvbuf"
  shows "q_owns k base s \<Longrightarrow> wp (new_frame api k nm as m bs) (\<lambda>r t. keeps k base s t) s"
  using assms by (auto simp: new_frame_def helper_rules intro!: wp_callI)

lemma new_video_nvbuf_keeps:
  "q_owns k base s \<Longrightarrow> wp (new_video_nvbuf api k p) (\<lambda>r t. keeps k base s t) s"
  by (auto simp: new_video_nvbuf_def helper_rules intro!: wp_callI)

lemma new_video_qdmabuf_keeps:
  "q_owns k base s \<Longrightarrow> wp (new_video_qdmabuf ub api k w h cs p) (\<lambda>r t. keeps k base s t) s"
  by (auto simp: new_video_qdmabuf_def new_qdmabuf_def helper_rules intro!: wp_callI
      split: option.splits)

lemma map_video_qdmabuf_keeps:
  "q_owns k base s \<Longrightarrow> wp (map_video_qdmabuf api b p) (\<lambda>r t. keeps k base s t) s"
  by (auto simp: map_video_qdmabuf_def helper_rules intro!: wp_callI)

lemma unmap_video_qdmabuf_keeps:
  "q_owns k base s \<Longrightarrow> wp (unmap_video_qdmabuf api b) (\<lambda>r t. keeps k base s t) s"
  by (auto simp: unmap_video_qdmabuf_def helper_rules intro!: wp_callI)

section \<open>Test cases\<close>

record testcase = "(qcall, fsref) stk" +
  pEventHandlers :: ptr

definition TestCase_StartEventHandlers :: "qcall api \<Rightarrow> ('z testcase_ext, int) q" where
  "TestCase_StartEventHandlers api = do {
     r \<leftarrow> StartEventHandlers api FS_main;
     (case snd r of None \<Rightarrow> ret () | Some p \<Rightarrow> modify (\<lambda>s. s\<lparr>pEventHandlers := p\<rparr>));
     ret (fst r) }"

definition TestCase_ExecInEventHandlers ::
    "qcall api \<Rightarrow> ('z testcase_ext, unit) q \<Rightarrow> ('z testcase_ext, int) q" where
  "TestCase_ExecInEventHandlers api body = do {
     s \<leftarrow> State_Monad.get;
     ExecInEventHandlers api (pEventHandlers s) body }"

definition TestCase_AddEventHandler :: "qcall api \<Rightarrow> fsref \<Rightarrow> ptr \<Rightarrow> ('z testcase_ext, int) q" where
  "TestCase_AddEventHandler api k pEvent = do {
     s \<leftarrow> State_Monad.get;
     AddEventHandler api k (pEventHandlers s) pEvent }"

definition TestCase_AddTimerHandler :: "qcall api \<Rightarrow> fsref \<Rightarrow> ptr \<Rightarrow> ('z testcase_ext, int) q" where
  "TestCase_AddTimerHandler api k pTimer = do {
     s \<leftarrow> State_Monad.get;
     AddTimerHandler api k (pEventHandlers s) pTimer }"

definition OnExitEventHandlers :: "qcall api \<Rightarrow> ('z testcase_ext, int) q" where
  "OnExitEventHandlers api = TestCase_ExecInEventHandlers api (flush_stack api FS_evt)"

section \<open>Programs built from the helpers\<close>

text \<open>
  Any program that only calls the helpers on one stack and combines them, feeding results
  into later calls and stopping where it likes.  This is how \<open>OnStart\<close> of the test
  programs is written.  Helpers that return only a QRESULT are padded with \<open>None\<close>.
\<close>

abbreviation qr :: "('z, int) q \<Rightarrow> ('z, int \<times> ptr option) q" where
  "qr m \<equiv> m \<bind> (\<lambda>r. ret (r, None))"

inductive helper_prog :: "qcall api \<Rightarrow> fsref \<Rightarrow> ('z, int \<times> ptr option) q \<Rightarrow> bool" for api k where
  hp_done: "helper_prog api k (ret v)"
| hp_event: "helper_prog api k (NewEvent api k)"
| hp_handlers: "helper_prog api k (StartEventHandlers api k)"
| hp_add_handle: "helper_prog api k (qr (AddEventHandler_handle api k h n))"
| hp_add_event: "helper_prog api k (qr (AddEventHandler api k h p))"
| hp_add_timer: "helper_prog api k (qr (AddTimerHandler api k h p))"
| hp_vsink: "helper_prog api k (StartVsink_ximage api k cs w h win)"
| hp_video_sysbuf: "helper_prog api k (new_video_sysbuf api k cs w h)"
| hp_audio_sysbuf: "helper_prog api k (new_audio_sysbuf api k c f sf n)"
| hp_cuda: "helper_prog api k (new_video_cudabuf api k cs w h)"
| hp_cuda_host: "helper_prog api k (new_video_cudabuf_host api k cs w h fl)"
| hp_cuda_managed: "helper_prog api k (new_video_cudabuf_managed api k cs w h fl)"
| hp_qdmabuf: "helper_prog api k (new_qdmabuf api k n p)"
| hp_video_qdmabuf: "helper_prog api k (new_video_qdmabuf ub api k w h cs p)"
| hp_nvbuf: "helper_prog api k (new_video_nvbuf api k p)"
| hp_map: "helper_prog api k (qr (map_video_qdmabuf api b p))"
| hp_unmap: "helper_prog api k (qr (unmap_video_qdmabuf api b))"
| hp_seq: "helper_prog api k m \<Longrightarrow> (\<And>v. helper_prog api k (f v)) \<Longrightarrow>
     helper_prog api k (m \<bind> f)"

lemma keeps_refl: "q_owns k base s \<Longrightarrow> keeps k base s s"
  by (simp add: keeps_def)

lemma keeps_trans: "keeps k base s t \<Longrightarrow> keeps k base t u \<Longrightarrow> keeps k base s u"
  by (auto simp: keeps_def intro: frame_of_trans)

lemma wp_qr: "wp m (\<lambda>r t. P t) s \<Longrightarrow> wp (qr m) (\<lambda>r t. P t) s"
  by (simp add: wp_def split: prod.splits)

lemmas helper_keeps = NewEvent_keeps StartEventHandlers_keeps AddEventHandler_handle_keeps
  AddEventHandler_keeps AddTimerHandler_keeps StartVsink_ximage_keeps new_frame_keeps
  new_qdmabuf_keeps new_video_qdmabuf_keeps new_video_nvbuf_keeps map_video_qdmabuf_keeps
  unmap_video_qdmabuf_keeps

lemmas frame_constructor_defs = new_video_sysbuf_def new_audio_sysbuf_def new_video_cudabuf_def
  new_video_cudabuf_host_def new_video_cudabuf_managed_def

lemma helper_prog_keeps:
  "helper_prog api k m \<Longrightarrow> q_owns k base s \<Longrightarrow> wp m (\<lambda>r t. keeps k base s t) s"
proof (induction arbitrary: s rule: helper_prog.induct)
  case (hp_done v)
  then show ?case by (simp add: wp_rules keeps_refl)
next
  case (hp_seq m f)
  have "wp m (\<lambda>r t. keeps k base s t) s" by (rule hp_seq.IH(1)) (rule hp_seq.prems)
  then show ?case
    unfolding wp_bind
  proof (rule wp_conseq)
    fix v t
    assume t: "keeps k base s t"
    then have "wp (f v) (\<lambda>r u. keeps k base t u) t"
      by (intro hp_seq.IH(2)) (simp add: keeps_def)
    then show "wp (f v) (\<lambda>r u. keeps k base s u) t"
      by (rule wp_conseq) (rule keeps_trans [OF t])
  qed
qed (auto simp: frame_constructor_defs intro!: helper_keeps wp_qr)

definition clean_start :: "fsref \<Rightarrow> (qcall, fsref, 'z) stk_scheme \<Rightarrow> bool" where
  "clean_start k s \<longleftrightarrow> trace s = [] \<and> fs s k = []"

lemma clean_start_owns: "clean_start k s \<Longrightarrow> q_owns k [] s"
  by (simp add: clean_start_def owns_def)

text \<open>
  C3: whatever the qcap2 library answers, a program built from the testkit helpers that is
  followed by \<open>flush\<close> releases every resource it acquired, each exactly once and in the
  reverse order of acquisition: the replayed trace ends with nothing live, every resource
  has been acquired and released equally often, and the stack is empty.
\<close>

theorem helper_prog_no_leak:
  assumes "helper_prog api k m" and "clean_start k s"
  shows "wp (m \<bind> (\<lambda>_. flush_stack api k))
    (\<lambda>_ t. live q_acq q_rel (trace t) = Some [] \<and> fs t k = [] \<and>
       (\<forall>x. n_acq q_acq q_rel x (trace t) = n_rel q_rel x (trace t))) s"
proof -
  have "wp m (\<lambda>r t. keeps k [] s t) s"
    using assms by (intro helper_prog_keeps clean_start_owns)
  then show ?thesis
    unfolding wp_bind
  proof (rule wp_conseq)
    fix v t
    assume "keeps k [] s t"
    then have "q_owns k [] t" by (simp add: keeps_def)
    then have "wp (flush_stack api k)
        (\<lambda>_ u. live q_acq q_rel (trace u) = Some [] \<and> fs u = (fs t)(k := []) \<and> stk.more u = stk.more t) t"
      by (rule tk.flush_releases)
    then show "wp (flush_stack api k)
        (\<lambda>_ u. live q_acq q_rel (trace u) = Some [] \<and> fs u k = [] \<and>
           (\<forall>x. n_acq q_acq q_rel x (trace u) = n_rel q_rel x (trace u))) t"
      by (rule wp_conseq) (auto dest: live_balance)
  qed
qed

definition stk0 :: "(qcall, fsref) stk" where
  "stk0 = \<lparr>trace = [], fs = (\<lambda>_. [])\<rparr>"

text \<open>A library whose every call succeeds: constructors count up, the rest returns 0.\<close>

definition api_ok :: "qcall api" where
  "api_ok tr c = (case c of New _ _ \<Rightarrow> (int (length tr) + 1, []) | Alloc m _ _ \<Rightarrow>
     (if m = M_qdmabuf \<or> m = M_nvbuf then 0 else 1, []) | NativeHandle _ _ \<Rightarrow> (0, [7])
     | Get _ _ _ _ \<Rightarrow> (0, [0, 64, 0, 0, 16, 16, 0, 0]) | Invoke _ _ \<Rightarrow> (0, [1]) | _ \<Rightarrow> (0, []))"

definition demo_prog :: "(unit, int \<times> ptr option) q" where
  "demo_prog = NewEvent api_ok FS_main \<bind>
     (\<lambda>v. new_video_qdmabuf 64 api_ok FS_main 1920 1080 CS_NV12 3)"

theorem helper_prog_no_leak_witness:
  "wp (demo_prog \<bind> (\<lambda>_. flush_stack api_ok FS_main))
     (\<lambda>_ t. live q_acq q_rel (trace t) = Some [] \<and> fs t FS_main = [] \<and>
       (\<forall>x. n_acq q_acq q_rel x (trace t) = n_rel q_rel x (trace t))) stk0"
proof (rule helper_prog_no_leak)
  show "helper_prog api_ok FS_main demo_prog"
    unfolding demo_prog_def by (intro helper_prog.intros)
  show "clean_start FS_main stk0"
    by (simp add: clean_start_def stk0_def)
qed

section \<open>What the helpers return\<close>

text \<open>
  \<open>NewEvent\<close> stores an event through its out parameter exactly when it reports success,
  the event it stores is the one that was created and started, and on success its two
  clean-up closures (stop on top of delete) are on the stack; on a failed start only the
  delete is.
\<close>

theorem NewEvent_result:
  "wp (NewEvent api k) (\<lambda>(qres, ev) t.
     (case ev of
        Some p \<Rightarrow> qres = QCAP_RS_SUCCESSFUL \<and> fs t k = Stop O_event p # Delete O_event p # fs s k \<and>
          (Start O_event p [], api (tl (trace t)) (Start O_event p [])) = hd (trace t)
      | None \<Rightarrow> qres \<noteq> QCAP_RS_SUCCESSFUL \<and> (\<exists>p. fs t k = Delete O_event p # fs s k))) s"
  by (auto simp: NewEvent_def wp_rules wp_call Let_def)

section \<open>The qdmabuf plane layout\<close>

lemma align_pow2: "align x (2 ^ n) = (x + 2 ^ n - 1) div 2 ^ n * 2 ^ n"
proof -
  have "align x (2 ^ n) = (x + 2 ^ n - 1) AND NOT (mask n)"
    by (simp add: align_def mask_eq_exp_minus_1)
  also have "\<dots> = push_bit n (drop_bit n (x + 2 ^ n - 1))"
    by (rule bit_eqI) (auto simp: bit_simps)
  finally show ?thesis
    by (simp add: push_bit_eq_mult drop_bit_eq_div)
qed

lemma align_16: "align x 16 = (x + 15) div 16 * 16"
  using align_pow2 [of x 4] by simp

lemma align_16_bounds: "x \<le> align x 16 \<and> align x 16 < x + 16 \<and> align x 16 mod 16 = 0"
  unfolding align_16 by (simp; linarith)

text \<open>Bytes of one pixel row of plane 0.\<close>

fun row_bytes :: "colorspace \<Rightarrow> int \<Rightarrow> int" where
  "row_bytes CS_Y444 w = 3 * w"
| "row_bytes CS_RGBA w = 4 * w"
| "row_bytes _ w = w"

lemma layout_prod_bounds:
  assumes "0 < h" "h \<le> (16384 :: int)" "0 < st" "st \<le> 65536"
  shows "0 < st * h" "st * h \<le> 1073741824"
  using assms mult_mono [of st 65536 h 16384] by simp_all

text \<open>The bytes the planes need, with a chroma row for every started pair of NV12 rows.\<close>

fun plane_bytes :: "colorspace \<Rightarrow> int \<Rightarrow> int \<Rightarrow> int" where
  "plane_bytes CS_NV12 st h = st * h + st * ((h + 1) div 2)"
| "plane_bytes CS_NV16 st h = 2 * (st * h)"
| "plane_bytes _ st h = st * h"

lemma mod_pow_small: "0 \<le> (x :: int) \<Longrightarrow> x < 2 ^ 32 \<Longrightarrow> 32 \<le> ub \<Longrightarrow> x mod 2 ^ ub = x"
proof -
  assume x: "0 \<le> x" "x < 2 ^ 32" and "32 \<le> ub"
  then have "(2 :: int) ^ 32 \<le> 2 ^ ub" by (intro power_increasing) auto
  with x show ?thesis by simp
qed

lemma planar_size:
  assumes "0 < h" "h \<le> 16384" "0 < st" "st \<le> 16400" "32 \<le> ub"
  shows "to_s32 ((st * h * 3) mod 2 ^ ub div 2) = st * h * 3 div 2"
    and "to_s32 ((st * h * 2) mod 2 ^ ub) = 2 * (st * h)"
proof -
  define p where "p = st * h"
  have b: "0 \<le> p" "p \<le> 268697600"
    using assms mult_mono [of st 16400 h 16384] by (simp_all add: p_def)
  have m: "(p * 3) mod 2 ^ ub = p * 3" "(p * 2) mod 2 ^ ub = p * 2"
    by (rule mod_pow_small; use b assms(5) in simp)+
  show "to_s32 ((st * h * 3) mod 2 ^ ub div 2) = st * h * 3 div 2"
    unfolding p_def [symmetric] m by (rule to_s32_idI; use b in simp)
  show "to_s32 ((st * h * 2) mod 2 ^ ub) = 2 * (st * h)"
    unfolding p_def [symmetric] m by (subst to_s32_idI; use b in simp)
qed

lemma packed_size:
  assumes "0 < h" "h \<le> 16384" "0 < st" "st \<le> 65536"
  shows "to_s32 (st * to_s32 h) = st * h"
proof -
  have "to_s32 h = h" by (rule to_s32_idI; use assms in linarith)
  moreover have "to_s32 (st * h) = st * h"
    by (rule to_s32_idI; use layout_prod_bounds [OF assms] in linarith)
  ultimately show ?thesis by simp
qed

lemma align_16_small:
  assumes "0 < x" "x \<le> 65536"
  shows "0 < align x 16" "align x 16 \<le> 65536"
proof -
  show "0 < align x 16" using assms align_16_bounds [of x] by linarith
  have "(x + 15) div 16 \<le> 4096" using assms by linarith
  then show "align x 16 \<le> 65536" by (simp add: align_16)
qed

lemma layout_planar:
  assumes "0 < w" "w \<le> 16384" "0 < h" "h \<le> 16384" "32 \<le> ub"
  shows "qdmabuf_layout ub CS_NV12 w h =
      Some (align w 16 * h * 3 div 2, [0, align w 16 * h, 0, 0], [align w 16, align w 16, 0, 0])"
    and "qdmabuf_layout ub CS_NV16 w h =
      Some (2 * (align w 16 * h), [0, align w 16 * h, 0, 0], [align w 16, align w 16, 0, 0])"
proof -
  have w: "to_s32 w = w" by (rule to_s32_idI; use assms in linarith)
  have st: "0 < align w 16" "align w 16 \<le> 16400"
    using assms align_16_bounds [of w] by linarith+
  note ps = planar_size [OF assms(3,4) st assms(5)]
  have off: "to_s32 (align w 16 * to_s32 h) = align w 16 * h"
    by (rule packed_size; use st assms in linarith)
  show "qdmabuf_layout ub CS_NV12 w h =
      Some (align w 16 * h * 3 div 2, [0, align w 16 * h, 0, 0], [align w 16, align w 16, 0, 0])"
    by (simp only: qdmabuf_layout_def colorspace.case Let_def w ps off)
  show "qdmabuf_layout ub CS_NV16 w h =
      Some (2 * (align w 16 * h), [0, align w 16 * h, 0, 0], [align w 16, align w 16, 0, 0])"
    by (simp only: qdmabuf_layout_def colorspace.case Let_def w ps off)
qed

lemma layout_packed:
  assumes "0 < w" "w \<le> 16384" "0 < h" "h \<le> 16384" "32 \<le> ub"
  shows "qdmabuf_layout ub CS_Y444 w h =
      Some (align (3 * w) 16 * h, [0, 0, 0, 0], [align (3 * w) 16, 0, 0, 0])"
    and "qdmabuf_layout ub CS_RGBA w h =
      Some (align (4 * w) 16 * h, [0, 0, 0, 0], [align (4 * w) 16, 0, 0, 0])"
proof -
  have w: "to_s32 (w * 3 mod 2 ^ ub) = 3 * w" "to_s32 (w * 4 mod 2 ^ ub) = 4 * w"
    using assms by (simp_all add: mod_pow_small)
  have st: "to_s32 (align (3 * w) 16 * to_s32 h) = align (3 * w) 16 * h"
    "to_s32 (align (4 * w) 16 * to_s32 h) = align (4 * w) 16 * h"
    using assms align_16_small [of "3 * w"] align_16_small [of "4 * w"]
    by (intro packed_size; simp)+
  show "qdmabuf_layout ub CS_Y444 w h =
      Some (align (3 * w) 16 * h, [0, 0, 0, 0], [align (3 * w) 16, 0, 0, 0])"
    by (simp only: qdmabuf_layout_def colorspace.case Let_def w st)
  show "qdmabuf_layout ub CS_RGBA w h =
      Some (align (4 * w) 16 * h, [0, 0, 0, 0], [align (4 * w) 16, 0, 0, 0])"
    by (simp only: qdmabuf_layout_def colorspace.case Let_def w st)
qed

text \<open>What the requested size is short of; half a row for NV12 frames of odd height.\<close>

definition shortfall :: "colorspace \<Rightarrow> int \<Rightarrow> int \<Rightarrow> int" where
  "shortfall cs st h = (if cs = CS_NV12 \<and> odd h then st div 2 else 0)"

lemma nv12_bytes: "even st \<Longrightarrow> st * h * 3 div 2 = plane_bytes CS_NV12 st h - shortfall CS_NV12 st h" for st h :: int
  by (cases "even h") (auto simp: shortfall_def algebra_simps elim!: evenE oddE)

text \<open>
  C32: for every supported pixel format and every frame up to 16384 x 16384, the layout
  \<open>new_video_qdmabuf\<close> computes has a 16-byte aligned stride that holds one row and wastes
  less than 16 bytes of it and puts the second plane right behind the first; it requests exactly the
  bytes of its planes, but for NV12 frames of odd height half a row less, so that the last chroma row
  does not fit; no intermediate value wraps.
\<close>

theorem qdmabuf_layout_fits:
  assumes "0 < w" "w \<le> 16384" "0 < h" "h \<le> 16384" "32 \<le> ub"
    and "cs \<in> {CS_NV12, CS_NV16, CS_Y444, CS_RGBA}"
  shows "\<exists>st off st1. qdmabuf_layout ub cs w h =
      Some (plane_bytes cs st h - shortfall cs st h, [0, off, 0, 0], [st, st1, 0, 0]) \<and>
    st mod 16 = 0 \<and> row_bytes cs w \<le> st \<and> st < row_bytes cs w + 16 \<and>
    (if cs \<in> {CS_NV12, CS_NV16} then off = st * h \<and> st1 = st else off = 0 \<and> st1 = 0)"
proof -
  have "even (align w 16)" using align_16_bounds [of w] by presburger
  note size = nv12_bytes [OF this]
  note lay = layout_planar [OF assms(1-5)] layout_packed [OF assms(1-5)]
  from assms(6) consider "cs = CS_NV12" | "cs = CS_NV16" | "cs = CS_Y444" | "cs = CS_RGBA"
    by blast
  then show ?thesis
  proof cases
    case 1
    then show ?thesis
      unfolding 1 lay(1) size using align_16_bounds [of w] by simp
  qed (use align_16_bounds [of w] align_16_bounds [of "3 * w"] align_16_bounds [of "4 * w"]
      in \<open>simp_all add: lay shortfall_def\<close>)
qed

theorem qdmabuf_layout_fits_witness:
  "(\<exists>st off st1. qdmabuf_layout 32 CS_NV12 1918 1080 =
      Some (plane_bytes CS_NV12 st 1080 - shortfall CS_NV12 st 1080, [0, off, 0, 0], [st, st1, 0, 0]) \<and>
    st mod 16 = 0 \<and> row_bytes CS_NV12 1918 \<le> st \<and> st < row_bytes CS_NV12 1918 + 16 \<and>
    off = st * 1080 \<and> st1 = st) \<and> shortfall CS_NV12 1920 1081 = 960"
  using qdmabuf_layout_fits [of 1918 1080 32 CS_NV12] by (simp add: shortfall_def)

section \<open>Mapping and unmapping a frame\<close>

text \<open>The plane addresses and strides a frame was last given.\<close>

primrec last_buffer1 :: "ptr \<Rightarrow> qcall event list \<Rightarrow> (int list \<times> int list) option" where
  "last_buffer1 f [] = None"
| "last_buffer1 f (e # tr) =
     (case fst e of
        Set ob nm g as \<Rightarrow>
          if ob = O_av_frame \<and> nm = ''buffer1'' \<and> g = f
          then (case as of [AL ps, AL ss] \<Rightarrow> Some (ps, ss) | _ \<Rightarrow> last_buffer1 f tr)
          else last_buffer1 f tr
      | _ \<Rightarrow> last_buffer1 f tr)"

text \<open>
  The mapping a buffer has: \<open>Some tr\<close> when it was made after the calls \<open>tr\<close> and has not been given
  back, \<open>None\<close> when there is none.
\<close>

primrec mapped_after :: "ptr \<Rightarrow> qcall event list \<Rightarrow> qcall event list option" where
  "mapped_after b [] = None"
| "mapped_after b (e # tr) =
     (case fst e of
        Set ob nm g as \<Rightarrow>
          if ob = O_rcbuffer \<and> nm = ''map_qdmabuf'' \<and> g = b \<and> fst (snd e) = QCAP_RS_SUCCESSFUL then Some tr
          else if ob = O_rcbuffer \<and> nm = ''unmap_qdmabuf'' \<and> g = b then None
          else mapped_after b tr
      | _ \<Rightarrow> mapped_after b tr)"

text \<open>
  What the code relies on: \<open>qcap2_rcbuffer_get_data\<close> always yields the same frame for a buffer;
  while the buffer is mapped, \<open>qcap2_rcbuffer_get_qdmabuf\<close> yields the address \<open>va tr\<close> which the
  library chose for that mapping, and nothing is known of the address before it and after it; and
  \<open>qcap2_av_frame_get_buffer1\<close> reads back what \<open>qcap2_av_frame_set_buffer1\<close> stored.
\<close>

definition frame_laws :: "qcall api \<Rightarrow> ptr \<Rightarrow> ptr \<Rightarrow> (qcall event list \<Rightarrow> int) \<Rightarrow> bool" where
  "frame_laws api b f va \<longleftrightarrow>
     (\<forall>tr. fst (api tr (Get O_rcbuffer ''data'' b [])) = f) \<and>
     (\<forall>tr m. mapped_after b tr = Some m \<and> fst (api tr (Get O_rcbuffer ''qdmabuf'' b [])) = QCAP_RS_SUCCESSFUL \<longrightarrow>
        outp (api tr (Get O_rcbuffer ''qdmabuf'' b [])) 0 = va m) \<and>
     (\<forall>tr ps ss. last_buffer1 f tr = Some (ps, ss) \<longrightarrow>
        snd (api tr (Get O_av_frame ''buffer1'' f [])) = ps @ ss)"

lemma outs_append_gen:
  "snd r = ps @ ss \<Longrightarrow> outs r 0 (length ps) = ps"
  "snd r = ps @ ss \<Longrightarrow> outs r (length ps) (length ss) = ss"
  by (auto simp: outs_def outp_def nth_append intro!: nth_equalityI)

lemma outs_append:
  assumes "snd r = ps @ ss" "length ps = 4" "length ss = 4"
  shows "outs r 0 4 = ps" "outs r 4 4 = ss"
  using outs_append_gen [OF assms(1)] assms(2,3) by simp_all

lemma frame_laws_buffer:
  assumes "frame_laws api b f va" "last_buffer1 f tr = Some (ps, ss)" "length ps = 4" "length ss = 4"
  shows "outs (api tr (Get O_av_frame ''buffer1'' f [])) 0 4 = ps"
    "outs (api tr (Get O_av_frame ''buffer1'' f [])) 4 4 = ss"
  using assms by (auto simp: frame_laws_def intro!: outs_append)

lemma map_moves:
  assumes laws: "frame_laws api b f va" and "last_buffer1 f (trace s) = Some (ps, ss)"
    "length ps = 4" "length ss = 4"
  shows "wp (map_video_qdmabuf api b p) (\<lambda>r t. r = QCAP_RS_SUCCESSFUL \<longrightarrow>
    (\<exists>m. mapped_after b (trace t) = Some m \<and> last_buffer1 f (trace t) = Some (map (\<lambda>q. q + va m) ps, ss))) s"
proof -
  have data: "fst (api tr (Get O_rcbuffer ''data'' b [])) = f" for tr
    using laws by (simp add: frame_laws_def)
  have addr: "outp (api tr (Get O_rcbuffer ''qdmabuf'' b [])) 0 = va m"
    if "fst (api tr (Get O_rcbuffer ''qdmabuf'' b [])) = QCAP_RS_SUCCESSFUL" "mapped_after b tr = Some m" for tr m
    using laws that by (simp add: frame_laws_def)
  show ?thesis
    using assms
    by (simp add: map_video_qdmabuf_def wp_rules wp_call Let_def data addr
        frame_laws_buffer [OF laws _ assms(3,4)])
qed

lemma unmap_moves:
  assumes laws: "frame_laws api b f va" and "last_buffer1 f (trace s) = Some (ps, ss)"
    "length ps = 4" "length ss = 4" and "mapped_after b (trace s) = Some m"
  shows "wp (unmap_video_qdmabuf api b) (\<lambda>r t. r = QCAP_RS_SUCCESSFUL \<longrightarrow>
    last_buffer1 f (trace t) = Some (map (\<lambda>q. q - va m) ps, ss) \<and> mapped_after b (trace t) = None) s"
proof -
  have data: "fst (api tr (Get O_rcbuffer ''data'' b [])) = f" for tr
    using laws by (simp add: frame_laws_def)
  have addr: "outp (api tr (Get O_rcbuffer ''qdmabuf'' b [])) 0 = va m"
    if "fst (api tr (Get O_rcbuffer ''qdmabuf'' b [])) = QCAP_RS_SUCCESSFUL" "mapped_after b tr = Some m" for tr
    using laws that by (simp add: frame_laws_def)
  show ?thesis
    using assms
    by (simp add: unmap_video_qdmabuf_def wp_rules wp_call Let_def data addr
        frame_laws_buffer [OF laws _ assms(3,4)])
qed

text \<open>
  C33: unmapping a qdmabuf frame undoes mapping it, at whatever address the library puts the mapping:
  after a successful map the buffer is mapped and the four plane addresses are moved by the address of
  that mapping, and after a successful unmap the mapping is gone and the frame has its original
  addresses and strides.
\<close>

theorem map_unmap_roundtrip:
  fixes s :: "(qcall, fsref, 'z) stk_scheme"
  assumes "frame_laws api b f va" and "last_buffer1 f (trace s) = Some (ps, ss)"
    "length ps = 4" "length ss = 4"
  shows "wp (map_video_qdmabuf api b p) (\<lambda>r t. r = QCAP_RS_SUCCESSFUL \<longrightarrow>
    (\<exists>m. mapped_after b (trace t) = Some m \<and> last_buffer1 f (trace t) = Some (map (\<lambda>q. q + va m) ps, ss)) \<and>
    wp (unmap_video_qdmabuf api b) (\<lambda>r' u. r' = QCAP_RS_SUCCESSFUL \<longrightarrow>
      mapped_after b (trace u) = None \<and> last_buffer1 f (trace u) = Some (ps, ss)) t) s"
proof (rule wp_conseq [OF map_moves [OF assms]], intro impI conjI)
  fix r and t :: "(qcall, fsref, 'z) stk_scheme"
  assume *: "r = QCAP_RS_SUCCESSFUL \<longrightarrow> (\<exists>m. mapped_after b (trace t) = Some m \<and>
    last_buffer1 f (trace t) = Some (map (\<lambda>q. q + va m) ps, ss))" "r = QCAP_RS_SUCCESSFUL"
  then show "\<exists>m. mapped_after b (trace t) = Some m \<and> last_buffer1 f (trace t) = Some (map (\<lambda>q. q + va m) ps, ss)" by blast
  then obtain m where m: "mapped_after b (trace t) = Some m" "last_buffer1 f (trace t) = Some (map (\<lambda>q. q + va m) ps, ss)"
    by blast
  show "wp (unmap_video_qdmabuf api b) (\<lambda>r' u. r' = QCAP_RS_SUCCESSFUL \<longrightarrow>
      mapped_after b (trace u) = None \<and> last_buffer1 f (trace u) = Some (ps, ss)) t"
    using unmap_moves [OF assms(1) m(2) _ _ m(1)] assms(3,4) by (simp add: comp_def conj_commute)
qed

text \<open>A library that keeps the laws: one frame, and every mapping at an address of its own.\<close>

definition api_frame :: "qcall api" where
  "api_frame tr c =
     (case c of
        Get ob nm p as \<Rightarrow>
          if nm = ''data'' then (5, [])
          else if nm = ''qdmabuf''
          then (case mapped_after p tr of Some m \<Rightarrow> (0, [4096 * (int (length m) + 1)]) | None \<Rightarrow> (- 1, []))
          else (case last_buffer1 p tr of Some (ps, ss) \<Rightarrow> (0, ps @ ss) | None \<Rightarrow> (0, []))
      | _ \<Rightarrow> (0, []))"

definition stk_frame :: "(qcall, fsref) stk" where
  "stk_frame = \<lparr>trace = [(Set O_av_frame ''buffer1'' 5 [AL [0, 64, 0, 0], AL [16, 16, 0, 0]], 0, [])],
     fs = (\<lambda>_. [])\<rparr>"

theorem map_unmap_roundtrip_witness:
  "wp (map_video_qdmabuf api_frame 9 3) (\<lambda>r t. r = QCAP_RS_SUCCESSFUL \<longrightarrow>
    (\<exists>m. mapped_after 9 (trace t) = Some m \<and>
       last_buffer1 5 (trace t) = Some (map (\<lambda>q. q + 4096 * (int (length m) + 1)) [0, 64, 0, 0], [16, 16, 0, 0])) \<and>
    wp (unmap_video_qdmabuf api_frame 9) (\<lambda>r' u. r' = QCAP_RS_SUCCESSFUL \<longrightarrow>
      mapped_after 9 (trace u) = None \<and> last_buffer1 5 (trace u) = Some ([0, 64, 0, 0], [16, 16, 0, 0])) t) stk_frame"
proof -
  have "frame_laws api_frame 9 5 (\<lambda>m. 4096 * (int (length m) + 1))"
    by (auto simp: frame_laws_def api_frame_def outp_def)
  then show ?thesis by (rule map_unmap_roundtrip) (simp_all add: stk_frame_def)
qed

text \<open>With it the map succeeds.\<close>

lemma api_frame_maps: "wp (map_video_qdmabuf api_frame 9 3) (\<lambda>r t. r = QCAP_RS_SUCCESSFUL \<and> mapped_after 9 (trace t) \<noteq> None) stk_frame"
  by (simp add: map_video_qdmabuf_def api_frame_def stk_frame_def wp_rules wp_call qres_defs)

end
