(* ===== verification/Timing.thy ===== *)
theory Timing
  imports Prelude
begin

text \<open>
  Clocks, rate control and the wait loop: src/src/zzlab/ZzClock.cpp, the timer helpers of
  ZzUtils.cpp, \<open>FPSControl2\<close> of ZzUtils.h, and \<open>tick_ctrl_t\<close> and
  \<open>wait_for_test_finish\<close> of testkit.h.  Times are microseconds in int64_t; a signed
  overflow is undefined behaviour in C, so the arithmetic is done on \<open>int\<close> and
  \<open>tick_advance_in_range\<close> gives the range in which no intermediate value leaves int64_t.
\<close>

section \<open>ZzClock\<close>

record timespec =
  tv_sec :: int
  tv_nsec :: int

text \<open>The normal form \<open>clock_gettime\<close> returns.\<close>

definition valid_timespec :: "timespec \<Rightarrow> bool" where
  "valid_timespec ts \<longleftrightarrow> 0 \<le> tv_sec ts \<and> 0 \<le> tv_nsec ts \<and> tv_nsec ts < 1000000000"

definition GetTime :: "timespec \<Rightarrow> int" where
  "GetTime cur_time = tv_sec cur_time * 1000000 + cdiv (tv_nsec cur_time) 1000"

definition qcap_gettimeofday :: "timespec \<Rightarrow> int \<times> int" where
  "qcap_gettimeofday ts = (tv_sec ts, cdiv (tv_nsec ts) 1000)"

text \<open>\<open>SetNextTimer\<close>: the relative expiry of the timer, with no interval.\<close>

definition SetNextTimer :: "int \<Rightarrow> timespec \<times> timespec" where
  "SetNextTimer duration =
     (\<lparr>tv_sec = cdiv duration 1000000, tv_nsec = cmod duration 1000000 * 1000\<rparr>,
      \<lparr>tv_sec = 0, tv_nsec = 0\<rparr>)"

lemma GetTime_mono:
  assumes "valid_timespec a" "valid_timespec b"
    and "tv_sec a * 1000000000 + tv_nsec a \<le> tv_sec b * 1000000000 + tv_nsec b"
  shows "GetTime a \<le> GetTime b"
proof -
  have "GetTime t = (tv_sec t * 1000000000 + tv_nsec t) div 1000" if "valid_timespec t" for t
    using that by (simp add: GetTime_def valid_timespec_def)
  then show ?thesis using assms by (simp add: zdiv_mono1)
qed

text \<open>
  Arming a timer for a non-negative duration and reading the expiry back with
  \<open>GetTime\<close> gives the duration, and the timespec handed to the kernel is normalised.
\<close>

theorem SetNextTimer_roundtrip:
  "0 \<le> d \<Longrightarrow> GetTime (fst (SetNextTimer d)) = d \<and> valid_timespec (fst (SetNextTimer d)) \<and>
    snd (SetNextTimer d) = \<lparr>tv_sec = 0, tv_nsec = 0\<rparr>"
  by (simp add: SetNextTimer_def GetTime_def valid_timespec_def pos_imp_zdiv_nonneg_iff)

theorem SetNextTimer_roundtrip_witness:
  "GetTime (fst (SetNextTimer 2500001)) = 2500001 \<and> valid_timespec (fst (SetNextTimer 2500001)) \<and>
    snd (SetNextTimer 2500001) = \<lparr>tv_sec = 0, tv_nsec = 0\<rparr>"
  using SetNextTimer_roundtrip [of 2500001] by simp

section \<open>Tick control\<close>

record tick_ctrl =
  tc_num :: int
  tc_den :: int
  nDenSecs :: int
  nTimer :: int

definition tick_start :: "tick_ctrl \<Rightarrow> int \<Rightarrow> tick_ctrl" where
  "tick_start c t = c\<lparr>nDenSecs := tc_den c * 1000000, nTimer := t\<rparr>"

definition tick_advance :: "tick_ctrl \<Rightarrow> int \<Rightarrow> int \<times> tick_ctrl" where
  "tick_advance c t =
     (let nDiff = t - nTimer c;
          nTicks = cdiv (nDiff * tc_num c) (nDenSecs c);
          nNextTimer = nTimer c + cdiv ((nTicks + 1) * nDenSecs c) (tc_num c)
      in (nNextTimer - t, c\<lparr>nTimer := nTimer c + cdiv (nTicks * nDenSecs c) (tc_num c)\<rparr>))"

record fps_control2 =
  fps_num :: int
  fps_den :: int
  mNum :: int
  mDenSecs :: int
  mTimer :: int

definition FPSControl2_Start :: "fps_control2 \<Rightarrow> int \<Rightarrow> fps_control2" where
  "FPSControl2_Start c t = c\<lparr>mNum := fps_num c, mDenSecs := fps_den c * 1000000, mTimer := t\<rparr>"

definition FPSControl2_Advance :: "fps_control2 \<Rightarrow> int \<Rightarrow> int \<times> fps_control2" where
  "FPSControl2_Advance c t =
     (let nDiff = t - mTimer c;
          nTicks = cdiv (nDiff * mNum c) (mDenSecs c);
          nNextTimer = mTimer c + cdiv ((nTicks + 1) * mDenSecs c) (mNum c);
          nAdvance = nNextTimer - t
      in (nAdvance, c\<lparr>mTimer := mTimer c + cdiv (nTicks * mDenSecs c) (mNum c)\<rparr>))"

text \<open>A started controller, and a time at or after the last tick.\<close>

definition tick_ready :: "tick_ctrl \<Rightarrow> int \<Rightarrow> bool" where
  "tick_ready c t \<longleftrightarrow> 0 < tc_num c \<and> 0 < nDenSecs c \<and> nTimer c \<le> t"

lemma floor_chain:
  fixes x n d :: int
  assumes "0 < n" "0 < d" "0 \<le> x"
  shows "x * n div d * d div n \<le> x" and "x \<le> (x * n div d + 1) * d div n"
proof -
  have "x * n div d * d \<le> x * n" using assms by (intro div_bounds)
  then have "x * n div d * d div n \<le> x * n div n" using assms by (intro zdiv_mono1)
  then show "x * n div d * d div n \<le> x" using assms by simp
  have "x * n \<le> (x * n div d + 1) * d" using div_bounds(2) [OF assms(2), of "x * n"] by simp
  then have "x * n div n \<le> (x * n div d + 1) * d div n" using assms by (intro zdiv_mono1)
  then show "x \<le> (x * n div d + 1) * d div n" using assms by simp
qed

lemma tick_advance_eq:
  assumes "tick_ready c t"
  defines "k \<equiv> (t - nTimer c) * tc_num c div nDenSecs c"
  shows "tick_advance c t = (nTimer c + (k + 1) * nDenSecs c div tc_num c - t,
    c\<lparr>nTimer := nTimer c + k * nDenSecs c div tc_num c\<rparr>)"
proof -
  have "0 \<le> k" using assms(1) by (simp add: k_def tick_ready_def pos_imp_zdiv_nonneg_iff)
  then show ?thesis
    using assms(1) by (simp add: tick_advance_def Let_def tick_ready_def k_def)
qed

lemma div_behind:
  fixes x k n d :: int
  assumes "0 < n" and "x * n < (k + 1) * d"
  shows "(x - k * d div n - 1) * n < d" and "n dvd d \<Longrightarrow> (x - k * d div n) * n < d"
proof -
  define q where "q = k * d div n"
  define r where "r = k * d mod n"
  have e: "k * d = q * n + r" unfolding q_def r_def by simp
  have "r < n" unfolding r_def by (simp add: assms(1))
  with e have "k * d < q * n + n" by simp
  with assms(2) show "(x - k * d div n - 1) * n < d"
    unfolding q_def [symmetric] left_diff_distrib distrib_right mult_1_left by linarith
  show "(x - k * d div n) * n < d" if "n dvd d"
  proof -
    have "r = 0" unfolding r_def using that by simp
    with e assms(2) show ?thesis unfolding q_def [symmetric] left_diff_distrib distrib_right mult_1_left by linarith
  qed
qed

text \<open>
  C34: a tick controller never asks for a wait in the past nor beyond one period (rounded up).  After
  the call its timer is not moved back, is at or before \<open>t\<close>, and is behind it by less than one period
  and a microsecond, by less than one period when the period is a whole number of microseconds; the
  controller is still ready for any later time.  The period is \<open>nDenSecs / num\<close>.
\<close>

theorem tick_advance_bounds:
  assumes "tick_ready c t"
  shows "case tick_advance c t of (wait, c') \<Rightarrow>
    0 \<le> wait \<and> wait \<le> nDenSecs c div tc_num c + 1 \<and>
    nTimer c \<le> nTimer c' \<and> nTimer c' \<le> t \<and>
    (t - nTimer c' - 1) * tc_num c < nDenSecs c \<and>
    (tc_num c dvd nDenSecs c \<longrightarrow> (t - nTimer c') * tc_num c < nDenSecs c) \<and>
    (\<forall>u \<ge> t. tick_ready c' u)"
proof -
  define x where "x = t - nTimer c"
  define k where "k = x * tc_num c div nDenSecs c"
  have pos: "0 < tc_num c" "0 < nDenSecs c" "0 \<le> x" using assms by (auto simp: tick_ready_def x_def)
  note fc = floor_chain [OF pos, folded k_def]
  have k0: "0 \<le> k" using pos by (simp add: k_def pos_imp_zdiv_nonneg_iff)
  have "(k * nDenSecs c + nDenSecs c) div tc_num c
      \<le> k * nDenSecs c div tc_num c + nDenSecs c div tc_num c + 1"
    using pos by (intro div_add_upper)
  then have up: "(k + 1) * nDenSecs c div tc_num c \<le> x + nDenSecs c div tc_num c + 1"
    using fc by (simp add: distrib_right)
  have lo: "0 \<le> k * nDenSecs c div tc_num c" using pos k0 by (simp add: pos_imp_zdiv_nonneg_iff)
  have "x * tc_num c mod nDenSecs c < nDenSecs c" using pos(2) by simp
  then have "x * tc_num c < (k + 1) * nDenSecs c"
    unfolding k_def distrib_right mult_1_left using div_mult_mod_eq [of "x * tc_num c" "nDenSecs c"] by linarith
  note behind = div_behind [OF pos(1) this]
  have t: "t - (nTimer c + a) = x - a" for a by (simp add: x_def)
  show ?thesis
    unfolding tick_advance_eq [OF assms] x_def [symmetric] k_def [symmetric]
    using fc up lo pos behind by (auto simp: t x_def tick_ready_def)
qed

theorem tick_advance_bounds_witness:
  "case tick_advance \<lparr>tc_num = 30, tc_den = 1, nDenSecs = 1000000, nTimer = 0\<rparr> 100000 of (wait, c') \<Rightarrow>
     0 \<le> wait \<and> wait \<le> 33334 \<and> 0 \<le> nTimer c' \<and> nTimer c' \<le> 100000 \<and> (100000 - nTimer c' - 1) * 30 < 1000000"
proof -
  let ?c = "\<lparr>tc_num = 30, tc_den = 1, nDenSecs = 1000000, nTimer = 0\<rparr>"
  have r: "tick_ready ?c 100000" by (simp add: tick_ready_def)
  from tick_advance_bounds [OF r] show ?thesis by (auto simp: split_beta)
qed

fun tick_run :: "tick_ctrl \<Rightarrow> int list \<Rightarrow> int list" where
  "tick_run c [] = []"
| "tick_run c (t # ts) = fst (tick_advance c t) # tick_run (snd (tick_advance c t)) ts"

fun fps_run :: "fps_control2 \<Rightarrow> int list \<Rightarrow> int list" where
  "fps_run c [] = []"
| "fps_run c (t # ts) = fst (FPSControl2_Advance c t) # fps_run (snd (FPSControl2_Advance c t)) ts"

lemma tick_fps_run:
  "tc_num c = mNum d \<Longrightarrow> nDenSecs c = mDenSecs d \<Longrightarrow> nTimer c = mTimer d \<Longrightarrow>
    tick_run c ts = fps_run d ts"
  by (induction ts arbitrary: c d) (simp_all add: tick_advance_def FPSControl2_Advance_def Let_def)

text \<open>
  C35: \<open>FPSControl2\<close> of the utility library and \<open>tick_ctrl_t\<close> of the test kit
  are the same controller: started with the same rate at the same time they return the same
  waits for every sequence of calls.
\<close>

theorem tick_ctrl_is_FPSControl2:
  assumes "tc_num c = fps_num d" "tc_den c = fps_den d"
  shows "tick_run (tick_start c t) ts = fps_run (FPSControl2_Start d t) ts"
  using assms by (intro tick_fps_run) (simp_all add: tick_start_def FPSControl2_Start_def)

theorem tick_ctrl_is_FPSControl2_witness:
  "tick_run (tick_start \<lparr>tc_num = 60, tc_den = 1, nDenSecs = 0, nTimer = 0\<rparr> 5) [10, 17000] =
   fps_run (FPSControl2_Start \<lparr>fps_num = 60, fps_den = 1, mNum = 0, mDenSecs = 0, mTimer = 0\<rparr> 5) [10, 17000]"
  using tick_ctrl_is_FPSControl2
    [of "\<lparr>tc_num = 60, tc_den = 1, nDenSecs = 0, nTimer = 0\<rparr>"
        "\<lparr>fps_num = 60, fps_den = 1, mNum = 0, mDenSecs = 0, mTimer = 0\<rparr>" 5 "[10, 17000]"]
  by simp

lemma tick_advance_in_range:
  assumes "tick_ready c t" "tc_num c \<le> 1000000" "nDenSecs c \<le> 10 ^ 12" "t - nTimer c \<le> 10 ^ 12"
  defines "k \<equiv> (t - nTimer c) * tc_num c div nDenSecs c"
  shows "(t - nTimer c) * tc_num c < 2 ^ 63" and "(k + 1) * nDenSecs c < 2 ^ 63"
proof -
  have p: "0 < tc_num c" "0 < nDenSecs c" "0 \<le> t - nTimer c"
    using assms(1) by (auto simp: tick_ready_def)
  have m: "(t - nTimer c) * tc_num c \<le> 10 ^ 12 * 1000000"
    using assms(2,4) p by (intro mult_mono) auto
  then show "(t - nTimer c) * tc_num c < 2 ^ 63" by simp
  have "(k + 1) * nDenSecs c \<le> (t - nTimer c) * tc_num c + nDenSecs c"
    unfolding k_def distrib_right using div_bounds(1) [OF p(2)] by simp
  then show "(k + 1) * nDenSecs c < 2 ^ 63" using m assms(3) by simp
qed

section \<open>The wait loop\<close>

text \<open>
  \<open>wait_for_test_finish\<close>: one iteration polls stdin with a timeout and calls the idle
  callback.  \<open>wf_in\<close> is what the environment answers in one iteration: the result of
  \<open>select\<close>, whether stdin is readable, the character \<open>getchar\<close> returns, and the
  clock after \<open>select\<close>.  \<open>idle\<close> is the callback; what it returns may depend on the
  arguments of its earlier calls.
\<close>

record wf_in =
  sel :: int
  readable :: bool
  key :: int
  clk :: int

record wf_state =
  wf_now :: int
  nTick :: int
  bStdinOpen :: bool
  idle_args :: "int list"         \<comment> \<open>latest first\<close>
  timeouts :: "(int \<times> int) list"  \<comment> \<open>the timevals given to \<open>select\<close>\<close>
  watched :: "bool list"          \<comment> \<open>whether stdin was in the read set\<close>

datatype wf_exit = SelectFailed | KeyQ | IdleStopped

definition EOF :: int where "EOF = -1"
definition key_q :: int where "key_q = 113"

definition wf_init :: "int \<Rightarrow> int \<Rightarrow> int \<Rightarrow> wf_state" where
  "wf_init dur_num dur_den now =
     \<lparr>wf_now = now, nTick = cdiv (now * dur_den) dur_num, bStdinOpen = True,
      idle_args = [], timeouts = [], watched = []\<rparr>"

definition wf_timeout :: "int \<Rightarrow> int \<Rightarrow> wf_state \<Rightarrow> int \<times> int" where
  "wf_timeout dur_num dur_den s =
     (let nInterval = cdiv ((nTick s + 1) * dur_num) dur_den - wf_now s
      in if nInterval < 4000 then (0, 4000)
         else (cdiv nInterval 1000000, cmod nInterval 1000000))"

text \<open>The tail of the iteration: the timer tick calls \<open>idle(0)\<close> when nothing was ready.\<close>

definition wf_tick :: "(int list \<Rightarrow> int \<Rightarrow> bool) \<Rightarrow> int \<Rightarrow> wf_state \<Rightarrow> wf_exit option \<times> wf_state" where
  "wf_tick idle err s =
     (if err = 0
      then (if idle (idle_args s) 0 then None else Some IdleStopped, s\<lparr>idle_args := 0 # idle_args s\<rparr>)
      else (None, s))"

definition wf_iter :: "int \<Rightarrow> int \<Rightarrow> (int list \<Rightarrow> int \<Rightarrow> bool) \<Rightarrow> wf_state \<Rightarrow> wf_in \<Rightarrow>
    wf_exit option \<times> wf_state" where
  "wf_iter dur_num dur_den idle s0 i =
     (let s = s0\<lparr>timeouts := wf_timeout dur_num dur_den s0 # timeouts s0,
                 watched := bStdinOpen s0 # watched s0\<rparr>
      in if sel i < 0 then (Some SelectFailed, s)
         else
           let s = s\<lparr>wf_now := clk i, nTick := nTick s + 1\<rparr>
           in if bStdinOpen s \<and> readable i
              then if key i = EOF then (None, s\<lparr>bStdinOpen := False\<rparr>)
                   else if key i = key_q then (Some KeyQ, s)
                   else if \<not> idle (idle_args s) (key i)
                   then (Some IdleStopped, s\<lparr>idle_args := key i # idle_args s\<rparr>)
                   else wf_tick idle (sel i) (s\<lparr>idle_args := key i # idle_args s\<rparr>)
              else wf_tick idle (sel i) s)"

fun wait_for_test_finish :: "int \<Rightarrow> int \<Rightarrow> (int list \<Rightarrow> int \<Rightarrow> bool) \<Rightarrow> wf_state \<Rightarrow> wf_in list \<Rightarrow>
    wf_exit option \<times> wf_state" where
  "wait_for_test_finish n d idle s [] = (None, s)"
| "wait_for_test_finish n d idle s (i # is) =
     (case wf_iter n d idle s i of
        (Some e, t) \<Rightarrow> (Some e, t)
      | (None, t) \<Rightarrow> wait_for_test_finish n d idle t is)"

definition wf_inv :: "wf_state \<Rightarrow> bool" where
  "wf_inv s \<longleftrightarrow>
     (\<forall>(a, b) \<in> set (timeouts s). 0 \<le> a \<and> 0 \<le> b \<and> b < 1000000 \<and> 4000 \<le> a * 1000000 + b) \<and>
     key_q \<notin> set (idle_args s) \<and> EOF \<notin> set (idle_args s) \<and>
     (\<exists>n m. watched s = replicate n False @ replicate m True \<and> (bStdinOpen s \<longrightarrow> n = 0))"

lemma wf_timeout_ok:
  "case wf_timeout n d s of (a, b) \<Rightarrow> 0 \<le> a \<and> 0 \<le> b \<and> b < 1000000 \<and> 4000 \<le> a * 1000000 + b"
  by (simp add: wf_timeout_def Let_def pos_imp_zdiv_nonneg_iff)

lemma watched_extend:
  assumes "w = replicate n False @ replicate m True" "b \<longrightarrow> n = 0"
  shows "\<exists>n' m'. b # w = replicate n' False @ replicate m' True \<and> (b \<longrightarrow> n' = 0)"
  using assms by (cases b) (auto intro: exI [of _ "Suc m"] exI [of _ "Suc n"] exI [of _ m] exI [of _ 0])

lemma wf_inv_begin:
  assumes "wf_inv s"
  shows "wf_inv (s\<lparr>timeouts := wf_timeout n d s # timeouts s, watched := bStdinOpen s # watched s\<rparr>)"
proof -
  obtain k m where "watched s = replicate k False @ replicate m True" "bStdinOpen s \<longrightarrow> k = 0"
    using assms by (auto simp: wf_inv_def)
  from watched_extend [OF this] show ?thesis
    using assms wf_timeout_ok [of n d s] by (simp add: wf_inv_def split_beta)
qed

lemma wf_inv_upd:
  "wf_inv s \<Longrightarrow> wf_inv (s\<lparr>wf_now := x, nTick := y\<rparr>)"
  "wf_inv s \<Longrightarrow> wf_inv (s\<lparr>bStdinOpen := False\<rparr>)"
  "wf_inv s \<Longrightarrow> c \<noteq> key_q \<Longrightarrow> c \<noteq> EOF \<Longrightarrow> xs = idle_args s \<Longrightarrow> wf_inv (s\<lparr>idle_args := c # xs\<rparr>)"
  by (auto simp: wf_inv_def)

lemma wf_inv_tick: "wf_inv s \<Longrightarrow> wf_inv (snd (wf_tick idle e s))"
  using wf_inv_upd(3) [of s 0] by (simp add: wf_tick_def key_q_def EOF_def)

lemma wf_inv_iter: "wf_inv s \<Longrightarrow> wf_inv (snd (wf_iter n d idle s i))"
  unfolding wf_iter_def Let_def
  by (drule wf_inv_begin [of _ n d]) (auto intro!: wf_inv_upd wf_inv_tick)

lemma wf_inv_init: "wf_inv (wf_init n d now)"
  by (simp add: wf_inv_def wf_init_def)

lemma wf_inv_run: "wf_inv s \<Longrightarrow> wf_inv (snd (wait_for_test_finish n d idle s is))"
proof (induction n d idle s "is" rule: wait_for_test_finish.induct)
  case (2 n d idle s i "is")
  then show ?case
    using wf_inv_iter [of s n d idle i] by (auto split: prod.splits option.splits)
qed simp

text \<open>
  In every run of the wait loop, whatever select, the keyboard, the clock and the
  callback do, each timeout handed to \<open>select\<close> is a valid timeval of at least 4 ms (the
  loop never spins), the callback is never called with 'q' or with EOF, and once stdin has
  reported EOF it is never watched again.
\<close>

theorem wait_loop_safe:
  "wf_inv (snd (wait_for_test_finish n d idle (wf_init n d now) is))"
  by (intro wf_inv_run wf_inv_init)

end
