(* ===== verification/Zz_String.thy ===== *)
theory Zz_String
  imports Prelude "HOL-Library.Sublist"
begin

text \<open>
  src/src/zzlab/ZzUtils_string.cpp and ZzUtils_env.cpp: number parsing, string search,
  FourCC codes and the environment parameters built on them.  A C string is the list of its
  characters before the NUL.  The templates \<open>atoul\<close> and \<open>atoulx\<close> are polymorphic in
  the word length; the code instantiates them at 32 and 64 bits.
\<close>

section \<open>Number parsing\<close>

definition MAX_V10 :: "'a::len word" where
  "MAX_V10 = (- 1) div 10"

text \<open>\<open>atoul\<close>: the flag it returns, and the value it stores through its pointer.\<close>

fun atoul_loop :: "string \<Rightarrow> 'a::len word \<Rightarrow> bool \<times> 'a word" where
  "atoul_loop [] ulResult = (True, ulResult)"
| "atoul_loop (c # str) ulResult =
     (if isdigit c then
        if ulResult < MAX_V10 \<or> (ulResult = MAX_V10 \<and> (of_char c :: nat) < of_char CHR ''6'')
        then atoul_loop str (ulResult * 10 + of_nat (of_char c) - 48)
        else (False, ulResult)
      else (False, ulResult))"

definition atoul :: "string \<Rightarrow> bool \<times> 'a::len word" where
  "atoul str = atoul_loop str 0"

text \<open>
  \<open>atoulx\<close> reads hexadecimal digits.  Its limit is written \<open>max() >> 4 + 1\<close>, which C++
  parses as \<open>max() >> 5\<close>.
\<close>

definition MAX_V16 :: "'a::len word" where
  "MAX_V16 = drop_bit (4 + 1) (- 1)"

definition hex_digit :: "char \<Rightarrow> bool" where
  "hex_digit ch = (isdigit ch \<or>
     (of_char CHR ''A'' \<le> (of_char ch :: nat) \<and> (of_char ch :: nat) \<le> of_char CHR ''F''))"

definition hex_num :: "char \<Rightarrow> nat" where
  "hex_num ch = (if (of_char ch :: nat) \<le> of_char CHR ''9''
     then of_char ch - of_char CHR ''0'' else of_char ch - of_char CHR ''A'' + 10)"

fun atoulx_loop :: "string \<Rightarrow> 'a::len word \<Rightarrow> bool \<times> 'a word" where
  "atoulx_loop [] ulResult = (True, ulResult)"
| "atoulx_loop (c # str) ulResult =
     (let ch = toupper c in
      if hex_digit ch then
        if ulResult < MAX_V16
        then atoulx_loop str (push_bit 4 ulResult + of_nat (hex_num ch))
        else (False, ulResult)
      else (False, ulResult))"

definition atoulx :: "string \<Rightarrow> bool \<times> 'a::len word" where
  "atoulx str = atoulx_loop str 0"

text \<open>The dispatch on a \<open>0x\<close> prefix; \<open>None\<close>: the out parameter is not written.\<close>

definition StrToNumber :: "string \<Rightarrow> bool \<times> u32 option" where
  "StrToNumber str =
     (if cchar str 0 = CHR ''0'' \<and> (cchar str 1 = CHR ''x'' \<or> cchar str 1 = CHR ''X'')
      then if cchar str 2 = CHR 0x00 then (False, None)
           else map_prod id Some (atoulx (drop 2 str))
      else map_prod id Some (atoul str))"

definition StrToNumber64 :: "string \<Rightarrow> bool \<times> u64 option" where
  "StrToNumber64 str =
     (if cchar str 0 = CHR ''0'' \<and> (cchar str 1 = CHR ''x'' \<or> cchar str 1 = CHR ''X'')
      then if cchar str 2 = CHR 0x00 then (False, None)
           else map_prod id Some (atoulx (drop 2 str))
      else map_prod id Some (atoul str))"

definition ParseNumber :: "string \<Rightarrow> u32 \<Rightarrow> u32" where
  "ParseNumber str nDefValue =
     (case StrToNumber str of (True, Some nValue) \<Rightarrow> nValue | _ \<Rightarrow> nDefValue)"

definition ParseNumber64 :: "string \<Rightarrow> u64 \<Rightarrow> u64" where
  "ParseNumber64 str nDefValue =
     (case StrToNumber64 str of (True, Some nValue) \<Rightarrow> nValue | _ \<Rightarrow> nDefValue)"

section \<open>String search\<close>

fun StartsWith :: "string \<Rightarrow> string \<Rightarrow> bool" where
  "StartsWith (a # as) (b # bs) = (if a \<noteq> b then False else StartsWith as bs)"
| "StartsWith as bs = (bs = [])"

definition Fill_U32 :: "u32 list \<Rightarrow> int \<Rightarrow> u32 \<Rightarrow> u32 list" where
  "Fill_U32 pDst nSize nValue = fold (\<lambda>i xs. xs[i := nValue]) [0 ..< nat nSize] pDst"

text \<open>The inner loop of \<open>strstri\<close>: what is left of the pattern where it stops.\<close>

fun match_ci :: "string \<Rightarrow> string \<Rightarrow> string" where
  "match_ci (p # ps) (c # cs) = (if toupper p \<noteq> toupper c then p # ps else match_ci ps cs)"
| "match_ci ps cs = ps"

fun strstri :: "string \<Rightarrow> string \<Rightarrow> bool" where
  "strstri [] sub = False"
| "strstri (c # src) sub = (if match_ci sub (c # src) = [] then True else strstri src sub)"

section \<open>FourCC\<close>

text \<open>
  \<open>fourcc\<close> takes plain \<open>char\<close>s and widens them to \<open>uint32_t\<close>: with sign extension where
  \<open>char\<close> is signed (x86), without on ARM.  \<open>char_signed\<close> is the platform's choice.
\<close>

definition widen_char :: "bool \<Rightarrow> u8 \<Rightarrow> u32" where
  "widen_char char_signed a = (if char_signed then scast a else ucast a)"

definition fourcc :: "bool \<Rightarrow> u8 \<Rightarrow> u8 \<Rightarrow> u8 \<Rightarrow> u8 \<Rightarrow> u32" where
  "fourcc char_signed a b c d =
     widen_char char_signed a OR push_bit 8 (widen_char char_signed b) OR
     push_bit 16 (widen_char char_signed c) OR push_bit 24 (widen_char char_signed d)"

definition FourCCChar :: "u32 \<Rightarrow> char" where
  "FourCCChar a =
     (if (97 \<le> a \<and> a \<le> 122) \<or> (65 \<le> a \<and> a \<le> 90) \<or> (48 \<le> a \<and> a \<le> 57)
      then char_of (unat a) else CHR ''#'')"

text \<open>\<open>%08X\<close>.\<close>

definition hex_char :: "nat \<Rightarrow> char" where
  "hex_char n = (if n < 10 then char_of (48 + n) else char_of (55 + n))"

definition hex8 :: "u32 \<Rightarrow> string" where
  "hex8 v = map (\<lambda>i. hex_char (unat (drop_bit (4 * i) v AND 15))) [7, 6, 5, 4, 3, 2, 1, 0]"

definition FourCCToStr :: "u32 \<Rightarrow> string" where
  "FourCCToStr v =
     (if v = 0 then ''RGB24(0x'' @ hex8 v @ '')''
      else if v = 1 then ''BGR24(0x'' @ hex8 v @ '')''
      else if v = 2 then ''ARGB32(0x'' @ hex8 v @ '')''
      else if v = 3 then ''ABGR32(0x'' @ hex8 v @ '')''
      else [FourCCChar (v AND 0xFF), FourCCChar (drop_bit 8 v AND 0xFF),
            FourCCChar (drop_bit 16 v AND 0xFF), FourCCChar (drop_bit 24 v AND 0xFF)] @
           ''(0x'' @ hex8 v @ '')'')"

section \<open>Environment parameters\<close>

text \<open>
  \<open>getenv\<close> is the parameter \<open>env\<close>.  \<open>atoi\<close> is the C library's: optional white space,
  an optional sign, then decimal digits up to the first other character.
\<close>

definition isspace :: "char \<Rightarrow> bool" where
  "isspace c = (c = CHR '' '' \<or> (9 \<le> (of_char c :: nat) \<and> (of_char c :: nat) \<le> 13))"

definition dec_prefix :: "string \<Rightarrow> int" where
  "dec_prefix s = foldl (\<lambda>v c. v * 10 + (of_char c - 48)) 0 (takeWhile isdigit s)"

definition atoi :: "string \<Rightarrow> int" where
  "atoi s =
     (case dropWhile isspace s of
        [] \<Rightarrow> 0
      | c # cs \<Rightarrow> if c = CHR ''-'' then - dec_prefix cs
                  else if c = CHR ''+'' then dec_prefix cs else dec_prefix (c # cs))"

definition InitEnvParam_str :: "(string \<Rightarrow> string option) \<Rightarrow> string \<Rightarrow> string \<Rightarrow> string" where
  "InitEnvParam_str env strName strDefValue =
     (case env strName of Some strVal \<Rightarrow> strVal | None \<Rightarrow> strDefValue)"

definition InitEnvParam_u32 :: "(string \<Rightarrow> string option) \<Rightarrow> string \<Rightarrow> u32 \<Rightarrow> u32" where
  "InitEnvParam_u32 env strName nDefValue =
     (case env strName of
        Some strVal \<Rightarrow> (case StrToNumber strVal of (True, Some value) \<Rightarrow> value | _ \<Rightarrow> nDefValue)
      | None \<Rightarrow> nDefValue)"

definition InitEnvParam_int :: "(string \<Rightarrow> string option) \<Rightarrow> string \<Rightarrow> int \<Rightarrow> int" where
  "InitEnvParam_int env strName nDefValue =
     (case env strName of
        Some strVal \<Rightarrow> (case StrToNumber strVal of (True, Some value) \<Rightarrow> sint value | _ \<Rightarrow> nDefValue)
      | None \<Rightarrow> nDefValue)"

definition InitEnvParam_bool :: "(string \<Rightarrow> string option) \<Rightarrow> string \<Rightarrow> bool \<Rightarrow> bool" where
  "InitEnvParam_bool env strName bDefValue =
     (case env strName of Some strVal \<Rightarrow> (if atoi strVal = 0 then False else True) | None \<Rightarrow> bDefValue)"

definition qcap_get_env_int :: "(string \<Rightarrow> string option) \<Rightarrow> string \<Rightarrow> int \<Rightarrow> int" where
  "qcap_get_env_int env strName nDefValue =
     (let ret0 = nDefValue in
      case env strName of
        Some strValue \<Rightarrow> (case StrToNumber strValue of (True, Some value) \<Rightarrow> sint value | _ \<Rightarrow> ret0)
      | None \<Rightarrow> ret0)"

section \<open>What the parsers accept\<close>

text \<open>The value of a digit string, the specification of both parsers.\<close>

definition digits_value :: "nat \<Rightarrow> (char \<Rightarrow> nat) \<Rightarrow> nat \<Rightarrow> string \<Rightarrow> nat" where
  "digits_value base dig = foldl (\<lambda>v c. v * base + dig c)"

definition dec_value :: "nat \<Rightarrow> string \<Rightarrow> nat" where
  "dec_value = digits_value 10 (\<lambda>c. of_char c - 48)"

definition hex_value :: "nat \<Rightarrow> string \<Rightarrow> nat" where
  "hex_value = digits_value 16 (\<lambda>c. hex_num (toupper c))"

lemma digits_value_simps [simp]:
  "digits_value b dig v [] = v"
  "digits_value b dig v (c # s) = digits_value b dig (v * b + dig c) s"
  "digits_value b dig v (s @ [c]) = digits_value b dig v s * b + dig c"
  by (simp_all add: digits_value_def)

lemma digits_value_ge: "0 < b \<Longrightarrow> v \<le> digits_value b dig v s"
proof (induction s arbitrary: v)
  case Nil
  then show ?case by simp
next
  case (Cons c s)
  have "v \<le> v * b + dig c" using Cons.prems by (cases b) simp_all
  then show ?case using Cons.IH [OF Cons.prems, of "v * b + dig c"] by simp
qed

lemma dec_value_simps [simp]:
  "dec_value v [] = v" "dec_value v (c # s) = dec_value (v * 10 + (of_char c - 48)) s"
  "dec_value v (s @ [c]) = dec_value v s * 10 + (of_char c - 48)"
  by (simp_all add: dec_value_def)

lemma hex_value_simps [simp]:
  "hex_value v [] = v" "hex_value v (c # s) = hex_value (v * 16 + hex_num (toupper c)) s"
  "hex_value v (s @ [c]) = hex_value v s * 16 + hex_num (toupper c)"
  by (simp_all add: hex_value_def)

lemma dec_value_ge: "v \<le> dec_value v s"
  by (simp add: dec_value_def digits_value_ge)

lemma hex_value_ge: "v \<le> hex_value v s"
  by (simp add: hex_value_def digits_value_ge)

text \<open>
  The overflow test compares with \<open>MAX / 10\<close> and, there, the digit with \<open>6\<close>; that is
  exact for the widths whose largest value ends in 5.
\<close>

lemma unat_MAX_V10:
  assumes "(2::nat) ^ LENGTH('a::len) mod 10 = 6"
  shows "unat (MAX_V10 :: 'a word) = (2 ^ LENGTH('a) - 1) div 10"
proof -
  have n: "4 \<le> LENGTH('a)"
  proof (rule ccontr)
    assume "\<not> 4 \<le> LENGTH('a)"
    then have "LENGTH('a) = 0 \<or> LENGTH('a) = 1 \<or> LENGTH('a) = 2 \<or> LENGTH('a) = 3" by arith
    with assms show False by auto
  qed
  have "(2::nat) ^ 4 \<le> 2 ^ LENGTH('a)"
    by (rule power_increasing) (use n in simp_all)
  then have "(10::nat) < 2 ^ LENGTH('a)" by simp
  then have "unat (10 :: 'a word) = 10"
    using unat_of_nat_bounded [of 10, where 'a = 'a] by simp
  then show ?thesis
    by (simp only: MAX_V10_def unat_div unsigned_minus_1_eq_mask mask_eq_exp_minus_1)
qed

lemma atoul_step:
  fixes w :: "'a::len word"
  assumes m: "(2::nat) ^ LENGTH('a) mod 10 = 6" and d: "isdigit c"
  shows "(w < MAX_V10 \<or> (w = MAX_V10 \<and> (of_char c :: nat) < of_char CHR ''6'')) \<longleftrightarrow>
      unat w * 10 + (of_char c - 48) < 2 ^ LENGTH('a)" (is "?test \<longleftrightarrow> ?fits")
    and "unat w * 10 + (of_char c - 48) < 2 ^ LENGTH('a) \<Longrightarrow>
      unat (w * 10 + of_nat (of_char c) - 48) = unat w * 10 + (of_char c - 48)"
proof -
  define q where "q = (2::nat) ^ LENGTH('a) div 10"
  have M: "(2::nat) ^ LENGTH('a) = 10 * q + 6"
    using m div_mult_mod_eq [of "(2::nat) ^ LENGTH('a)" 10] by (simp add: q_def)
  have "(2 ^ LENGTH('a) - 1) div 10 = q" by (simp add: M)
  then have V: "unat (MAX_V10 :: 'a word) = q" using unat_MAX_V10 [OF m] by simp
  have c: "48 \<le> (of_char c :: nat)" "(of_char c :: nat) \<le> 57" using d by (simp_all add: isdigit_iff)
  show "?test \<longleftrightarrow> ?fits"
    unfolding word_less_nat_alt word_unat_eq_iff V M using c by auto
  show "unat (w * 10 + of_nat (of_char c) - 48) = unat w * 10 + (of_char c - 48)"
    if "unat w * 10 + (of_char c - 48) < 2 ^ LENGTH('a)"
  proof -
    have "w * 10 + of_nat (of_char c) - 48 = of_nat (unat w * 10 + (of_char c - 48))"
      using c by (simp add: of_nat_diff)
    then show ?thesis using that by (simp only: unat_of_nat_bounded)
  qed
qed

lemma atoul_loop_exact:
  fixes w :: "'a::len word"
  assumes m: "(2::nat) ^ LENGTH('a) mod 10 = 6"
  shows "fst (atoul_loop s w) \<longleftrightarrow>
      (\<forall>c \<in> set s. isdigit c) \<and> dec_value (unat w) s < 2 ^ LENGTH('a)"
    and "fst (atoul_loop s w) \<Longrightarrow> unat (snd (atoul_loop s w)) = dec_value (unat w) s"
proof (induction s arbitrary: w)
  case Nil
  case 1 show ?case by simp
  case 2 show ?case by simp
next
  case (Cons c s)
  show 1: "fst (atoul_loop (c # s) w) \<longleftrightarrow>
      (\<forall>c \<in> set (c # s). isdigit c) \<and> dec_value (unat w) (c # s) < 2 ^ LENGTH('a)" for w :: "'a word"
  proof (cases "isdigit c \<and> unat w * 10 + (of_char c - 48) < 2 ^ LENGTH('a)")
    case True
    then show ?thesis using atoul_step [OF m, of c w] Cons.IH(1) by simp
  next
    case False
    then show ?thesis
      using atoul_step(1) [OF m, of c w] dec_value_ge [of "unat w * 10 + (of_char c - 48)" s] by auto
  qed
  case 2
  then have "isdigit c" by (auto split: if_splits)
  moreover from this 2 have "unat w * 10 + (of_char c - 48) < 2 ^ LENGTH('a)"
    using atoul_step(1) [OF m, of c w] by (auto split: if_splits)
  ultimately show ?case
    using 2 atoul_step [OF m, of c w] Cons.IH(2) by simp
qed

lemma atoul_exact:
  assumes "(2::nat) ^ LENGTH('a::len) mod 10 = 6"
  shows "(\<exists>v :: 'a word. atoul s = (True, v) \<and> unat v = n) \<longleftrightarrow>
    (\<forall>c \<in> set s. isdigit c) \<and> dec_value 0 s = n \<and> n < 2 ^ LENGTH('a)"
  using atoul_loop_exact [OF assms, of s 0]
  by (cases "atoul_loop s (0 :: 'a word)") (auto simp: atoul_def)

section \<open>Hexadecimal\<close>

lemma hex_num_bound: "hex_digit c \<Longrightarrow> hex_num c < 16"
  by (auto simp: hex_digit_def hex_num_def isdigit_iff)

lemma unat_MAX_V16: "unat (MAX_V16 :: u32) = 2 ^ 27 - 1"
  by (simp add: MAX_V16_def mask_eq_decr_exp)

lemma atoulx_step:
  fixes w :: u32
  assumes "hex_digit (toupper c)" and "w < MAX_V16"
  shows "unat (push_bit 4 w + of_nat (hex_num (toupper c))) = unat w * 16 + hex_num (toupper c)"
proof -
  have w: "unat w < 2 ^ 27 - 1" using assms(2) by (simp add: word_less_nat_alt unat_MAX_V16)
  have "push_bit 4 w + of_nat (hex_num (toupper c)) = of_nat (unat w * 16 + hex_num (toupper c))"
    by (simp add: push_bit_eq_mult)
  then show ?thesis
    using w hex_num_bound [OF assms(1)] by (simp only:) (rule unat_of_nat_bounded, simp)
qed

lemma atoulx_loop_exact:
  fixes w :: u32
  assumes "s = [] \<or> unat w < 2 ^ 27 - 1"
  shows "fst (atoulx_loop s w) \<longleftrightarrow>
      (\<forall>c \<in> set s. hex_digit (toupper c)) \<and> (s \<noteq> [] \<longrightarrow> hex_value (unat w) (butlast s) < 2 ^ 27 - 1)"
    and "fst (atoulx_loop s w) \<Longrightarrow> unat (snd (atoulx_loop s w)) = hex_value (unat w) s"
  using assms
proof (induction s arbitrary: w)
  case Nil
  case 1 show ?case by simp
  case 2 show ?case by simp
next
  case (Cons c s)
  have w: "w < MAX_V16" if "unat w < 2 ^ 27 - 1" for w :: u32
    using that by (simp add: word_less_nat_alt unat_MAX_V16)
  have stop: "\<not> fst (atoulx_loop s w)" if "s \<noteq> []" "\<not> unat w < 2 ^ 27 - 1" for w :: u32
    using that by (cases s) (auto simp: word_less_nat_alt unat_MAX_V16 Let_def)
  show 1: "fst (atoulx_loop (c # s) w) \<longleftrightarrow>
      (\<forall>c \<in> set (c # s). hex_digit (toupper c)) \<and>
      (c # s \<noteq> [] \<longrightarrow> hex_value (unat w) (butlast (c # s)) < 2 ^ 27 - 1)"
    if "c # s = [] \<or> unat w < 2 ^ 27 - 1" for w :: u32
  proof (cases "hex_digit (toupper c)")
    case True
    from that have ww: "w < MAX_V16" by (simp add: w)
    note st = atoulx_step [OF True ww]
    show ?thesis
    proof (cases "s = [] \<or> unat w * 16 + hex_num (toupper c) < 2 ^ 27 - 1")
      case fits: True
      then show ?thesis using True ww that st Cons.IH(1) [of "push_bit 4 w + of_nat (hex_num (toupper c))"]
        by (auto simp: Let_def)
    next
      case False
      then show ?thesis
        using True ww st stop [of "push_bit 4 w + of_nat (hex_num (toupper c))"]
          hex_value_ge [of "unat w * 16 + hex_num (toupper c)" "butlast s"] by (auto simp: Let_def)
    qed
  next
    case False
    then show ?thesis by (simp add: Let_def)
  qed
  case 2
  let ?w = "push_bit 4 w + of_nat (hex_num (toupper c))"
  from 2 have h: "hex_digit (toupper c)" "w < MAX_V16" by (auto simp: Let_def w split: if_splits)
  then have f: "fst (atoulx_loop s ?w)" using 2 by (simp add: Let_def)
  then have "s = [] \<or> unat ?w < 2 ^ 27 - 1" using stop by blast
  then show ?case using h f atoulx_step [OF h] Cons.IH(2) by (simp add: Let_def)
qed

section \<open>Properties of the parsers\<close>

abbreviation hex_prefixed :: "string \<Rightarrow> bool" where
  "hex_prefixed s \<equiv> cchar s 0 = CHR ''0'' \<and> (cchar s 1 = CHR ''x'' \<or> cchar s 1 = CHR ''X'')"

lemma StrToNumber_dec: "\<not> hex_prefixed s \<Longrightarrow> StrToNumber s = map_prod id Some (atoul s)"
  by (auto simp: StrToNumber_def)

lemma StrToNumber_hex: "s \<noteq> [] \<Longrightarrow> is_cstring s \<Longrightarrow> x \<in> {CHR ''x'', CHR ''X''} \<Longrightarrow>
  StrToNumber (CHR ''0'' # x # s) = map_prod id Some (atoulx s)"
  by (cases s) (auto simp: StrToNumber_def cchar_def is_cstring_def)

text \<open>
  Decimal parsing is exact: \<open>StrToNumber\<close> accepts a string without a hexadecimal
  prefix, with value \<open>n\<close>, exactly when it consists of decimal digits that denote \<open>n\<close> and
  \<open>n\<close> fits in 32 bits; no overflowing input is accepted with a wrapped value.
\<close>

theorem StrToNumber_decimal_exact:
  assumes "\<not> (cchar s 0 = CHR ''0'' \<and> (cchar s 1 = CHR ''x'' \<or> cchar s 1 = CHR ''X''))"
  shows "(\<exists>v. StrToNumber s = (True, Some v) \<and> unat v = n) \<longleftrightarrow>
    (\<forall>c \<in> set s. isdigit c) \<and> dec_value 0 s = n \<and> n < 2 ^ 32"
  using atoul_exact [of s n, where 'a = 32] assms
  by (auto simp: StrToNumber_dec map_prod_def split: prod.splits)

theorem StrToNumber_decimal_exact_witness:
  "(\<exists>v. StrToNumber ''4294967295'' = (True, Some v) \<and> unat v = 4294967295) \<and>
   \<not> (\<exists>v. StrToNumber ''4294967296'' = (True, Some v) \<and> unat v = 4294967296)"
  using StrToNumber_decimal_exact [of "''4294967295''" 4294967295]
    StrToNumber_decimal_exact [of "''4294967296''" 4294967296]
  by (simp add: cchar_def isdigit_iff)

text \<open>
  C40: hexadecimal parsing: what \<open>StrToNumber\<close> accepts after \<open>0x\<close> are the digit strings whose
  value without the last digit is below 2^27 - 1, and it returns their exact value.  The bound
  is that of \<open>max() >> 5\<close>: a value such as 0xFFFFFFFF fits in 32 bits and is refused.
\<close>

theorem StrToNumber_hex_exact:
  assumes "s \<noteq> []" and "is_cstring s" and "x \<in> {CHR ''x'', CHR ''X''}"
  shows "(\<exists>v. StrToNumber (CHR ''0'' # x # s) = (True, Some v) \<and> unat v = n) \<longleftrightarrow>
    (\<forall>c \<in> set s. hex_digit (toupper c)) \<and> hex_value 0 (butlast s) < 2 ^ 27 - 1 \<and> hex_value 0 s = n"
  using atoulx_loop_exact [of s 0] assms
  by (cases "atoulx_loop s (0 :: u32)") (auto simp: StrToNumber_hex atoulx_def)

theorem StrToNumber_hex_exact_witness:
  "(\<exists>v. StrToNumber ''0x1fF'' = (True, Some v) \<and> unat v = 511) \<and>
   hex_value 0 ''FFFFFFFF'' < 2 ^ 32 \<and>
   \<not> (\<exists>v. StrToNumber ''0xFFFFFFFF'' = (True, Some v) \<and> unat v = 4294967295)"
  using StrToNumber_hex_exact [of "''1fF''" "CHR ''x''" 511]
    StrToNumber_hex_exact [of "''FFFFFFFF''" "CHR ''x''" 4294967295]
  by (simp add: is_cstring_def hex_digit_def hex_num_def toupper_def isdigit_iff)

text \<open>Decimal printing, and the round trip through \<open>ParseNumber\<close>.\<close>

fun dec_print :: "nat \<Rightarrow> string" where
  "dec_print n = (if n < 10 then [char_of (48 + n)] else dec_print (n div 10) @ [char_of (48 + n mod 10)])"

declare dec_print.simps [simp del]

lemma dec_print_digits: "dec_print n \<noteq> [] \<and> (\<forall>c \<in> set (dec_print n). isdigit c)"
proof (induction n rule: dec_print.induct)
  case (1 n)
  then show ?case
    by (subst (1 2) dec_print.simps) (auto simp: isdigit_iff)
qed

lemma dec_print_value: "dec_value 0 (dec_print n) = n"
proof (induction n rule: dec_print.induct)
  case (1 n)
  then show ?case by (subst dec_print.simps) auto
qed

text \<open>
  Round trip: parsing the decimal representation of any 32-bit number gives that number,
  whatever the default.
\<close>

theorem ParseNumber_print: "ParseNumber (dec_print (unat v)) nDefValue = v"
proof -
  let ?s = "dec_print (unat v)"
  have "\<not> hex_prefixed ?s"
    using dec_print_digits [of "unat v"] by (auto simp: cchar_def isdigit_iff dest!: nth_mem)
  then have "\<exists>u. StrToNumber ?s = (True, Some u) \<and> unat u = unat v"
    using atoul_exact [of ?s "unat v", where 'a = 32] dec_print_digits dec_print_value [of "unat v"]
      unsigned_less [of v] by (auto simp: StrToNumber_dec)
  then show ?thesis by (auto simp: ParseNumber_def word_unat_eq_iff)
qed

section \<open>Search and FourCC\<close>

lemma StartsWith_prefix: "StartsWith s t = prefix t s"
  by (induction s t rule: StartsWith.induct) auto

lemma match_ci_prefix: "match_ci p s = [] \<longleftrightarrow> prefix (map toupper p) (map toupper s)"
  by (induction p s rule: match_ci.induct) auto

text \<open>
  \<open>strstri\<close> is substring search up to the case of letters: it holds exactly when the
  text is not empty and the upper-cased pattern is a contiguous part of the upper-cased text;
  \<open>StartsWith\<close> is the prefix test.
\<close>

theorem strstri_is_sublist:
  "strstri src sub \<longleftrightarrow> src \<noteq> [] \<and> sublist (map toupper sub) (map toupper src)"
proof (induction src)
  case Nil
  then show ?case by simp
next
  case (Cons c src)
  show ?case
  proof (cases "src = []")
    case True
    then show ?thesis using Cons by (auto simp: match_ci_prefix sublist_Cons_right)
  next
    case False
    then show ?thesis using Cons by (auto simp: match_ci_prefix sublist_Cons_right simp del: match_ci.simps)
  qed
qed

definition fourcc_alnum :: "u8 \<Rightarrow> bool" where
  "fourcc_alnum a = ((97 \<le> a \<and> a \<le> 122) \<or> (65 \<le> a \<and> a \<le> 90) \<or> (48 \<le> a \<and> a \<le> 57))"

lemma bit_u8: "bit (x :: u8) n \<Longrightarrow> n < 8"
  using bit_imp_le_length [of x n] by simp

lemma widen_char_ascii: "fourcc_alnum a \<Longrightarrow> widen_char sg a = ucast a"
proof -
  assume "fourcc_alnum a"
  then have "unat a < 2 ^ 7" by (auto simp: fourcc_alnum_def word_le_nat_alt)
  then have "\<not> bit (unat a) 7" by (simp add: bit_iff_odd)
  then have "\<not> bit a 7" by (simp add: bit_unsigned_iff)
  then have "\<not> bit a n" if "7 \<le> n" for n
    using bit_u8 [of a n] that by (cases "n = 7") auto
  then have "scast a = (ucast a :: u32)"
    by (auto intro!: bit_word_eqI simp: bit_simps min_def split: if_splits)
  then show ?thesis by (simp add: widen_char_def)
qed

lemma fourcc_bytes:
  fixes a b c d :: u8
  defines "v \<equiv> ucast a OR push_bit 8 (ucast b) OR push_bit 16 (ucast c) OR push_bit 24 (ucast d) :: u32"
  shows "v AND 0xFF = ucast a" "drop_bit 8 v AND 0xFF = ucast b"
    "drop_bit 16 v AND 0xFF = ucast c" "drop_bit 24 v AND 0xFF = ucast d"
proof -
  have m: "(0xFF :: u32) = mask 8" by (simp add: mask_eq_decr_exp)
  have hi: "\<not> bit x n" if "8 \<le> n" for x :: u8 and n
    using that bit_u8 [of x n] by auto
  show "v AND 0xFF = ucast a" "drop_bit 8 v AND 0xFF = ucast b"
    "drop_bit 16 v AND 0xFF = ucast c" "drop_bit 24 v AND 0xFF = ucast d"
    unfolding v_def m
    by (auto intro!: bit_word_eqI simp: bit_simps hi not_less not_le intro: bit_u8)
qed

lemma FourCCChar_alnum: "fourcc_alnum a \<Longrightarrow> FourCCChar (ucast a) = char_of (unat a)"
  by (auto simp: fourcc_alnum_def FourCCChar_def word_le_nat_alt unat_rules)

lemma fourcc_not_small: "fourcc_alnum a \<Longrightarrow> fourcc_alnum b \<Longrightarrow> fourcc_alnum c \<Longrightarrow> fourcc_alnum d \<Longrightarrow>
  fourcc sg a b c d \<notin> {0, 1, 2, 3}"
proof -
  assume al: "fourcc_alnum a" "fourcc_alnum b" "fourcc_alnum c" "fourcc_alnum d"
  let ?v = "fourcc sg a b c d"
  have "?v AND 0xFF = ucast a"
    using fourcc_bytes(1) [of a b c d] al by (simp add: fourcc_def widen_char_ascii)
  then have "unat (?v AND 0xFF) = unat a" by (simp add: unat_rules)
  moreover have "48 \<le> unat a" using al(1) by (auto simp: fourcc_alnum_def word_le_nat_alt)
  ultimately show ?thesis by auto
qed

text \<open>
  Round trip: the code built by \<open>fourcc\<close> from four letters or digits is printed by
  \<open>FourCCToStr\<close> as these four characters in order, followed by its hexadecimal value, on a
  platform with a signed and with an unsigned \<open>char\<close>.
\<close>

theorem FourCC_roundtrip:
  assumes "fourcc_alnum a" "fourcc_alnum b" "fourcc_alnum c" "fourcc_alnum d"
  shows "FourCCToStr (fourcc sg a b c d) =
    map (\<lambda>x. char_of (unat x)) [a, b, c, d] @ ''(0x'' @ hex8 (fourcc sg a b c d) @ '')''"
  using fourcc_not_small [OF assms, of sg] fourcc_bytes [of a b c d] assms
  by (simp add: FourCCToStr_def FourCCChar_alnum fourcc_def widen_char_ascii)

theorem FourCC_roundtrip_witness:
  "FourCCToStr (fourcc True 78 86 49 50) = ''NV12'' @ ''(0x'' @ hex8 (fourcc True 78 86 49 50) @ '')''"
  using FourCC_roundtrip [of 78 86 49 50 True] by (simp add: fourcc_alnum_def char_of_def bit_0)

end
