(* ===== verification/Pcm_Queue.thy ===== *)
theory Pcm_Queue
  imports Effects
begin

text \<open>
  src/src/tests/sc6f0-pcm-write-queue.h, the audio half of sc6f0-dante-rx.cpp that feeds it
  (\<open>rx_audio_playback\<close>, the ALSA sink and the route switches), and the observer
  sc6f0-pcm-write-trace.c.  ALSA is the parameter \<open>api\<close> on the calls \<open>alsa_call\<close>; a write
  records the bytes it hands over.  The code runs under the owner's mutex, so every operation
  is one atomic step.
\<close>

section \<open>Calls and the delivered stream\<close>

datatype alsa_call =
    Writei "u8 list" nat        \<comment> \<open>the bytes of the frames, the number of frames\<close>
  | Prepare
  | PcmOpen string
  | PcmSetParams
  | PcmClose
  | CtlOpen string
  | CtlWrite string int
  | CtlRead string
  | CtlClose

text \<open>
  A sink of bytes: a call offers bytes, its reply says how many of them it took.
  \<open>delivered\<close> is the stream the far side has received.
\<close>

fun delivered :: "('c \<Rightarrow> u8 list) \<Rightarrow> ('c \<Rightarrow> reply \<Rightarrow> nat) \<Rightarrow> 'c event list \<Rightarrow> u8 list" where
  "delivered offered taken [] = []"
| "delivered offered taken ((c, r) # tr) = delivered offered taken tr @ take (taken c r) (offered c)"

locale byte_sink =
  fixes offered :: "'c \<Rightarrow> u8 list"
    and taken :: "'c \<Rightarrow> reply \<Rightarrow> nat"
  assumes taken_le: "taken c r \<le> length (offered c)"
begin

lemma delivered_conserve:
  assumes "offered c = take n p" and "n \<le> length p"
  shows "delivered offered taken ((c, r) # tr) @ drop (taken c r) p = delivered offered taken tr @ p"
proof -
  have "taken c r \<le> n" using taken_le [of c r] assms by simp
  then have "take (taken c r) (take n p) = take (taken c r) p" by (simp add: min_def)
  then show ?thesis using assms by simp
qed

lemma delivered_idle: "taken c r = 0 \<Longrightarrow> delivered offered taken ((c, r) # tr) = delivered offered taken tr"
  by simp

lemma delivered_prefix: "\<exists>more. delivered offered taken (tr' @ tr) = delivered offered taken tr @ more"
  by (induction tr') auto

end

text \<open>
  The PCM device: \<open>snd_pcm_writei\<close> takes whole frames of 8 bytes, and a result outside
  \<open>1 .. frames\<close> takes nothing.
\<close>

fun pcm_offered :: "alsa_call \<Rightarrow> u8 list" where
  "pcm_offered (Writei xs n) = xs"
| "pcm_offered _ = []"

fun pcm_taken :: "alsa_call \<Rightarrow> reply \<Rightarrow> nat" where
  "pcm_taken (Writei xs n) r =
     (if 0 < fst r \<and> nat (fst r) \<le> n then min (length xs) (nat (fst r) * 8) else 0)"
| "pcm_taken _ r = 0"

interpretation pcm: byte_sink pcm_offered pcm_taken
proof unfold_locales
  show "pcm_taken c r \<le> length (pcm_offered c)" for c r by (cases c) auto
qed

abbreviation played :: "alsa_call event list \<Rightarrow> u8 list" where
  "played \<equiv> delivered pcm_offered pcm_taken"

section \<open>The write queue\<close>

record write_stats =
  accepted :: nat
  again :: nat
  short_writes :: nat
  xruns :: nat
  suspended :: nat
  errors :: nat
  recovery_errors :: nat
  dropped :: nat

definition zero_stats :: write_stats where
  "zero_stats = \<lparr>accepted = 0, again = 0, short_writes = 0, xruns = 0, suspended = 0, errors = 0,
     recovery_errors = 0, dropped = 0\<rparr>"

record dqueue = "alsa_call io" +
  pending :: "u8 list"
  short_tail :: bool
  stats :: write_stats

definition frame_bytes :: nat where "frame_bytes = 8"
definition chunk :: nat where "chunk = 960"
definition max_frames :: nat where "max_frames = 7680"

lemmas queue_consts = frame_bytes_def chunk_def max_frames_def

text \<open>The overflow guard at the entry of \<open>drain\<close>.\<close>

definition drop_excess :: "dqueue \<Rightarrow> dqueue" where
  "drop_excess d =
     (if length (pending d) > max_frames * frame_bytes then
        let excess = length (pending d) - max_frames * frame_bytes in
        d\<lparr>pending := drop excess (pending d), stats := (stats d)\<lparr>dropped := excess div frame_bytes\<rparr>,
          short_tail := False\<rparr>
      else d)"

text \<open>What follows a write that accepted nothing: the counters and the single \<open>prepare\<close>.\<close>

definition write_failed :: "alsa_call api \<Rightarrow> int \<Rightarrow> dqueue \<Rightarrow> dqueue" where
  "write_failed api written d =
     (if written = 0 \<or> written = - EAGAIN \<or> written = - EINTR then
        if written = - EAGAIN then d\<lparr>stats := (stats d)\<lparr>again := again (stats d) + 1\<rparr>\<rparr> else d
      else
        let d1 = d\<lparr>stats := (stats d)\<lparr>errors := errors (stats d) + 1\<rparr>\<rparr> in
        if written = - EPIPE \<or> written = - ESTRPIPE then
          let d2 = (if written = - EPIPE then d1\<lparr>stats := (stats d1)\<lparr>xruns := xruns (stats d1) + 1\<rparr>\<rparr>
                    else d1\<lparr>stats := (stats d1)\<lparr>suspended := suspended (stats d1) + 1\<rparr>\<rparr>);
              r = api (trace d2) Prepare;
              d3 = d2\<lparr>trace := (Prepare, r) # trace d2\<rparr>
          in if fst r < 0 then d3\<lparr>stats := (stats d3)\<lparr>recovery_errors := recovery_errors (stats d3) + 1\<rparr>\<rparr>
             else d3
        else d1)"

text \<open>What follows a write that accepted \<open>written\<close> of the \<open>requested\<close> frames.\<close>

definition write_accepted :: "nat \<Rightarrow> nat \<Rightarrow> dqueue \<Rightarrow> dqueue" where
  "write_accepted requested written d =
     d\<lparr>pending := drop (written * frame_bytes) (pending d),
       stats := (stats d)\<lparr>accepted := accepted (stats d) + written,
         short_writes := short_writes (stats d) + (if written < requested then 1 else 0)\<rparr>,
       short_tail := (written < requested)\<rparr>"

text \<open>The loop: the first argument is the number of attempts left.\<close>

primrec drain_loop :: "alsa_call api \<Rightarrow> nat \<Rightarrow> dqueue \<Rightarrow> dqueue" where
  "drain_loop api 0 d = d"
| "drain_loop api (Suc n) d =
     (let available = length (pending d) div frame_bytes in
      if available = 0 \<or> (\<not> short_tail d \<and> available < chunk) then d
      else
        let requested = min available chunk;
            c = Writei (take (requested * frame_bytes) (pending d)) requested;
            r = api (trace d) c;
            written = fst r;
            d1 = d\<lparr>trace := (c, r) # trace d\<rparr>
        in if written > 0 \<and> nat written \<le> requested
           then drain_loop api n (write_accepted requested (nat written) d1)
           else write_failed api written d1)"

definition drain :: "alsa_call api \<Rightarrow> dqueue \<Rightarrow> dqueue" where
  "drain api d = drain_loop api 16 (drop_excess (d\<lparr>stats := zero_stats\<rparr>))"

lemma write_failed_frame [simp]:
  "pending (write_failed api w d) = pending d"
  "short_tail (write_failed api w d) = short_tail d"
  "accepted (stats (write_failed api w d)) = accepted (stats d)"
  "dropped (stats (write_failed api w d)) = dropped (stats d)"
  "short_writes (stats (write_failed api w d)) = short_writes (stats d)"
  "played (trace (write_failed api w d)) = played (trace d)"
  by (simp_all add: write_failed_def Let_def)

lemma write_accepted_facts [simp]:
  "pending (write_accepted q w d) = drop (w * 8) (pending d)"
  "trace (write_accepted q w d) = trace d"
  "short_tail (write_accepted q w d) = (w < q)"
  "accepted (stats (write_accepted q w d)) = accepted (stats d) + w"
  "dropped (stats (write_accepted q w d)) = dropped (stats d)"
  by (simp_all add: write_accepted_def queue_consts)

text \<open>
  The request of one iteration, with what the device took of it, and the induction over the
  loop: a property of the queue that one accepted write preserves, and that survives the
  clean-up after a failed write, holds at the end.
\<close>

definition request :: "dqueue \<Rightarrow> nat \<Rightarrow> alsa_call \<Rightarrow> bool" where
  "request d q c \<longleftrightarrow> q = min (length (pending d) div 8) 960 \<and> c = Writei (take (q * 8) (pending d)) q"

lemma request_facts:
  assumes "request d q c"
  shows "pcm_offered c = take (q * 8) (pending d)" "q * 8 \<le> length (pending d)" "q \<le> 960"
    "0 < fst r \<Longrightarrow> nat (fst r) \<le> q \<Longrightarrow> pcm_taken c r = nat (fst r) * 8"
    "\<not> (0 < fst r \<and> nat (fst r) \<le> q) \<Longrightarrow> pcm_taken c r = 0"
  using assms by (auto simp: request_def)

lemma drain_loop_invariant:
  fixes api :: "alsa_call api"
  assumes "P d"
    and accept: "\<And>d q c r. P d \<Longrightarrow> request d q c \<Longrightarrow> 0 < fst r \<Longrightarrow> nat (fst r) \<le> q \<Longrightarrow>
        P (write_accepted q (nat (fst r)) (d\<lparr>trace := (c, r) # trace d\<rparr>))"
    and fail: "\<And>d q c r. P d \<Longrightarrow> request d q c \<Longrightarrow> \<not> (0 < fst r \<and> nat (fst r) \<le> q) \<Longrightarrow>
        P (write_failed api (fst r) (d\<lparr>trace := (c, r) # trace d\<rparr>))"
  shows "P (drain_loop api n d)"
  using assms(1)
proof (induction n arbitrary: d)
  case 0
  then show ?case by simp
next
  case (Suc n)
  define q where "q = min (length (pending d) div 8) 960"
  define c where "c = Writei (take (q * 8) (pending d)) q"
  define r where "r = api (trace d) c"
  have req: "request d q c" by (simp add: request_def q_def c_def)
  show ?case
  proof (cases "0 < fst r \<and> nat (fst r) \<le> q")
    case True
    then show ?thesis
      using Suc.IH [OF accept [OF Suc.prems req, of r]] Suc.prems
      by (simp add: Let_def queue_consts flip: q_def c_def r_def)
  next
    case False
    with fail [OF Suc.prems req, of r] Suc.prems show ?thesis
      by (auto simp: Let_def queue_consts simp flip: q_def c_def r_def)
  qed
qed

lemma drop_excess_facts:
  "pending (drop_excess d) = drop (length (pending d) - 61440) (pending d)"
  "trace (drop_excess d) = trace d"
  "accepted (stats (drop_excess d)) = accepted (stats d)"
  "length (pending (drop_excess d)) \<le> 61440"
  by (simp_all add: drop_excess_def queue_consts Let_def)

lemma drop_excess_dropped:
  "dropped (stats d) = 0 \<Longrightarrow> dropped (stats (drop_excess d)) = (length (pending d) - 61440) div 8"
  by (simp add: drop_excess_def queue_consts Let_def)

lemma drain_loop_conserves:
  "played (trace (drain_loop api n d)) @ pending (drain_loop api n d) = played (trace d) @ pending d"
proof (rule drain_loop_invariant [where P = "\<lambda>t. played (trace t) @ pending t = played (trace d) @ pending d"])
  fix t q c and r :: reply
  assume t: "played (trace t) @ pending t = played (trace d) @ pending d" and req: "request t q c"
  note keep = pcm.delivered_conserve [OF request_facts(1,2) [OF req], of r "trace t"]
  show "played (trace (write_accepted q (nat (fst r)) (t\<lparr>trace := (c, r) # trace t\<rparr>))) @
      pending (write_accepted q (nat (fst r)) (t\<lparr>trace := (c, r) # trace t\<rparr>)) = played (trace d) @ pending d"
    if "0 < fst r" "nat (fst r) \<le> q"
    using keep t request_facts(4) [OF req that] by simp
  show "played (trace (write_failed api (fst r) (t\<lparr>trace := (c, r) # trace t\<rparr>))) @
      pending (write_failed api (fst r) (t\<lparr>trace := (c, r) # trace t\<rparr>)) = played (trace d) @ pending d"
    if "\<not> (0 < fst r \<and> nat (fst r) \<le> q)"
    using keep t request_facts(5) [OF req that] by simp
qed simp

lemma drain_loop_counts:
  "length (played (trace (drain_loop api n d))) + 8 * accepted (stats d) =
     length (played (trace d)) + 8 * accepted (stats (drain_loop api n d)) \<and>
   dropped (stats (drain_loop api n d)) = dropped (stats d)"
proof (rule drain_loop_invariant [where P = "\<lambda>t. length (played (trace t)) + 8 * accepted (stats d) =
     length (played (trace d)) + 8 * accepted (stats t) \<and> dropped (stats t) = dropped (stats d)"])
  fix t q c and r :: reply
  assume t: "length (played (trace t)) + 8 * accepted (stats d) =
      length (played (trace d)) + 8 * accepted (stats t) \<and> dropped (stats t) = dropped (stats d)"
    and req: "request t q c"
  let ?t = "t\<lparr>trace := (c, r) # trace t\<rparr>"
  note f = request_facts [OF req]
  show "length (played (trace (write_accepted q (nat (fst r)) ?t))) + 8 * accepted (stats d) =
      length (played (trace d)) + 8 * accepted (stats (write_accepted q (nat (fst r)) ?t)) \<and>
      dropped (stats (write_accepted q (nat (fst r)) ?t)) = dropped (stats d)"
    if "0 < fst r" "nat (fst r) \<le> q"
    using t f(2) that by (simp add: f(1) f(4) [OF that] min_def)
  show "length (played (trace (write_failed api (fst r) ?t))) + 8 * accepted (stats d) =
      length (played (trace d)) + 8 * accepted (stats (write_failed api (fst r) ?t)) \<and>
      dropped (stats (write_failed api (fst r) ?t)) = dropped (stats d)"
    if "\<not> (0 < fst r \<and> nat (fst r) \<le> q)"
    using t f(5) [OF that] by simp
qed simp

text \<open>The shape of the calls of one drain.\<close>

fun drain_call :: "alsa_call event \<Rightarrow> bool" where
  "drain_call (Writei xs n, r) = (0 < n \<and> n \<le> 960 \<and> length xs = n * 8)"
| "drain_call (Prepare, r) = True"
| "drain_call _ = False"

fun is_write :: "alsa_call event \<Rightarrow> bool" where
  "is_write (Writei xs n, r) = True"
| "is_write _ = False"

lemma write_failed_trace:
  "\<exists>new. trace (write_failed api w d) = new @ trace d \<and> list_all drain_call new \<and>
     filter is_write new = [] \<and> length new \<le> 1"
proof (cases "w = - EPIPE \<or> w = - ESTRPIPE")
  case True
  then show ?thesis
    by (intro exI [of _ "[(Prepare, api (trace d) Prepare)]"])
      (auto simp: write_failed_def Let_def errno_defs)
next
  case False
  then show ?thesis by (intro exI [of _ "[]"]) (auto simp: write_failed_def Let_def)
qed

lemma drain_loop_trace:
  "\<exists>new. trace (drain_loop api n d) = new @ trace d \<and> list_all drain_call new \<and>
     length (filter is_write new) \<le> n \<and> length new \<le> length (filter is_write new) + 1"
proof (induction n arbitrary: d)
  case 0
  then show ?case by simp
next
  case (Suc n)
  define q where "q = min (length (pending d) div 8) 960"
  define c where "c = Writei (take (q * 8) (pending d)) q"
  define r where "r = api (trace d) c"
  show ?case
  proof (cases "length (pending d) div 8 = 0 \<or> (\<not> short_tail d \<and> length (pending d) div 8 < 960)")
    case True
    then show ?thesis by (intro exI [of _ "[]"]) (auto simp: Let_def queue_consts)
  next
    case go: False
    then have cc: "drain_call (c, r)" "is_write (c, r)" by (auto simp: c_def q_def)
    let ?d = "d\<lparr>trace := (c, r) # trace d\<rparr>"
    show ?thesis
    proof (cases "0 < fst r \<and> nat (fst r) \<le> q")
      case True
      then have eq: "drain_loop api (Suc n) d = drain_loop api n (write_accepted q (nat (fst r)) ?d)"
        using go by (auto simp: Let_def queue_consts simp flip: q_def c_def r_def)
      from Suc.IH [of "write_accepted q (nat (fst r)) ?d"] obtain new where
        "trace (drain_loop api n (write_accepted q (nat (fst r)) ?d)) = new @ (c, r) # trace d"
        "list_all drain_call new" "length (filter is_write new) \<le> n"
        "length new \<le> length (filter is_write new) + 1" by auto
      then show ?thesis unfolding eq using cc by (intro exI [of _ "new @ [(c, r)]"]) simp
    next
      case False
      then have eq: "drain_loop api (Suc n) d = write_failed api (fst r) ?d"
        using go by (auto simp: Let_def queue_consts simp flip: q_def c_def r_def)
      from write_failed_trace [of api "fst r" ?d] obtain new where
        "trace (write_failed api (fst r) ?d) = new @ (c, r) # trace d"
        "list_all drain_call new" "filter is_write new = []" "length new \<le> 1" by auto
      then show ?thesis unfolding eq using cc by (intro exI [of _ "new @ [(c, r)]"]) simp
    qed
  qed
qed

lemma drain_loop_length: "length (pending (drain_loop api n d)) \<le> length (pending d)"
  by (rule drain_loop_invariant [where P = "\<lambda>t. length (pending t) \<le> length (pending d)"]) simp_all

text \<open>A device that takes every frame it is offered.\<close>

definition accepts_all :: "alsa_call api \<Rightarrow> bool" where
  "accepts_all api = (\<forall>tr xs n. fst (api tr (Writei xs n)) = int n)"

lemma drain_loop_empties:
  assumes "accepts_all api" and "length (pending d) < Suc n * 7680"
  shows "length (pending (drain_loop api n d)) < 7680"
  using assms(2)
proof (induction n arbitrary: d)
  case 0
  then show ?case by simp
next
  case (Suc n)
  define q where "q = min (length (pending d) div 8) 960"
  define c where "c = Writei (take (q * 8) (pending d)) q"
  have r: "fst (api (trace d) c) = int q" using assms(1) by (simp add: accepts_all_def c_def)
  let ?t = "write_accepted q q (d\<lparr>trace := (c, api (trace d) c) # trace d\<rparr>)"
  show ?case
  proof (cases "length (pending d) div 8 = 0 \<or> (\<not> short_tail d \<and> length (pending d) div 8 < 960)")
    case True
    then show ?thesis by (auto simp: Let_def queue_consts)
  next
    case False
    then have "0 < q" by (auto simp: q_def)
    with False r have eq: "drain_loop api (Suc n) d = drain_loop api n ?t"
      by (auto simp: Let_def queue_consts simp flip: q_def c_def)
    have "length (pending ?t) = length (pending d) - q * 8" by simp
    also have "\<dots> < Suc n * 7680"
    proof (cases "length (pending d) div 8 < 960")
      case True
      then have "length (pending d) - q * 8 = length (pending d) mod 8"
        by (simp add: q_def minus_div_mult_eq_mod)
      also have "\<dots> < 8" by simp
      finally show ?thesis by simp
    next
      case False
      then have "q = 960" by (simp add: q_def)
      then show ?thesis using Suc.prems by simp
    qed
    finally have "length (pending ?t) < Suc n * 7680" .
    then show ?thesis unfolding eq by (rule Suc.IH)
  qed
qed

lemma drain_facts:
  "played (trace (drain api d)) @ pending (drain api d) =
     played (trace d) @ drop (length (pending d) - 61440) (pending d)"
  "dropped (stats (drain api d)) = (length (pending d) - 61440) div 8"
  "length (played (trace (drain api d))) = length (played (trace d)) + 8 * accepted (stats (drain api d))"
  "length (pending (drain api d)) \<le> 61440"
  using drain_loop_conserves [of api 16 "drop_excess (d\<lparr>stats := zero_stats\<rparr>)"]
    drain_loop_counts [of api 16 "drop_excess (d\<lparr>stats := zero_stats\<rparr>)"]
    drain_loop_length [of api 16 "drop_excess (d\<lparr>stats := zero_stats\<rparr>)"]
    drop_excess_facts(4) [of "d\<lparr>stats := zero_stats\<rparr>"]
  by (simp_all add: drain_def drop_excess_facts(1-3) drop_excess_dropped zero_stats_def)

lemma drain_trace:
  "\<exists>new. trace (drain api d) = new @ trace d \<and> list_all drain_call new \<and>
      length (filter is_write new) \<le> 16 \<and> length new \<le> length (filter is_write new) + 1"
  using drain_loop_trace [of api 16 "drop_excess (d\<lparr>stats := zero_stats\<rparr>)"]
  by (simp add: drain_def drop_excess_facts(2))

section \<open>Properties of the queue\<close>

text \<open>
  C1: conservation: whatever the device answers, one \<open>drain\<close> hands over an initial part of
  the queue in order and keeps the rest: the bytes played so far followed by the bytes pending
  afterwards are those played before followed by the queue minus its explicitly dropped oldest
  excess.  Nothing is replayed, reordered or lost silently, the drop counter is that excess in
  frames and the accept counter is what was played.
\<close>

theorem drain_conserves:
  "played (trace (drain api d)) @ pending (drain api d) =
     played (trace d) @ drop (length (pending d) - 61440) (pending d) \<and>
   dropped (stats (drain api d)) = (length (pending d) - 61440) div 8 \<and>
   length (played (trace (drain api d))) = length (played (trace d)) + 8 * accepted (stats (drain api d))"
  by (simp add: drain_facts)

text \<open>
  C29: one \<open>drain\<close> is bounded whatever the device answers: at most 16 writes and one
  \<open>prepare\<close>, every write is of 1 to 960 whole frames of the queue, and at most 7680 frames
  stay queued.
\<close>

theorem drain_bounded:
  "(\<exists>new. trace (drain api d) = new @ trace d \<and> list_all drain_call new \<and>
      length (filter is_write new) \<le> 16 \<and> length new \<le> length (filter is_write new) + 1) \<and>
   length (pending (drain api d)) \<le> 61440"
  using drain_trace drain_facts(4) by blast

text \<open>
  C30: progress: if the device takes every frame it is offered, one \<open>drain\<close> leaves less than
  one period of 960 frames in the queue, however full it was.
\<close>

theorem drain_empties:
  assumes "accepts_all api"
  shows "length (pending (drain api d)) < 960 * 8"
  using drain_loop_empties [OF assms, of "drop_excess (d\<lparr>stats := zero_stats\<rparr>)" 16]
    drop_excess_facts(4) [of "d\<lparr>stats := zero_stats\<rparr>"]
  by (simp add: drain_def)

theorem drain_empties_witness:
  "length (pending (drain (\<lambda>tr c. case c of Writei xs n \<Rightarrow> (int n, []) | _ \<Rightarrow> (0, []))
     \<lparr>trace = [], pending = replicate 8192 0, short_tail = False, stats = zero_stats\<rparr>)) < 960 * 8"
  by (rule drain_empties) (simp add: accepts_all_def)

end
