(* ===== verification/Rx_Audio.thy ===== *)
theory Rx_Audio
  imports Pcm_Queue "HOL-Library.Sublist"
begin

text \<open>
  The audio path of src/src/tests/sc6f0-dante-rx.cpp: the mixer controls, the start and stop
  of the ALSA sink, and \<open>rx_audio_playback\<close>, which converts S32LE periods to ALSA's S24_LE
  slots and drains the queue of Pcm_Queue.  A \<open>zst_buffer_t\<close> is its bytes and time stamp.
\<close>

section \<open>State\<close>

datatype zst_audio_format = ZST_AUDIO_FMT_S32LE | ZST_AUDIO_FMT_other u32

record zst_audio_frame =
  channels :: u32
  sample_rate :: u32
  format :: zst_audio_format
  nb_samples :: u32

record zst_audio_buf =
  data :: "u8 list option"   \<comment> \<open>\<open>memory.data\<close> with \<open>memory.size\<close> bytes; \<open>None\<close> is NULL\<close>
  pts :: u64

record rx_audio = "alsa_call io" +
  audio_pcm :: bool          \<comment> \<open>the handle is not NULL\<close>
  audio_pcm_started :: bool
  audio_pending_frame :: "u8 list"
  audio_short_tail :: bool
  audio_pending_pts :: u64
  audio_unsupported_periods :: u64
  audio_accepted_frames :: u64
  audio_again :: u64
  audio_short_writes :: u64
  audio_xruns :: u64
  audio_recovery_errors :: u64
  audio_queue_dropped :: u64
  audio_playback_errors :: u64

type_synonym 'a rx = "(rx_audio, 'a) state"

text \<open>What the process knows of its output: SDI or HDMI, its ALSA card, the DRM mode.\<close>

record rx_env =
  output_is_sdi :: bool
  output_audio_card :: string   \<comment> \<open>empty when there is no unique card\<close>
  drm_modeset_active :: bool

section \<open>Mixer controls\<close>

definition passthrough_ctl :: string where "passthrough_ctl = ''SDI FPGA Passthrough''"
definition route_ctl :: string where "route_ctl = ''Audio Input Route Switch''"

definition set_sdi_fpga_passthrough :: "alsa_call api \<Rightarrow> rx_env \<Rightarrow> bool \<Rightarrow> ((alsa_call, 'z) io_scheme, int) state" where
  "set_sdi_fpga_passthrough api e enable =
     (if \<not> output_is_sdi e then ret 0
      else if output_audio_card e = [] then ret (- 1)
      else do {
        r0 \<leftarrow> call api (CtlOpen (output_audio_card e));
        if fst r0 < 0 then ret (- 1)
        else do {
          r1 \<leftarrow> call api (CtlWrite passthrough_ctl (of_bool enable));
          err \<leftarrow> (if fst r1 \<ge> 0 then do {
                    r2 \<leftarrow> call api (CtlRead passthrough_ctl);
                    ret (if fst r2 \<ge> 0 \<and> (outp r2 0 \<noteq> 0) \<noteq> enable then - EIO else fst r2) }
                  else ret (fst r1));
          call api CtlClose;
          ret (if err < 0 then - 1 else 0) } })"

definition select_hdmi_audio_route :: "alsa_call api \<Rightarrow> rx_env \<Rightarrow> int \<Rightarrow> ((alsa_call, 'z) io_scheme, int) state" where
  "select_hdmi_audio_route api e route = do {
     p \<leftarrow> (if output_is_sdi e then set_sdi_fpga_passthrough api e False else ret 0);
     if p \<noteq> 0 then ret (- 1)
     else if output_audio_card e = [] then ret (- 1)
     else do {
       r0 \<leftarrow> call api (CtlOpen (output_audio_card e));
       if fst r0 < 0 then ret (- 1)
       else do {
         r1 \<leftarrow> call api (CtlWrite route_ctl route);
         call api CtlClose;
         ret (if fst r1 < 0 then - 1 else 0) } } }"

definition read_hdmi_audio_route :: "alsa_call api \<Rightarrow> rx_env \<Rightarrow> ((alsa_call, 'z) io_scheme, int) state" where
  "read_hdmi_audio_route api e =
     (if output_audio_card e = [] then ret (- 1)
      else do {
        r0 \<leftarrow> call api (CtlOpen (output_audio_card e));
        if fst r0 < 0 then ret (- 1)
        else do {
          r1 \<leftarrow> call api (CtlRead route_ctl);
          call api CtlClose;
          ret (if fst r1 < 0 then - 1 else outp r1 0) } })"

definition hdmi_audio_route_name :: "int \<Rightarrow> string" where
  "hdmi_audio_route_name route =
     (if route = 0 then ''PS DDR (Audio Formatter)''
      else if route = 1 then ''Custom FPGA (Dante RX)'' else ''unknown'')"

section \<open>The sink\<close>

definition start_hdmi_audio_sink :: "alsa_call api \<Rightarrow> rx_env \<Rightarrow> int rx" where
  "start_hdmi_audio_sink api e = do {
     rx \<leftarrow> State_Monad.get;
     if audio_pcm_started rx then ret 0
     else if output_is_sdi e \<and> \<not> drm_modeset_active e then ret 0
     else do {
       q \<leftarrow> select_hdmi_audio_route api e 0;
       if q \<noteq> 0 then ret (- 1)
       else do {
         r0 \<leftarrow> call api (PcmOpen (output_audio_card e @ '',0''));
         modify (\<lambda>rx. if fst r0 \<ge> 0 then rx\<lparr>audio_pcm := True\<rparr> else rx);
         err \<leftarrow> (if fst r0 \<ge> 0 then do { r1 \<leftarrow> call api PcmSetParams; ret (fst r1) } else ret (fst r0));
         if err < 0 then do {
           rx1 \<leftarrow> State_Monad.get;
           (if audio_pcm rx1 then do { call api PcmClose; ret () } else ret ());
           modify (\<lambda>rx. rx\<lparr>audio_pcm := False\<rparr>);
           ret (- 1) }
         else do {
           modify (\<lambda>rx. rx\<lparr>audio_pcm_started := True\<rparr>);
           ret 0 } } } }"

definition stop_hdmi_audio_sink :: "alsa_call api \<Rightarrow> unit rx" where
  "stop_hdmi_audio_sink api = do {
     rx \<leftarrow> State_Monad.get;
     (if audio_pcm rx then do { call api PcmClose; ret () } else ret ());
     modify (\<lambda>rx. rx\<lparr>audio_pcm := False, audio_pcm_started := False,
       audio_pending_frame := [], audio_short_tail := False\<rparr>) }"

section \<open>Playback\<close>

definition le32 :: "u8 \<Rightarrow> u8 \<Rightarrow> u8 \<Rightarrow> u8 \<Rightarrow> u32" where
  "le32 b0 b1 b2 b3 =
     ucast b0 OR push_bit 8 (ucast b1) OR push_bit 16 (ucast b2) OR push_bit 24 (ucast b3)"

text \<open>One sample: \<open>sample >>= 8\<close> on a signed 32-bit value, then its three low bytes.\<close>

definition s24_slot :: "u32 \<Rightarrow> u8 list" where
  "s24_slot sample0 =
     (let sample = signed_drop_bit 8 sample0
      in [ucast sample, ucast (signed_drop_bit 8 sample), ucast (signed_drop_bit 16 sample), 0])"

definition s24_convert :: "u8 list \<Rightarrow> nat \<Rightarrow> u8 list" where
  "s24_convert src n =
     concat (map (\<lambda>i. s24_slot (le32 (src ! (4 * i)) (src ! (4 * i + 1)) (src ! (4 * i + 2)) (src ! (4 * i + 3))))
       [0 ..< n])"

definition period_supported :: "u8 list \<Rightarrow> zst_audio_frame option \<Rightarrow> bool" where
  "period_supported mem audio =
     (let ch = (case audio of Some a \<Rightarrow> channels a | None \<Rightarrow> 2);
          rate = (case audio of Some a \<Rightarrow> sample_rate a | None \<Rightarrow> 48000);
          fmt = (case audio of Some a \<Rightarrow> format a | None \<Rightarrow> ZST_AUDIO_FMT_S32LE);
          samples = (case audio of Some a \<Rightarrow> unat (nb_samples a) | None \<Rightarrow> length mem div 8)
      in \<not> (ch \<noteq> 2 \<or> rate \<noteq> 48000 \<or> fmt \<noteq> ZST_AUDIO_FMT_S32LE \<or>
            samples = 0 \<or> samples > 48000 \<or> length mem \<noteq> samples * 8))"

definition rx_drain :: "alsa_call api \<Rightarrow> rx_audio \<Rightarrow> rx_audio" where
  "rx_drain api rx =
     (let d = drain api \<lparr>trace = trace rx, pending = audio_pending_frame rx,
                short_tail = audio_short_tail rx, stats = zero_stats\<rparr>;
          st = stats d
      in rx\<lparr>trace := trace d, audio_pending_frame := pending d, audio_short_tail := short_tail d,
            audio_accepted_frames := audio_accepted_frames rx + of_nat (accepted st),
            audio_again := audio_again rx + of_nat (again st),
            audio_short_writes := audio_short_writes rx + of_nat (short_writes st),
            audio_xruns := audio_xruns rx + of_nat (xruns st),
            audio_recovery_errors := audio_recovery_errors rx + of_nat (recovery_errors st),
            audio_queue_dropped := audio_queue_dropped rx + of_nat (dropped st),
            audio_playback_errors := audio_playback_errors rx +
              of_nat (errors st + recovery_errors st) + (if dropped st \<noteq> 0 then 1 else 0)\<rparr>)"

definition rx_audio_playback ::
    "alsa_call api \<Rightarrow> rx_audio \<Rightarrow> zst_audio_buf option \<Rightarrow> zst_audio_frame option \<Rightarrow> rx_audio" where
  "rx_audio_playback api rx buf audio =
     (if \<not> audio_pcm rx \<or> \<not> audio_pcm_started rx then rx
      else case buf of
        None \<Rightarrow> rx
      | Some b \<Rightarrow>
          (case data b of
             None \<Rightarrow> rx
           | Some mem \<Rightarrow>
               if \<not> period_supported mem audio
               then rx\<lparr>audio_unsupported_periods := audio_unsupported_periods rx + 1\<rparr>
               else
                 let samples = (case audio of Some a \<Rightarrow> unat (nb_samples a) | None \<Rightarrow> length mem div 8);
                     rx1 = (if audio_pending_frame rx = [] then rx\<lparr>audio_pending_pts := pts b\<rparr> else rx);
                     rx2 = rx1\<lparr>audio_pending_frame := audio_pending_frame rx1 @ s24_convert mem (samples * 2)\<rparr>
                 in rx_drain api rx2))"

section \<open>Sample conversion\<close>

lemma bit_u8_lt: "bit (x :: u8) n \<Longrightarrow> n < 8"
  using bit_imp_le_length [of x n] by simp

text \<open>
  The conversion to S24_LE drops exactly the low byte of a sample: the slot holds its three
  significant bytes, right-aligned and in little-endian order, and a zero pad byte, for
  negative samples too.
\<close>

theorem s24_slot_bytes: "s24_slot (le32 b0 b1 b2 b3) = [b1, b2, b3, 0]"
proof -
  have hi: "\<not> bit x n" if "8 \<le> n" for x :: u8 and n
    using that bit_u8_lt [of x n] by auto
  show ?thesis
    unfolding s24_slot_def le32_def Let_def
    by (auto intro!: bit_word_eqI simp: bit_simps hi not_less not_le intro: bit_u8_lt)
qed

lemma length_s24_convert [simp]: "length (s24_convert src n) = 4 * n"
  by (induction n) (simp_all add: s24_convert_def s24_slot_def Let_def)

section \<open>The stream\<close>

text \<open>What a call of \<open>rx_audio_playback\<close> adds to the stream, from an open sink.\<close>

fun period_bytes :: "zst_audio_buf option \<times> zst_audio_frame option \<Rightarrow> u8 list" where
  "period_bytes (None, audio) = []"
| "period_bytes (Some b, audio) =
     (case data b of
        None \<Rightarrow> []
      | Some mem \<Rightarrow> if period_supported mem audio then s24_convert mem (length mem div 4) else [])"

lemma period_samples:
  "period_supported mem audio \<Longrightarrow>
     (case audio of Some a \<Rightarrow> unat (nb_samples a) | None \<Rightarrow> length mem div 8) * 2 = length mem div 4"
  by (auto simp: period_supported_def Let_def split: option.splits)

definition rx_open :: "rx_audio \<Rightarrow> bool" where
  "rx_open rx = (audio_pcm rx \<and> audio_pcm_started rx)"

lemma period_bytes_dvd: "8 dvd length (period_bytes x)"
proof (cases x rule: period_bytes.cases)
  case (2 b audio)
  have "\<exists>k. length mem = k * 8" if "period_supported mem audio" for mem
    using that by (auto simp: period_supported_def Let_def)
  then show ?thesis by (fastforce simp: 2 split: option.splits)
qed simp

lemma rx_drain_stream:
  "played (trace (rx_drain api rx)) @ audio_pending_frame (rx_drain api rx) =
     played (trace rx) @ drop (length (audio_pending_frame rx) - 61440) (audio_pending_frame rx)"
  "audio_queue_dropped (rx_drain api rx) =
     audio_queue_dropped rx + of_nat ((length (audio_pending_frame rx) - 61440) div 8)"
  "rx_open (rx_drain api rx) = rx_open rx"
  "length (audio_pending_frame (rx_drain api rx)) \<le> 61440"
  "8 dvd length (audio_pending_frame rx) \<Longrightarrow> 8 dvd length (audio_pending_frame (rx_drain api rx))"
proof -
  let ?d = "\<lparr>trace = trace rx, pending = audio_pending_frame rx,
      short_tail = audio_short_tail rx, stats = zero_stats\<rparr>"
  note f = drain_facts [of api ?d]
  show "played (trace (rx_drain api rx)) @ audio_pending_frame (rx_drain api rx) =
     played (trace rx) @ drop (length (audio_pending_frame rx) - 61440) (audio_pending_frame rx)"
    "audio_queue_dropped (rx_drain api rx) =
     audio_queue_dropped rx + of_nat ((length (audio_pending_frame rx) - 61440) div 8)"
    "rx_open (rx_drain api rx) = rx_open rx"
    "length (audio_pending_frame (rx_drain api rx)) \<le> 61440"
    using f by (simp_all add: rx_drain_def Let_def rx_open_def)
  assume "8 dvd length (audio_pending_frame rx)"
  then have "8 dvd length (audio_pending_frame rx) - (length (audio_pending_frame rx) - 61440)"
    by (cases "length (audio_pending_frame rx) \<le> 61440") simp_all
  moreover have "8 * accepted (stats (drain api ?d)) + length (pending (drain api ?d)) =
      length (audio_pending_frame rx) - (length (audio_pending_frame rx) - 61440)"
    using arg_cong [OF f(1), of length] f(3) by simp
  ultimately have "8 dvd 8 * accepted (stats (drain api ?d)) + length (pending (drain api ?d))"
    by simp
  then show "8 dvd length (audio_pending_frame (rx_drain api rx))"
    by (simp add: rx_drain_def Let_def dvd_add_right_iff)
qed

text \<open>The branches of \<open>rx_audio_playback\<close> on an open sink.\<close>

lemma playback_cases:
  assumes "rx_open rx"
  obtains (skip) "rx_audio_playback api rx (fst x) (snd x) = rx" "period_bytes x = []"
  | (unsupported) "rx_audio_playback api rx (fst x) (snd x) =
      rx\<lparr>audio_unsupported_periods := audio_unsupported_periods rx + 1\<rparr>" "period_bytes x = []"
  | (drained) r where "rx_audio_playback api rx (fst x) (snd x) = rx_drain api r"
      "audio_pending_frame r = audio_pending_frame rx @ period_bytes x" "trace r = trace rx"
      "rx_open r" "audio_queue_dropped r = audio_queue_dropped rx"
proof (cases x rule: period_bytes.cases)
  case (1 audio)
  then show ?thesis using skip by (simp add: rx_audio_playback_def)
next
  case (2 b audio)
  show ?thesis
  proof (cases "data b")
    case None
    then show ?thesis using skip 2 by (simp add: rx_audio_playback_def)
  next
    case (Some mem)
    show ?thesis
    proof (cases "period_supported mem audio")
      case False
      then show ?thesis using unsupported 2 Some assms by (simp add: rx_audio_playback_def rx_open_def)
    next
      case True
      let ?r = "(if audio_pending_frame rx = [] then rx\<lparr>audio_pending_pts := pts b\<rparr> else rx)
        \<lparr>audio_pending_frame := audio_pending_frame rx @ s24_convert mem (length mem div 4)\<rparr>"
      show ?thesis
        by (rule drained [of ?r])
          (use True 2 Some assms in \<open>simp_all add: rx_audio_playback_def rx_open_def period_samples Let_def\<close>)
    qed
  qed
qed

lemma playback_step:
  assumes "rx_open rx" and "8 dvd length (audio_pending_frame rx)"
    and rx': "rx' = rx_audio_playback api rx (fst x) (snd x)"
  shows "rx_open rx'" "8 dvd length (audio_pending_frame rx')"
    and "\<exists>lost. played (trace rx') @ audio_pending_frame rx' =
           played (trace rx) @ drop (8 * lost) (audio_pending_frame rx @ period_bytes x) \<and>
         8 * lost \<le> length (audio_pending_frame rx @ period_bytes x) \<and>
         audio_queue_dropped rx' = audio_queue_dropped rx + of_nat lost"
proof -
  let ?p = "audio_pending_frame rx @ period_bytes x"
  have p: "8 dvd length ?p" using assms(2) period_bytes_dvd [of x] by simp
  then have "8 dvd length ?p - 61440"
    by (cases "length ?p \<le> 61440") (simp_all add: dvd_diff_nat)
  then obtain k where k: "length ?p - 61440 = 8 * k" by (elim dvdE)
  from assms(1) show "rx_open rx'"
  proof (cases rule: playback_cases [of rx api x])
    case unsupported
    then show ?thesis using assms(1) by (simp add: rx' rx_open_def)
  qed (use assms(1) in \<open>simp_all add: rx' rx_drain_stream(3)\<close>)
  from assms(1) show "8 dvd length (audio_pending_frame rx')"
    by (cases rule: playback_cases [of rx api x])
      (use assms(2) p in \<open>simp_all add: rx' rx_drain_stream(5)\<close>)
  from assms(1) show "\<exists>lost. played (trace rx') @ audio_pending_frame rx' =
           played (trace rx) @ drop (8 * lost) ?p \<and> 8 * lost \<le> length ?p \<and>
         audio_queue_dropped rx' = audio_queue_dropped rx + of_nat lost"
  proof (cases rule: playback_cases [of rx api x])
    case (drained r)
    then show ?thesis using k
      by (intro exI [of _ k]) (simp add: rx' rx_drain_stream(1,2))
  qed (auto simp: rx' intro!: exI [of _ 0])
qed

lemma subseq_drop_middle: "subseq (xs @ drop n ys @ zs) (xs @ ys @ zs)"
proof -
  have "subseq (drop n ys) ys"
    using list_emb_append2 [OF subseq_order.refl, of "drop n ys" "take n ys"] by simp
  then show ?thesis by (intro list_emb_append_mono) simp_all
qed

text \<open>Successive callbacks.\<close>

definition rx_play_all :: "alsa_call api \<Rightarrow> (zst_audio_buf option \<times> zst_audio_frame option) list \<Rightarrow>
    rx_audio \<Rightarrow> rx_audio" where
  "rx_play_all api xs rx = fold (\<lambda>x rx. rx_audio_playback api rx (fst x) (snd x)) xs rx"

text \<open>
  C2: the stream over any number of callbacks: what has been played followed by what is still
  queued is, in order and without duplication, what was there before followed by the converted
  supported periods, with only whole frames missing; and the number of missing frames is exactly
  what \<open>audio_queue_dropped\<close> was increased by.
\<close>

theorem playback_stream:
  assumes "audio_pcm rx" and "audio_pcm_started rx" and "8 dvd length (audio_pending_frame rx)"
  shows "\<exists>lost. subseq (played (trace (rx_play_all api xs rx)) @ audio_pending_frame (rx_play_all api xs rx))
        (played (trace rx) @ audio_pending_frame rx @ concat (map period_bytes xs)) \<and>
      length (played (trace (rx_play_all api xs rx)) @ audio_pending_frame (rx_play_all api xs rx)) + 8 * lost =
        length (played (trace rx) @ audio_pending_frame rx @ concat (map period_bytes xs)) \<and>
      audio_queue_dropped (rx_play_all api xs rx) = audio_queue_dropped rx + of_nat lost"
proof -
  have "rx_open rx" using assms by (simp add: rx_open_def)
  then show ?thesis using assms(3)
  proof (induction xs arbitrary: rx)
    case Nil
    then show ?case by (auto simp: rx_play_all_def intro!: exI [of _ 0])
  next
    case (Cons x xs)
    define rx1 where "rx1 = rx_audio_playback api rx (fst x) (snd x)"
    note step = playback_step [OF Cons.prems rx1_def]
    from step(3) obtain l1 where l1:
      "played (trace rx1) @ audio_pending_frame rx1 =
         played (trace rx) @ drop (8 * l1) (audio_pending_frame rx @ period_bytes x)"
      "8 * l1 \<le> length (audio_pending_frame rx @ period_bytes x)"
      "audio_queue_dropped rx1 = audio_queue_dropped rx + of_nat l1" by blast
    from Cons.IH [OF step(1,2)] obtain l2 where l2:
      "subseq (played (trace (rx_play_all api xs rx1)) @ audio_pending_frame (rx_play_all api xs rx1))
        (played (trace rx1) @ audio_pending_frame rx1 @ concat (map period_bytes xs))"
      "length (played (trace (rx_play_all api xs rx1)) @ audio_pending_frame (rx_play_all api xs rx1)) + 8 * l2 =
        length (played (trace rx1) @ audio_pending_frame rx1 @ concat (map period_bytes xs))"
      "audio_queue_dropped (rx_play_all api xs rx1) = audio_queue_dropped rx1 + of_nat l2" by blast
    have eq: "rx_play_all api (x # xs) rx = rx_play_all api xs rx1"
      by (simp add: rx_play_all_def rx1_def)
    let ?Z = "concat (map period_bytes xs)"
    have "played (trace rx1) @ audio_pending_frame rx1 @ ?Z =
        played (trace rx) @ drop (8 * l1) (audio_pending_frame rx @ period_bytes x) @ ?Z"
      using arg_cong [OF l1(1), of "\<lambda>z. z @ ?Z"] by (simp only: append_assoc)
    then have sub: "subseq (played (trace rx1) @ audio_pending_frame rx1 @ ?Z)
        (played (trace rx) @ (audio_pending_frame rx @ period_bytes x) @ ?Z)"
      using subseq_drop_middle by (simp only:)
    show ?case unfolding eq
      by (rule exI [of _ "l1 + l2"])
        (use subseq_order.trans [OF l2(1) sub] l2(2,3) arg_cong [OF l1(1), of length] l1(2,3) in simp)
  qed
qed

definition rx_audio_init :: rx_audio where
  "rx_audio_init = \<lparr>trace = [], audio_pcm = False, audio_pcm_started = False, audio_pending_frame = [],
     audio_short_tail = False, audio_pending_pts = 0, audio_unsupported_periods = 0,
     audio_accepted_frames = 0, audio_again = 0, audio_short_writes = 0, audio_xruns = 0,
     audio_recovery_errors = 0, audio_queue_dropped = 0, audio_playback_errors = 0\<rparr>"

theorem playback_stream_witness:
  "\<exists>lost. subseq (played (trace (rx_play_all (\<lambda>tr c. (1, [])) [(Some \<lparr>data = Some (replicate 8 1), pts = 0\<rparr>, None)]
            (rx_audio_init\<lparr>audio_pcm := True, audio_pcm_started := True\<rparr>))) @
          audio_pending_frame (rx_play_all (\<lambda>tr c. (1, [])) [(Some \<lparr>data = Some (replicate 8 1), pts = 0\<rparr>, None)]
            (rx_audio_init\<lparr>audio_pcm := True, audio_pcm_started := True\<rparr>)))
        (period_bytes (Some \<lparr>data = Some (replicate 8 1), pts = 0\<rparr>, None)) \<and>
      length (played (trace (rx_play_all (\<lambda>tr c. (1, [])) [(Some \<lparr>data = Some (replicate 8 1), pts = 0\<rparr>, None)]
            (rx_audio_init\<lparr>audio_pcm := True, audio_pcm_started := True\<rparr>))) @
          audio_pending_frame (rx_play_all (\<lambda>tr c. (1, [])) [(Some \<lparr>data = Some (replicate 8 1), pts = 0\<rparr>, None)]
            (rx_audio_init\<lparr>audio_pcm := True, audio_pcm_started := True\<rparr>))) + 8 * lost = 8"
  using playback_stream [of "rx_audio_init\<lparr>audio_pcm := True, audio_pcm_started := True\<rparr>" "\<lambda>tr c. (1, [])"
      "[(Some \<lparr>data = Some (replicate 8 1), pts = 0\<rparr>, None)]"]
  by (auto simp: rx_audio_init_def period_supported_def)

section \<open>The ALSA handles\<close>

datatype alsa_handle = H_pcm | H_ctl

fun alsa_acq :: "alsa_call \<Rightarrow> reply \<Rightarrow> alsa_handle option" where
  "alsa_acq (PcmOpen name) r = (if fst r \<ge> 0 then Some H_pcm else None)"
| "alsa_acq (CtlOpen name) r = (if fst r \<ge> 0 then Some H_ctl else None)"
| "alsa_acq _ r = None"

fun alsa_rel :: "alsa_call \<Rightarrow> alsa_handle option" where
  "alsa_rel PcmClose = Some H_pcm"
| "alsa_rel CtlClose = Some H_ctl"
| "alsa_rel _ = None"

interpretation alsa: cleanup alsa_acq alsa_rel
proof unfold_locales
  show "alsa_rel c \<noteq> None \<Longrightarrow> alsa_acq c r = None" for c r by (cases c) auto
qed

text \<open>
  The invariant of the sink: the handle in \<open>audio_pcm\<close> is the one live ALSA handle; it is
  there exactly while the sink is started.
\<close>

definition sink_inv :: "rx_audio \<Rightarrow> bool" where
  "sink_inv rx \<longleftrightarrow> live alsa_acq alsa_rel (trace rx) = Some (if audio_pcm rx then [H_pcm] else []) \<and>
     audio_pcm rx = audio_pcm_started rx"

lemma live_alsa [simp]:
  "live alsa_acq alsa_rel tr = Some h \<Longrightarrow> alsa_rel c = None \<Longrightarrow> alsa_acq c r = None \<Longrightarrow>
     live alsa_acq alsa_rel ((c, r) # tr) = Some h"
  by simp

lemma drain_calls_live:
  "list_all drain_call new \<Longrightarrow> live alsa_acq alsa_rel (new @ tr) = live alsa_acq alsa_rel tr"
  by (induction new rule: list.induct) (auto elim!: drain_call.elims split: option.splits)

text \<open>A mixer access opens and closes its own handle and changes nothing else.\<close>

definition mixer_only :: "'a rx \<Rightarrow> bool" where
  "mixer_only m \<longleftrightarrow> (\<forall>s h. live alsa_acq alsa_rel (trace s) = Some h \<longrightarrow>
     wp m (\<lambda>_ t. live alsa_acq alsa_rel (trace t) = Some h \<and> io.more t = io.more s) s)"

lemma mixer_only_ret: "mixer_only (ret x)"
  by (simp add: mixer_only_def wp_rules)

lemma passthrough_mixer: "mixer_only (set_sdi_fpga_passthrough api e enable)"
  unfolding mixer_only_def set_sdi_fpga_passthrough_def
  by (auto simp: wp_rules wp_call)

lemma read_route_mixer: "mixer_only (read_hdmi_audio_route api e)"
  unfolding mixer_only_def read_hdmi_audio_route_def
  by (auto simp: wp_rules wp_call)

lemma route_mixer: "mixer_only (select_hdmi_audio_route api e route)"
  unfolding mixer_only_def
proof (intro allI impI)
  fix s :: rx_audio and h
  assume h: "live alsa_acq alsa_rel (trace s) = Some h"
  have p: "wp (if output_is_sdi e then set_sdi_fpga_passthrough api e False else ret 0)
      (\<lambda>_ t. live alsa_acq alsa_rel (trace t) = Some h \<and> io.more t = io.more s) s"
    using passthrough_mixer [of api e False] mixer_only_ret [of "0 :: int"] h
    by (auto simp: mixer_only_def)
  show "wp (select_hdmi_audio_route api e route)
      (\<lambda>_ t. live alsa_acq alsa_rel (trace t) = Some h \<and> io.more t = io.more s) s"
    unfolding select_hdmi_audio_route_def wp_bind
    by (rule wp_conseq [OF p]) (auto simp: wp_rules wp_call)
qed

text \<open>The operations on the sink, in any order, as the receiver's callbacks make them.\<close>

datatype sink_op =
    Start_sink rx_env
  | Stop_sink
  | Play "zst_audio_buf option" "zst_audio_frame option"
  | Passthrough rx_env bool
  | Read_route rx_env

definition on_sdi :: "bool \<Rightarrow> rx_env \<Rightarrow> rx_env" where
  "on_sdi sdi e = e\<lparr>output_is_sdi := sdi\<rparr>"

primrec sink_step :: "alsa_call api \<Rightarrow> bool \<Rightarrow> sink_op \<Rightarrow> rx_audio \<Rightarrow> rx_audio" where
  "sink_step api sdi (Start_sink e) rx = snd (run_state (start_hdmi_audio_sink api (on_sdi sdi e)) rx)"
| "sink_step api sdi Stop_sink rx = snd (run_state (stop_hdmi_audio_sink api) rx)"
| "sink_step api sdi (Play buf audio) rx = rx_audio_playback api rx buf audio"
| "sink_step api sdi (Passthrough e b) rx = snd (run_state (set_sdi_fpga_passthrough api (on_sdi sdi e) b) rx)"
| "sink_step api sdi (Read_route e) rx = snd (run_state (read_hdmi_audio_route api (on_sdi sdi e)) rx)"

definition sink_run :: "alsa_call api \<Rightarrow> bool \<Rightarrow> sink_op list \<Rightarrow> rx_audio \<Rightarrow> rx_audio" where
  "sink_run api sdi ops = fold (sink_step api sdi) ops"

lemma more_fields:
  "io.more t = io.more s \<Longrightarrow> audio_pcm t = audio_pcm s \<and> audio_pcm_started t = audio_pcm_started (s :: rx_audio)"
  by (cases s, cases t) simp

lemma sink_inv_mixer:
  "mixer_only m \<Longrightarrow> sink_inv s \<Longrightarrow> wp m (\<lambda>_ t. sink_inv t \<and> io.more t = io.more s) s"
  by (rule wp_conseq [where P = "\<lambda>_ t. live alsa_acq alsa_rel (trace t) = Some (if audio_pcm s then [H_pcm] else []) \<and>
      io.more t = io.more s"])
    (auto simp: mixer_only_def sink_inv_def dest!: more_fields)

lemma start_sink_inv:
  assumes "sink_inv s"
  shows "wp (start_hdmi_audio_sink api e) (\<lambda>_ t. sink_inv t) s"
proof -
  note sel = sink_inv_mixer [OF route_mixer assms, of api e 0]
  show ?thesis
  proof (cases "audio_pcm_started s \<or> (output_is_sdi e \<and> \<not> drm_modeset_active e)")
    case True
    then show ?thesis using assms by (auto simp: start_hdmi_audio_sink_def wp_rules)
  next
    case False
    then have off: "\<not> audio_pcm s" "\<not> audio_pcm_started s" using assms by (auto simp: sink_inv_def)
    show ?thesis
      unfolding start_hdmi_audio_sink_def wp_bind wp_get wp_if
      using False
      by (auto intro!: wp_conseq [OF sel] simp: wp_rules wp_call sink_inv_def off dest!: more_fields)
  qed
qed

lemma stop_sink_inv: "sink_inv s \<Longrightarrow> wp (stop_hdmi_audio_sink api) (\<lambda>_ t. sink_inv t) s"
  by (auto simp: stop_hdmi_audio_sink_def wp_rules wp_call sink_inv_def)

lemma rx_drain_inv: "sink_inv rx \<Longrightarrow> sink_inv (rx_drain api rx)"
  using drain_trace [of api "\<lparr>trace = trace rx, pending = audio_pending_frame rx,
      short_tail = audio_short_tail rx, stats = zero_stats\<rparr>"]
  by (auto simp: rx_drain_def Let_def sink_inv_def drain_calls_live)

lemma sink_inv_frame [simp]:
  "sink_inv (rx\<lparr>audio_pending_pts := p\<rparr>) = sink_inv rx"
  "sink_inv (rx\<lparr>audio_pending_frame := f\<rparr>) = sink_inv rx"
  "sink_inv (rx\<lparr>audio_unsupported_periods := u\<rparr>) = sink_inv rx"
  by (simp_all add: sink_inv_def)

lemma playback_inv: "sink_inv rx \<Longrightarrow> sink_inv (rx_audio_playback api rx buf audio)"
  unfolding rx_audio_playback_def Let_def
  by (auto intro!: rx_drain_inv split: option.splits)

lemma sink_step_inv: "sink_inv rx \<Longrightarrow> sink_inv (sink_step api sdi op rx)"
proof (cases op)
  case (Start_sink e)
  moreover assume "sink_inv rx"
  ultimately show ?thesis using start_sink_inv [of rx api "on_sdi sdi e"] by (simp add: wp_run)
next
  case Stop_sink
  moreover assume "sink_inv rx"
  ultimately show ?thesis using stop_sink_inv [of rx api] by (simp add: wp_run)
next
  case (Passthrough e b)
  moreover assume "sink_inv rx"
  ultimately show ?thesis
    using sink_inv_mixer [OF passthrough_mixer, of rx api "on_sdi sdi e" b] by (simp add: wp_run)
next
  case (Read_route e)
  moreover assume "sink_inv rx"
  ultimately show ?thesis
    using sink_inv_mixer [OF read_route_mixer, of rx api "on_sdi sdi e"] by (simp add: wp_run)
qed (simp add: playback_inv)

text \<open>
  C25: ALSA handles: after any sequence of sink starts, stops, playback callbacks and mixer
  accesses, on any behaviour of ALSA, every mixer handle has been closed, no handle was closed
  twice or unopened, and the PCM handle is open exactly when the sink is started, once.
\<close>

theorem sink_lifecycle: "sink_inv (sink_run api sdi ops rx_audio_init)"
proof -
  have "sink_inv rx \<Longrightarrow> sink_inv (sink_run api sdi ops rx)" for rx
    unfolding sink_run_def by (induction ops arbitrary: rx) (simp_all add: sink_step_inv)
  then show ?thesis by (simp add: sink_inv_def rx_audio_init_def)
qed

section \<open>The route switch\<close>

text \<open>
  \<open>passthrough_off tr\<close>: the latest access to the FPGA passthrough control read it back as off.
  \<open>route_safe tr\<close>: every write of the route was made in such a state.
\<close>

fun passthrough_off :: "alsa_call event list \<Rightarrow> bool" where
  "passthrough_off [] = False"
| "passthrough_off ((CtlRead n, r) # tr) =
     (if n = passthrough_ctl then fst r \<ge> 0 \<and> outp r 0 = 0 else passthrough_off tr)"
| "passthrough_off ((CtlWrite n v, r) # tr) = (if n = passthrough_ctl then False else passthrough_off tr)"
| "passthrough_off (e # tr) = passthrough_off tr"

fun route_safe :: "alsa_call event list \<Rightarrow> bool" where
  "route_safe [] = True"
| "route_safe ((CtlWrite n v, r) # tr) = ((n = route_ctl \<longrightarrow> passthrough_off tr) \<and> route_safe tr)"
| "route_safe (e # tr) = route_safe tr"

lemma ctl_names [simp]: "passthrough_ctl \<noteq> route_ctl" "route_ctl \<noteq> passthrough_ctl"
  by (simp_all add: passthrough_ctl_def route_ctl_def)

lemma drain_calls_route: "list_all drain_call new \<Longrightarrow> route_safe (new @ tr) = route_safe tr"
  by (induction new) (auto elim!: drain_call.elims)

lemma passthrough_route_safe:
  "route_safe (trace s) \<Longrightarrow>
     wp (set_sdi_fpga_passthrough api e b) (\<lambda>v t. route_safe (trace t) \<and>
       (v = 0 \<and> \<not> b \<and> output_is_sdi e \<longrightarrow> passthrough_off (trace t))) s"
  by (auto simp: set_sdi_fpga_passthrough_def wp_rules wp_call EIO_def)

lemma select_route_safe:
  assumes "output_is_sdi e" and "route_safe (trace s)"
  shows "wp (select_hdmi_audio_route api e route) (\<lambda>_ t. route_safe (trace t)) s"
  unfolding select_hdmi_audio_route_def wp_bind if_P [OF assms(1)]
  by (rule wp_conseq [OF passthrough_route_safe [OF assms(2)]])
    (auto simp: assms wp_rules wp_call)

lemma start_route_safe:
  assumes "output_is_sdi e" and "route_safe (trace s)"
  shows "wp (start_hdmi_audio_sink api e) (\<lambda>_ t. route_safe (trace t)) s"
  unfolding start_hdmi_audio_sink_def wp_bind wp_get wp_if
  by (auto intro!: wp_conseq [OF select_route_safe [OF assms]] simp: wp_rules wp_call assms)

lemma rx_drain_route: "route_safe (trace (rx_drain api rx)) = route_safe (trace rx)"
  using drain_trace [of api "\<lparr>trace = trace rx, pending = audio_pending_frame rx,
      short_tail = audio_short_tail rx, stats = zero_stats\<rparr>"]
  by (auto simp: rx_drain_def Let_def drain_calls_route)

lemma sink_step_route: "route_safe (trace rx) \<Longrightarrow> route_safe (trace (sink_step api True op rx))"
proof (cases op)
  case (Start_sink e)
  moreover assume "route_safe (trace rx)"
  ultimately show ?thesis
    using start_route_safe [of "on_sdi True e" rx api] by (simp add: wp_run on_sdi_def)
next
  case (Passthrough e b)
  moreover assume "route_safe (trace rx)"
  ultimately show ?thesis
    using passthrough_route_safe [of rx api "on_sdi True e" b] by (simp add: wp_run)
next
  case (Play buf audio)
  moreover assume "route_safe (trace rx)"
  ultimately show ?thesis
    by (auto simp: rx_audio_playback_def Let_def rx_drain_route split: option.splits)
qed (auto simp: stop_hdmi_audio_sink_def read_hdmi_audio_route_def)

text \<open>
  C26: on an SDI output the audio source is never switched while the FPGA embedder may be
  enabled: over any sequence of operations, every write of the route control is made in a state
  where the latest access to the passthrough control succeeded and read it back as off.
\<close>

theorem route_switched_only_when_off: "route_safe (trace (sink_run api True ops rx_audio_init))"
proof -
  have "route_safe (trace rx) \<Longrightarrow> route_safe (trace (sink_run api True ops rx))" for rx
    unfolding sink_run_def by (induction ops arbitrary: rx) (simp_all add: sink_step_route)
  then show ?thesis by (simp add: rx_audio_init_def)
qed

end
