(* ===== verification/Rx_Output.thy ===== *)
theory Rx_Output
  imports Prelude "HOL-Library.Sublist"
begin

text \<open>
  The choice of the video output: src/src/tests/sc6f0-dante-rx-output.h, and the pure parts of
  the DRM code of sc6f0-dante-rx.cpp that select the ALSA card, the mode and the CRTC, check
  an EDID and filter hot-plug events.  Sizes and clocks are unsigned 32-bit in the code and are
  only compared, so they are \<open>nat\<close>.
\<close>

section \<open>Backend and SDI modes\<close>

datatype Backend = HDMI | SDI

definition from_product :: "string \<Rightarrow> Backend" where
  "from_product product = (if prefix ''SC6F0 SDI Dante RX'' product then SDI else HDMI)"

definition sdi_size :: "nat \<Rightarrow> nat \<Rightarrow> bool" where
  "sdi_size width height = ((width = 1920 \<and> height = 1080) \<or> (width = 3840 \<and> height = 2160))"

text \<open>
  The frame rate is the fraction \<open>num / den\<close> and \<open>fabs(fps - 60.0) < 0.005\<close> is compared after
  multiplication by \<open>200 * den\<close>.  The code computes in \<open>double\<close>; with the two clocks the last
  test admits, no quotient of 16-bit totals is within rounding distance of the bounds.
  \<open>isfinite\<close> is \<open>std::isfinite(fps)\<close>.
\<close>

definition sdi_mode :: "nat \<Rightarrow> nat \<Rightarrow> bool \<Rightarrow> int \<Rightarrow> int \<Rightarrow> nat \<Rightarrow> bool \<Rightarrow> bool" where
  "sdi_mode width height isfinite num den clock_khz interlaced =
     (sdi_size width height \<and> \<not> interlaced \<and> isfinite \<and>
      200 * \<bar>num - 60 * den\<bar> < den \<and>
      clock_khz = (if width = 1920 then 148500 else 594000))"

record drmModeModeInfo =
  clock :: nat
  hdisplay :: nat
  htotal :: nat
  vdisplay :: nat
  vtotal :: nat
  vrefresh :: int
  flags :: u32
  mode_rest :: "int list"   \<comment> \<open>the fields the code only copies\<close>

definition DRM_MODE_FLAG_INTERLACE :: u32 where "DRM_MODE_FLAG_INTERLACE = 16"
definition DRM_MODE_FLAG_DBLSCAN :: u32 where "DRM_MODE_FLAG_DBLSCAN = 32"

definition is_sdi_mode :: "drmModeModeInfo \<Rightarrow> bool" where
  "is_sdi_mode mode =
     (let (num, den) = (if htotal mode \<noteq> 0 \<and> vtotal mode \<noteq> 0
                        then (int (clock mode) * 1000, int (htotal mode) * int (vtotal mode)) else (0, 1))
      in sdi_mode (hdisplay mode) (vdisplay mode) True num den (clock mode)
           (flags mode AND (DRM_MODE_FLAG_INTERLACE OR DRM_MODE_FLAG_DBLSCAN) \<noteq> 0))"

text \<open>
  The connector properties of an SDI mode; the two media bus formats are constants of the
  kernel headers.
\<close>

definition sdi_properties :: "int \<Rightarrow> int \<Rightarrow> nat \<Rightarrow> nat \<Rightarrow> (string \<times> int) list" where
  "sdi_properties rgb888 uyvy10 width height =
     [(''sdi_mode'', if width = 1920 then 2 else 5),
      (''sdi_data_stream'', if width = 1920 then 2 else 8), (''is_frac'', 0),
      (''sdi_420_in'', 0), (''sdi_420_out'', 0), (''sdi_444_out'', 0),
      (''width_out'', int width), (''height_out'', int height),
      (''in_fmt'', rgb888), (''out_fmt'', uyvy10), (''c_encoding'', 0)]"

section \<open>The ALSA card\<close>

definition sdi_card_id :: "string \<Rightarrow> bool" where
  "sdi_card_id cid =
     (let normalized = filter (\<lambda>c. c \<noteq> CHR ''-'' \<and> c \<noteq> CHR ''_'') cid;
          prefx = ''xlnxsdi''
      in if take (length prefx) normalized \<noteq> prefx then False
         else list_all isdigit (drop (length prefx) normalized))"

text \<open>
  \<open>output_audio_card\<close> walks the cards; a card is what \<open>snd_ctl_open\<close>, \<open>snd_ctl_card_info\<close> and
  \<open>snd_ctl_card_info_get_id\<close> say of it.
\<close>

record alsa_card =
  ctl_opens :: bool
  card_info :: bool
  card_id :: "string option"

fun select_card :: "alsa_card list \<Rightarrow> string \<Rightarrow> string" where
  "select_card [] selected = selected"
| "select_card (c # cs) selected =
     (if \<not> ctl_opens c then select_card cs selected
      else if card_info c then
        (case card_id c of
           None \<Rightarrow> select_card cs selected
         | Some cid \<Rightarrow>
             if sdi_card_id cid then
               if selected \<noteq> [] then [] else select_card cs (''hw:'' @ cid)
             else select_card cs selected)
      else select_card cs selected)"

definition output_audio_card :: "Backend \<Rightarrow> alsa_card list \<Rightarrow> string" where
  "output_audio_card backend cards =
     (if backend \<noteq> SDI then ''hw:xlnxhdmi1'' else select_card cards [])"

section \<open>EDID\<close>

text \<open>The capability descriptor, built by the same sequence of stores.\<close>

definition put :: "u8 list \<Rightarrow> (nat \<times> u8) list \<Rightarrow> u8 list" where
  "put e ws = fold (\<lambda>(i, b) e. e[i := b]) ws e"

definition edid_header :: "u8 list" where
  "edid_header = [0, 255, 255, 255, 255, 255, 255, 0]"

definition hd_timing :: "u8 list" where
  "hd_timing = [0x02,0x3a,0x80,0x18,0x71,0x38,0x2d,0x40,0x58,0x2c,0x45,0,0,0,0,0,0,0x1e]"

definition uhd_timing :: "u8 list" where
  "uhd_timing = [0x08,0xe8,0,0x30,0xf2,0x70,0x5a,0x80,0xb0,0x58,0x8a,0,0,0,0,0,0,0x1e]"

definition rx_name :: "u8 list" where
  "rx_name = [83, 67, 54, 70, 48, 32, 83, 68, 73, 32, 82, 88, 10]"  \<comment> \<open>SC6F0 SDI RX and a newline\<close>

text \<open>\<open>sum\<close> is an \<open>unsigned int\<close>; only its low byte is used.\<close>

definition edid_checksum :: "u8 list \<Rightarrow> nat \<Rightarrow> u8 list" where
  "edid_checksum e base =
     e[base + 127 := ucast (0 - (\<Sum>i\<leftarrow>[0 ..< 127]. ucast (e ! (base + i)) :: u32))]"

definition sdi_capabilities :: "nat \<Rightarrow> nat \<Rightarrow> nat \<Rightarrow> bool \<times> u8 list" where
  "sdi_capabilities width height fps =
     (let e0 = replicate 256 0 in
      if \<not> sdi_size width height \<or> fps \<noteq> 60 then (False, e0)
      else
        let e1 = put e0 (zip [0 ..< 8] edid_header);
            e2 = put e1 [(8, 0x66), (9, 0xa1), (10, 1), (17, 36), (18, 1), (19, 4), (20, 0xa0),
                         (23, 0xff), (24, 0x02)];
            e3 = put e2 (map (\<lambda>i. (i, 1)) [38 ..< 54]);
            e4 = put e3 (zip [54 ..< 72] (if width = 1920 then hd_timing else uhd_timing));
            e5 = put e4 [(75, 0x10), (93, 0xfc)];
            e6 = put e5 (map (\<lambda>i. (95 + i, if i < length rx_name then rx_name ! i else 32)) [0 ..< 13]);
            e7 = put e6 [(111, 0x10), (126, 1), (128, 0x02), (129, 0x03), (130, 8),
                         (132, 0x23), (133, 0x09), (134, 0x04), (135, 0x04)]
        in (True, fold (\<lambda>base e. edid_checksum e base) [0, 128] e7))"

text \<open>\<open>None\<close> is a NULL pointer; \<open>len\<close> bytes are readable.\<close>

definition is_valid_edid :: "u8 list option \<Rightarrow> nat \<Rightarrow> bool" where
  "is_valid_edid edid len =
     (case edid of
        None \<Rightarrow> False
      | Some e \<Rightarrow>
          if len < 128 then False
          else if take 8 e \<noteq> edid_header then False
          else
            let blocks = (if len div 128 > 2 then 2 else len div 128) in
            if blocks = 0 then False
            else list_all (\<lambda>b. (\<Sum>i\<leftarrow>[0 ..< 128]. ucast (e ! (b * 128 + i)) :: u32) AND 0xff = 0) [0 ..< blocks])"

definition g_fallback_edid :: "u8 list" where
  "g_fallback_edid = [
    0x00, 0xff, 0xff, 0xff, 0xff, 0xff, 0xff, 0x00, 0x61, 0x98, 0x34, 0x12, 0x78, 0x56, 0x34, 0x12,
    0x03, 0x1c, 0x01, 0x03, 0x80, 0x59, 0x32, 0x78, 0x0a, 0xee, 0x91, 0xa3, 0x54, 0x4c, 0x99, 0x26,
    0x0f, 0x50, 0x54, 0x21, 0x08, 0x00, 0x71, 0x4f, 0x81, 0xc0, 0x81, 0x00, 0x81, 0x80, 0x95, 0x00,
    0xa9, 0xc0, 0xb3, 0x00, 0x01, 0x01, 0x02, 0x3a, 0x80, 0x18, 0x71, 0x38, 0x2d, 0x40, 0x58, 0x2c,
    0x45, 0x00, 0x20, 0xc2, 0x31, 0x00, 0x00, 0x1e, 0x00, 0x00, 0x00, 0xfc, 0x00, 0x58, 0x49, 0x4c,
    0x49, 0x4e, 0x58, 0x20, 0x48, 0x44, 0x4d, 0x49, 0x0a, 0x20, 0x00, 0x00, 0x00, 0xfd, 0x00, 0x18,
    0x4b, 0x0f, 0x8c, 0x3c, 0x00, 0x0a, 0x20, 0x20, 0x20, 0x20, 0x20, 0x20, 0x00, 0x00, 0x00, 0x10,
    0x00, 0x00, 0x00, 0x00, 0x00, 0x00, 0x00, 0x00, 0x00, 0x00, 0x00, 0x00, 0x00, 0x00, 0x01, 0x36,
    0x02, 0x03, 0x3d, 0x70, 0x5c, 0x61, 0x10, 0x1f, 0x21, 0x20, 0x5d, 0x5e, 0x5f, 0x60, 0x65, 0x66,
    0x62, 0x63, 0x64, 0x48, 0x67, 0x68, 0x69, 0x6b, 0x6a, 0x22, 0x3e, 0x04, 0x3e, 0x3d, 0x41, 0x43,
    0x45, 0x23, 0x09, 0x07, 0x07, 0x6d, 0x03, 0x0c, 0x00, 0x10, 0x00, 0x78, 0x3c, 0x20, 0x00, 0x60,
    0x01, 0x02, 0x03, 0x67, 0xd8, 0x5d, 0xc4, 0x01, 0x78, 0x80, 0x07, 0xe1, 0x0f, 0x02, 0x3a, 0x80,
    0x18, 0x71, 0x38, 0x2d, 0x40, 0x58, 0x2c, 0x45, 0x00, 0x20, 0xc2, 0x31, 0x00, 0x00, 0x1e, 0x08,
    0xe8, 0x00, 0x30, 0xf2, 0x70, 0x5a, 0x80, 0xb0, 0x58, 0x8a, 0x00, 0x20, 0xc2, 0x31, 0x00, 0x00,
    0x1e, 0x04, 0x74, 0x00, 0x30, 0xf2, 0x70, 0x5a, 0x80, 0xb0, 0x58, 0x8a, 0x00, 0x20, 0x52, 0x31,
    0x00, 0x00, 0x1e, 0x00, 0x00, 0x00, 0x00, 0x00, 0x00, 0x00, 0x00, 0x00, 0x00, 0x00, 0x00, 0x2c]"

text \<open>
  \<open>read_connector_edid\<close>, from the properties of the connector (identifier and value, \<open>None\<close>
  when they cannot be read), the identifier of its EDID property (0: none) and the blobs.
\<close>

definition EDID_LEN :: nat where "EDID_LEN = 256"

fun edid_of_props :: "(nat \<Rightarrow> u8 list option) \<Rightarrow> nat \<Rightarrow> nat \<Rightarrow> (nat \<times> nat) list \<Rightarrow> u8 list option" where
  "edid_of_props blobs max_len prop_id [] = None"
| "edid_of_props blobs max_len prop_id ((i, blob_id) # props) =
     (if i \<noteq> prop_id then edid_of_props blobs max_len prop_id props
      else if blob_id = 0 then None
      else case blobs blob_id of
        None \<Rightarrow> None
      | Some b \<Rightarrow>
          if length b \<ge> 128 then
            let copy_len = (if length b < max_len then length b else max_len);
                out_edid = take copy_len b @ replicate (max_len - copy_len) 0
            in if is_valid_edid (Some out_edid) copy_len then Some out_edid else None
          else None)"

definition read_connector_edid ::
    "(nat \<Rightarrow> u8 list option) \<Rightarrow> int \<Rightarrow> nat \<Rightarrow> nat \<Rightarrow> (nat \<times> nat) list option \<Rightarrow> nat \<Rightarrow> u8 list option" where
  "read_connector_edid blobs fd connector_id max_len props prop_id =
     (if fd < 0 \<or> connector_id = 0 \<or> max_len < EDID_LEN then None
      else case props of
        None \<Rightarrow> None
      | Some ps \<Rightarrow> if prop_id = 0 then None else edid_of_props blobs max_len prop_id ps)"

section \<open>Hot-plug events\<close>

text \<open>
  A kernel uevent is a sequence of NUL-terminated fields.  The loop scans it with an offset;
  the first argument is the rest of the buffer, and the string at the offset ends at the next
  NUL, which the caller's terminator supplies for the last one.
\<close>

record uevent_flags =
  is_drm :: bool
  is_hotplug :: bool
  connector_matched :: bool
  has_connector_name :: bool

definition uevent_field :: "string \<Rightarrow> uevent_flags \<Rightarrow> uevent_flags" where
  "uevent_field s f =
     (if s = ''SUBSYSTEM=drm'' then f\<lparr>is_drm := True\<rparr>
      else if s = ''HOTPLUG=1'' then f\<lparr>is_hotplug := True\<rparr>
      else if prefix ''CONNECTOR='' s then
        let f1 = f\<lparr>has_connector_name := True\<rparr>
        in if drop 10 s = ''HDMI-A-1'' then f1\<lparr>connector_matched := True\<rparr> else f1
      else if prefix ''DEVPATH='' s \<or> prefix ''change@'' s then
        if sublist ''HDMI-A-1'' s then f\<lparr>connector_matched := True\<rparr> else f
      else f)"

function uevent_loop :: "string \<Rightarrow> uevent_flags \<Rightarrow> uevent_flags" where
  "uevent_loop buf f =
     (if buf = [] then f
      else
        let s = takeWhile (\<lambda>c. c \<noteq> CHR 0x00) buf; n = length s in
        if n = 0 then uevent_loop (drop 1 buf) f
        else uevent_loop (drop (n + 1) buf) (uevent_field s f))"
  by pat_completeness auto
termination by (relation "measure (\<lambda>(buf, f). length buf)") auto

declare uevent_loop.simps [simp del]

definition is_target_connector_uevent :: "string \<Rightarrow> bool" where
  "is_target_connector_uevent buf =
     (let f = uevent_loop buf \<lparr>is_drm = False, is_hotplug = False, connector_matched = False,
                has_connector_name = False\<rparr>
      in is_drm f \<and> is_hotplug f \<and> (\<not> has_connector_name f \<or> connector_matched f))"

section \<open>Mode and CRTC\<close>

text \<open>
  The comparisons of the floating-point refresh rate are parameters: \<open>any_rate\<close> is
  \<open>framerate <= 0.0\<close>, \<open>near m\<close> is \<open>fabs(mode_vrefresh(m) - framerate) < 0.5\<close> and \<open>rate\<close> is
  \<open>(int)framerate\<close>.
\<close>

definition mode_interlaced :: "drmModeModeInfo \<Rightarrow> bool" where
  "mode_interlaced candidate = (flags candidate AND DRM_MODE_FLAG_INTERLACE \<noteq> 0)"

definition refresh_matched :: "bool \<Rightarrow> (drmModeModeInfo \<Rightarrow> bool) \<Rightarrow> int \<Rightarrow> drmModeModeInfo \<Rightarrow> bool" where
  "refresh_matched any_rate near rate candidate = (any_rate \<or> near candidate \<or> vrefresh candidate = rate)"

definition size_matched :: "nat \<Rightarrow> nat \<Rightarrow> bool \<Rightarrow> drmModeModeInfo \<Rightarrow> bool" where
  "size_matched width height interlaced candidate =
     (hdisplay candidate = width \<and> vdisplay candidate = height \<and> mode_interlaced candidate = interlaced)"

fun mode_scan :: "(drmModeModeInfo \<Rightarrow> bool) \<Rightarrow> nat \<Rightarrow> drmModeModeInfo list \<Rightarrow> drmModeModeInfo option \<Rightarrow>
    drmModeModeInfo option" where
  "mode_scan matched preferred_clock [] fallback = fallback"
| "mode_scan matched preferred_clock (candidate # modes) fallback =
     (if matched candidate then
        if preferred_clock \<noteq> 0 \<and> clock candidate = preferred_clock then Some candidate
        else mode_scan matched preferred_clock modes
               (case fallback of None \<Rightarrow> Some candidate | Some f \<Rightarrow> Some f)
      else mode_scan matched preferred_clock modes fallback)"

definition find_matching_mode :: "drmModeModeInfo list \<Rightarrow> nat \<Rightarrow> nat \<Rightarrow> bool \<Rightarrow>
    (drmModeModeInfo \<Rightarrow> bool) \<Rightarrow> int \<Rightarrow> bool \<Rightarrow> drmModeModeInfo option" where
  "find_matching_mode modes width height any_rate near rate interlaced =
     (let preferred_clock = (if width = 3840 \<and> height = 2160 \<and> \<not> interlaced then 594000 else 0) in
      case mode_scan (\<lambda>c. size_matched width height interlaced c \<and> refresh_matched any_rate near rate c)
             preferred_clock modes None of
        Some m \<Rightarrow> Some m
      | None \<Rightarrow> find (size_matched width height interlaced) modes)"

record drmModeEncoder =
  enc_crtc_id :: nat
  possible_crtcs :: u32

text \<open>\<open>encs\<close> is \<open>drmModeGetEncoder\<close>; the result is the CRTC and its index.\<close>

fun crtc_index_of :: "nat \<Rightarrow> nat \<Rightarrow> nat list \<Rightarrow> (nat \<times> nat) option" where
  "crtc_index_of c i [] = None"
| "crtc_index_of c i (x # crtcs) = (if x = c then Some (c, i) else crtc_index_of c (Suc i) crtcs)"

fun first_possible :: "u32 \<Rightarrow> nat \<Rightarrow> nat list \<Rightarrow> (nat \<times> nat) option" where
  "first_possible pos j [] = None"
| "first_possible pos j (x # crtcs) =
     (if pos AND push_bit j 1 \<noteq> 0 then Some (x, j) else first_possible pos (Suc j) crtcs)"

fun scan_encoders :: "(nat \<Rightarrow> drmModeEncoder option) \<Rightarrow> nat list \<Rightarrow> nat list \<Rightarrow> (nat \<times> nat) option" where
  "scan_encoders encs crtcs [] = None"
| "scan_encoders encs crtcs (e # es) =
     (case encs e of
        None \<Rightarrow> scan_encoders encs crtcs es
      | Some enc \<Rightarrow>
          (case first_possible (possible_crtcs enc) 0 crtcs of
             Some r \<Rightarrow> Some r
           | None \<Rightarrow> scan_encoders encs crtcs es))"

definition find_connector_crtc :: "(nat \<Rightarrow> drmModeEncoder option) \<Rightarrow> nat list \<Rightarrow> nat \<Rightarrow> nat list \<Rightarrow>
    (nat \<times> nat) option" where
  "find_connector_crtc encs crtcs encoder_id encoders =
     (let current = (if encoder_id \<noteq> 0 then
                       (case encs encoder_id of
                          None \<Rightarrow> None
                        | Some enc \<Rightarrow> if enc_crtc_id enc \<noteq> 0 then crtc_index_of (enc_crtc_id enc) 0 crtcs else None)
                     else None)
      in case current of Some r \<Rightarrow> Some r | None \<Rightarrow> scan_encoders encs crtcs encoders)"

section \<open>Properties\<close>

text \<open>The SDI cards, in order.\<close>

definition sdi_ids :: "alsa_card list \<Rightarrow> string list" where
  "sdi_ids cards = filter sdi_card_id (map (\<lambda>c. the (card_id c))
     (filter (\<lambda>c. ctl_opens c \<and> card_info c \<and> card_id c \<noteq> None) cards))"

lemma sdi_ids_simps:
  "sdi_ids [] = []"
  "sdi_ids (c # cs) = (if ctl_opens c \<and> card_info c \<and> (\<exists>i. card_id c = Some i \<and> sdi_card_id i)
     then the (card_id c) # sdi_ids cs else sdi_ids cs)"
  by (auto simp: sdi_ids_def)

lemma select_card_spec:
  "select_card cards sel =
     (if sel = [] then (case sdi_ids cards of [i] \<Rightarrow> ''hw:'' @ i | _ \<Rightarrow> [])
      else if sdi_ids cards = [] then sel else [])"
proof (induction cards arbitrary: sel)
  case Nil
  then show ?case by (simp add: sdi_ids_simps)
next
  case (Cons c cs)
  show ?case
  proof (cases "ctl_opens c \<and> card_info c \<and> (\<exists>i. card_id c = Some i \<and> sdi_card_id i)")
    case True
    then show ?thesis using Cons by (auto simp: sdi_ids_simps split: list.splits)
  next
    case False
    then have "select_card (c # cs) sel = select_card cs sel" by (auto split: option.splits)
    with False Cons show ?thesis by (auto simp only: sdi_ids_simps if_False)
  qed
qed

text \<open>
  On an SDI output the audio card is selected only when it is unique: the result names the
  one card with an SDI identifier, and is empty when there is none or more than one.
\<close>

theorem output_audio_card_unique:
  "output_audio_card SDI cards = (case sdi_ids cards of [i] \<Rightarrow> ''hw:'' @ i | _ \<Rightarrow> [])"
  by (simp add: output_audio_card_def select_card_spec)

text \<open>Checksums: the sum of a block as a list.\<close>

definition block_sum :: "u8 list \<Rightarrow> u32" where
  "block_sum e = sum_list (map ucast e)"

lemma block_sum_nth:
  "base + n \<le> length e \<Longrightarrow> (\<Sum>i\<leftarrow>[0 ..< n]. ucast (e ! (base + i)) :: u32) = block_sum (take n (drop base e))"
proof (induction n)
  case 0
  then show ?case by (simp add: block_sum_def)
next
  case (Suc n)
  then have "take (Suc n) (drop base e) = take n (drop base e) @ [e ! (base + n)]"
    by (simp add: take_Suc_conv_app_nth)
  with Suc show ?case by (simp add: block_sum_def)
qed

lemma take_bit_neg_cancel: "take_bit n (x + take_bit n (- x)) = (0 :: int)"
  by (metis add.right_inverse take_bit_add take_bit_of_0 take_bit_take_bit min.idem)
lemma checksum_zero: "(x + ucast (ucast (0 - x :: u32) :: u8)) AND 0xff = (0 :: u32)"
proof -
  have m: "(0xff :: u32) = mask 8" by (simp add: mask_eq_decr_exp)
  have u: "ucast (ucast (- x) :: u8) = take_bit 8 (- x :: u32)"
    by (rule bit_word_eqI) (auto simp: bit_simps)
  have "take_bit 8 (x + take_bit 8 (- x)) = (0 :: u32)"
    by transfer (simp add: take_bit_neg_cancel)
  then show ?thesis by (simp add: m u flip: take_bit_eq_mask)
qed
lemma is_valid_edid_blocks:
  "length e = 256 \<Longrightarrow> is_valid_edid (Some e) 256 \<longleftrightarrow>
     take 8 e = edid_header \<and> block_sum (take 128 e) AND 0xff = 0 \<and> block_sum (drop 128 e) AND 0xff = 0"
proof -
  assume len: "length e = 256"
  have "[0 ..< 2] = [0, 1 :: nat]" by (simp add: upt_rec)
  then show ?thesis
    using block_sum_nth [of 0 128 e] block_sum_nth [of 128 128 e] len
    by (simp add: is_valid_edid_def Let_def del: upt_rec_numeral)
qed

lemma block_sum_snoc: "block_sum (xs @ [y]) = block_sum xs + ucast y"
  by (simp add: block_sum_def)

lemma checksummed_valid:
  assumes "length e = 256" and "take 8 e = edid_header"
  shows "is_valid_edid (Some (edid_checksum (edid_checksum e 0) 128)) 256"
proof -
  define x y where "x = (ucast (0 - block_sum (take 127 e)) :: u8)"
    and "y = (ucast (0 - block_sum (take 127 (drop 128 e))) :: u8)"
  let ?f = "e[127 := x, 255 := y]"
  have "edid_checksum (edid_checksum e 0) 128 = ?f"
    using assms(1) block_sum_nth [of 0 127 e] block_sum_nth [of 128 127 "e[127 := x]"]
    by (simp add: edid_checksum_def x_def y_def del: upt_rec_numeral)
  moreover have "take 128 ?f = take 127 e @ [x]"
    by (rule nth_equalityI) (auto simp: assms(1) nth_append nth_list_update less_Suc_eq)
  moreover have "drop 128 ?f = take 127 (drop 128 e) @ [y]"
    by (rule nth_equalityI) (auto simp: assms(1) nth_append nth_list_update less_Suc_eq)
  moreover have "take 8 ?f = edid_header" using assms(2) by simp
  moreover have "length ?f = 256" using assms(1) by simp
  ultimately show ?thesis
    by (simp add: is_valid_edid_blocks block_sum_snoc x_def y_def checksum_zero del: diff_0)
qed

lemma put_length [simp]: "length (put e ws) = length e"
  by (induction ws arbitrary: e) (auto simp: put_def)

lemma put_take: "list_all (\<lambda>(i, b). n \<le> i) ws \<Longrightarrow> take n (put e ws) = take n e"
  by (induction ws arbitrary: e) (auto simp: put_def)

lemma put_take_range: "n \<le> a \<Longrightarrow> take n (put e (map (\<lambda>i. (i, f i)) [a ..< b])) = take n e"
  by (rule put_take) (auto simp: list_all_iff)

lemma put_take_shift: "n \<le> a \<Longrightarrow> take n (put e (map (\<lambda>i. (a + i, f i)) [0 ..< b])) = take n e"
  by (rule put_take) (auto simp: list_all_iff)

lemma put_header: "length e = 256 \<Longrightarrow> take 8 (put e (zip [0 ..< 8] edid_header)) = edid_header"
proof -
  assume len: "length e = 256"
  have "[0 ..< 8] = [0, 1, 2, 3, 4, 5, 6, 7 :: nat]" by (simp add: upt_rec)
  then show ?thesis
    using len by (intro nth_equalityI) (auto simp: put_def edid_header_def less_Suc_eq numeral_eq_Suc)
qed

text \<open>
  C36: for every request, the capability descriptor is a well-formed two-block EDID that the
  receiver's own validation accepts exactly when the function reports success, and it reports
  success exactly for the supported SDI sizes at 60 Hz; the built-in fallback is valid too.
\<close>

theorem capabilities_valid_edid:
  "is_valid_edid (Some (snd (sdi_capabilities width height fps))) 256 = fst (sdi_capabilities width height fps) \<and>
   fst (sdi_capabilities width height fps) = (sdi_size width height \<and> fps = 60) \<and>
   is_valid_edid (Some g_fallback_edid) EDID_LEN"
proof -
  have z: "list_all (\<lambda>(i, b). 8 \<le> i) (zip [54 ..< 72] (bs :: u8 list))" for bs
    by (auto simp: list_all_iff dest!: set_zip_leftD)
  have "is_valid_edid (Some (snd (sdi_capabilities width height fps))) 256" if "sdi_size width height" "fps = 60"
    using that
    by (auto simp: sdi_capabilities_def Let_def put_take put_take_range put_take_shift put_header z
        simp del: upt_rec_numeral intro!: checksummed_valid)
  moreover have "\<not> is_valid_edid (Some (replicate 256 0)) 256"
  proof -
    have "take 8 (replicate 256 (0 :: u8)) ! 1 \<noteq> edid_header ! 1" by (simp add: edid_header_def)
    then have "take 8 (replicate 256 (0 :: u8)) \<noteq> edid_header" by metis
    then show ?thesis by (simp only: is_valid_edid_def option.case if_True if_False if_cancel not_True_eq_False not_False_eq_True)
  qed
  moreover have "is_valid_edid (Some g_fallback_edid) EDID_LEN"
    unfolding EDID_LEN_def
    by (subst is_valid_edid_blocks) (simp_all add: g_fallback_edid_def edid_header_def block_sum_def)
  ultimately show ?thesis by (auto simp: sdi_capabilities_def Let_def)
qed

lemma mode_scan_spec:
  "mode_scan P pc modes fb =
     (case find (\<lambda>c. P c \<and> pc \<noteq> 0 \<and> clock c = pc) modes of
        Some m \<Rightarrow> Some m
      | None \<Rightarrow> (case fb of Some f \<Rightarrow> Some f | None \<Rightarrow> find P modes))"
  by (induction P pc modes fb rule: mode_scan.induct) (auto split: option.splits)

text \<open>
  The mode search returns the first mode of the requested size and scan that matches the
  rate and has the CEA-861 clock of 2160p, if there is one; otherwise the first that matches
  the rate; otherwise the first of that size and scan; and nothing when there is none.
\<close>

theorem find_matching_mode_spec:
  "find_matching_mode modes width height any_rate near rate interlaced =
     (let fits = size_matched width height interlaced;
          good = (\<lambda>c. fits c \<and> refresh_matched any_rate near rate c)
      in case find (\<lambda>c. good c \<and> width = 3840 \<and> height = 2160 \<and> \<not> interlaced \<and> clock c = 594000) modes of
           Some m \<Rightarrow> Some m
         | None \<Rightarrow> (case find good modes of Some m \<Rightarrow> Some m | None \<Rightarrow> find fits modes))"
proof (cases "width = 3840 \<and> height = 2160 \<and> \<not> interlaced")
  case True
  then show ?thesis
    by (simp add: find_matching_mode_def mode_scan_spec Let_def split: option.splits)
next
  case False
  then have "find (\<lambda>c. P c \<and> width = 3840 \<and> height = 2160 \<and> \<not> interlaced \<and> clock c = 594000) modes = None" for P
    by (auto simp: find_None_iff)
  moreover have "find (\<lambda>c. False) modes = None" by (simp add: find_None_iff)
  ultimately show ?thesis using False
    by (auto simp: find_matching_mode_def mode_scan_spec Let_def split: option.splits)
qed

lemma crtc_index_of_sound:
  "crtc_index_of c i crtcs = Some (r, k) \<Longrightarrow> i \<le> k \<and> k < i + length crtcs \<and> crtcs ! (k - i) = r \<and> r = c"
  by (induction c i crtcs rule: crtc_index_of.induct) (auto simp: nth_Cons' split: if_splits)

lemma first_possible_sound:
  "first_possible m j crtcs = Some (r, k) \<Longrightarrow>
     j \<le> k \<and> k < j + length crtcs \<and> crtcs ! (k - j) = r \<and> m AND push_bit k 1 \<noteq> 0"
  by (induction m j crtcs rule: first_possible.induct) (auto simp: nth_Cons' split: if_splits)

lemma scan_encoders_sound:
  "scan_encoders encs crtcs es = Some (r, k) \<Longrightarrow>
     k < length crtcs \<and> crtcs ! k = r \<and>
     (\<exists>e \<in> set es. \<exists>enc. encs e = Some enc \<and> possible_crtcs enc AND push_bit k 1 \<noteq> 0)"
  by (induction encs crtcs es rule: scan_encoders.induct)
    (auto dest: first_possible_sound split: option.splits)

text \<open>
  The CRTC search returns an index of the resource list together with the CRTC at that
  index, and the CRTC is either the one the connector's encoder drives now or one that some
  encoder of the connector can drive.
\<close>

theorem find_connector_crtc_sound:
  assumes "find_connector_crtc encs crtcs encoder_id encoders = Some (crtc, i)"
  shows "i < length crtcs \<and> crtcs ! i = crtc \<and>
    ((\<exists>enc. encs encoder_id = Some enc \<and> enc_crtc_id enc = crtc) \<or>
     (\<exists>e enc. e \<in> set encoders \<and> encs e = Some enc \<and> possible_crtcs enc AND push_bit i 1 \<noteq> 0))"
  using assms
  by (auto simp: find_connector_crtc_def Let_def dest!: crtc_index_of_sound scan_encoders_sound
      split: option.splits if_splits)

theorem find_connector_crtc_sound_witness:
  "find_connector_crtc (\<lambda>_. Some \<lparr>enc_crtc_id = 0, possible_crtcs = 2\<rparr>) [40, 41] 7 [7] = Some (41, 1) \<and>
   [40, 41 :: nat] ! 1 = 41"
proof -
  have *: "find_connector_crtc (\<lambda>_. Some \<lparr>enc_crtc_id = 0, possible_crtcs = 2\<rparr>) [40, 41] 7 [7] = Some (41, 1)"
    by (simp add: find_connector_crtc_def)
  show ?thesis using find_connector_crtc_sound [OF *] * by simp
qed

text \<open>The fields of a uevent, and the decision stated on them.\<close>

function nul_fields :: "string \<Rightarrow> string list" where
  "nul_fields buf =
     (if buf = [] then []
      else let s = takeWhile (\<lambda>c. c \<noteq> CHR 0x00) buf
           in s # nul_fields (drop (length s + 1) buf))"
  by pat_completeness auto
termination by (relation "measure length") auto

declare nul_fields.simps [simp del]

lemma uevent_loop_fields: "uevent_loop buf f = fold uevent_field (filter (\<lambda>s. s \<noteq> []) (nul_fields buf)) f"
proof (induction buf f rule: uevent_loop.induct)
  case (1 buf f)
  then show ?case
    by (subst uevent_loop.simps, subst nul_fields.simps) (auto simp: Let_def)
qed

definition names_connector :: "string \<Rightarrow> bool" where
  "names_connector s \<longleftrightarrow> prefix ''CONNECTOR='' s"

definition matches_connector :: "string \<Rightarrow> bool" where
  "matches_connector s \<longleftrightarrow> s = ''CONNECTOR=HDMI-A-1'' \<or>
     ((prefix ''DEVPATH='' s \<or> prefix ''change@'' s) \<and> sublist ''HDMI-A-1'' s)"

lemma uevent_field_flags:
  "is_drm (uevent_field s f) \<longleftrightarrow> is_drm f \<or> s = ''SUBSYSTEM=drm''" (is ?drm)
  "is_hotplug (uevent_field s f) \<longleftrightarrow> is_hotplug f \<or> s = ''HOTPLUG=1''" (is ?hot)
  "has_connector_name (uevent_field s f) \<longleftrightarrow> has_connector_name f \<or> names_connector s" (is ?name)
  "connector_matched (uevent_field s f) \<longleftrightarrow> connector_matched f \<or> matches_connector s" (is ?conn)
proof -
  note defs = uevent_field_def names_connector_def matches_connector_def
  consider "s = ''SUBSYSTEM=drm''" | "s = ''HOTPLUG=1''" | t where "s = ''CONNECTOR='' @ t"
    | t where "s = ''DEVPATH='' @ t" | t where "s = ''change@'' @ t"
    | "\<not> (s = ''SUBSYSTEM=drm'' \<or> s = ''HOTPLUG=1'' \<or> prefix ''CONNECTOR='' s \<or>
          prefix ''DEVPATH='' s \<or> prefix ''change@'' s)"
    by (metis prefixE)
  then have "?drm \<and> ?hot \<and> ?name \<and> ?conn"
  proof cases
    case 6
    have n: "\<not> prefix ''CONNECTOR='' s" using 6 by (simp only: de_Morgan_disj simp_thms)
    have "s \<noteq> ''CONNECTOR=HDMI-A-1''"
    proof
      assume "s = ''CONNECTOR=HDMI-A-1''"
      with n show False by simp
    qed
    moreover have "uevent_field s f = f" using 6 by (simp only: uevent_field_def de_Morgan_disj if_False simp_thms)
    ultimately show ?thesis
      using 6 by (simp only: names_connector_def matches_connector_def de_Morgan_disj simp_thms)
  qed (simp_all add: defs Let_def)
  then show ?drm ?hot ?name ?conn by blast+
qed

lemma uevent_flags_fold:
  "is_drm (fold uevent_field ss f) \<longleftrightarrow> is_drm f \<or> ''SUBSYSTEM=drm'' \<in> set ss"
  "is_hotplug (fold uevent_field ss f) \<longleftrightarrow> is_hotplug f \<or> ''HOTPLUG=1'' \<in> set ss"
  "has_connector_name (fold uevent_field ss f) \<longleftrightarrow> has_connector_name f \<or> (\<exists>s \<in> set ss. names_connector s)"
  "connector_matched (fold uevent_field ss f) \<longleftrightarrow> connector_matched f \<or> (\<exists>s \<in> set ss. matches_connector s)"
  by (induction ss arbitrary: f) (auto simp: uevent_field_flags)

text \<open>
  The hot-plug filter accepts exactly the uevents that have the fields \<open>SUBSYSTEM=drm\<close> and
  \<open>HOTPLUG=1\<close> and, if they name a connector at all, mention the output's connector, whatever the
  order of the fields.
\<close>

theorem uevent_filter_spec:
  "is_target_connector_uevent buf \<longleftrightarrow>
     ''SUBSYSTEM=drm'' \<in> set (nul_fields buf) \<and> ''HOTPLUG=1'' \<in> set (nul_fields buf) \<and>
     (length (filter names_connector (nul_fields buf)) = 0 \<or>
      0 < length (filter matches_connector (nul_fields buf)))"
proof -
  have "\<not> names_connector []" "\<not> matches_connector []"
    by (simp_all add: names_connector_def matches_connector_def)
  then show ?thesis
    by (auto simp: is_target_connector_uevent_def uevent_loop_fields uevent_flags_fold Let_def
        filter_empty_conv)
qed

end
