(* ===== verification/Drm_Ops.thy ===== *)
theory Drm_Ops
  imports Pcm_Queue Rx_Output
begin

text \<open>
  The DRM operations of src/src/tests/sc6f0-dante-rx.cpp: property lookup, connector
  selection and properties, plane search, dumb frame buffers.  libdrm and the kernel are the
  parameter \<open>api\<close>; \<open>pname\<close> is the kernel's registry of property names
  (\<open>drmModeGetProperty\<close>).  The C++ \<open>shared_ptr\<close>s only free what the library returned and
  are not shown.
\<close>

datatype dau_reply =
    Dau_success
  | Dau_error string
  | Dau_cable_status bool
  | Dau_hdcp bool                  \<comment> \<open>version 2.2 current and supported; otherwise none\<close>
  | Dau_edid "u8 list"

datatype drm_call =
    GetProps int string            \<comment> \<open>object, object type; replies \<open>[id, value, ...]\<close>\<close>
  | CreateDumb nat nat nat         \<comment> \<open>width, height, bpp; replies \<open>[handle, pitch]\<close>\<close>
  | DestroyDumb int
  | AddFB2 nat nat int int int     \<comment> \<open>width, height, format, handle, pitch; replies \<open>[fb]\<close>\<close>
  | RmFB int
  | MapDumb int
  | MmapDumb nat
  | MunmapDumb nat
  | GetBlob int                    \<comment> \<open>replies the bytes\<close>
  | CreateBlob "int list"          \<comment> \<open>replies \<open>[blob]\<close>\<close>
  | DestroyBlob int
  | AtomicAlloc                    \<comment> \<open>returns the request, 0 for NULL\<close>
  | AtomicAdd int int int int      \<comment> \<open>request, object, property, value\<close>
  | AtomicCommit int bool          \<comment> \<open>request, test only\<close>
  | GetPlanes                      \<comment> \<open>replies the plane ids\<close>
  | GetPlane int                   \<comment> \<open>replies \<open>plane id, possible_crtcs, formats ...\<close>\<close>
  | ReadStatus                     \<comment> \<open>the SDI status register\<close>
  | OpenMem | CloseMem | MapStatus | UnmapStatus
  | GetConnector int               \<comment> \<open>returns 0 for NULL; replies \<open>connection, modes ...\<close>\<close>
  | DrmOpen                        \<comment> \<open>the file descriptor, negative on failure\<close>
  | SetClientCap int string
  | GetResources                   \<comment> \<open>returns 0 for NULL; replies \<open>n, n connectors, CRTCs ...\<close>\<close>
  | GetEncoder int                 \<comment> \<open>returns 0 for NULL; replies \<open>possible_crtcs\<close>\<close>
  | DrmClose int
  | Alsa alsa_call                 \<comment> \<open>the mixer controls of the output card\<close>
  | WriteAttr string nat           \<comment> \<open>a sysfs attribute; negative when it cannot be opened\<close>
  | Dau dau_reply                  \<comment> \<open>the answer to a request of the Dante service\<close>

type_synonym ('z, 'a) drm = "((drm_call, 'z) io_scheme, 'a) state"
type_synonym pnames = "int \<Rightarrow> (int \<times> string) option"

section \<open>Properties\<close>

fun pairs_of :: "int list \<Rightarrow> (int \<times> int) list" where
  "pairs_of (i # v # xs) = (i, v) # pairs_of xs"
| "pairs_of _ = []"

fun prop_lookup :: "pnames \<Rightarrow> string \<Rightarrow> int list \<Rightarrow> int" where
  "prop_lookup pname name [] = 0"
| "prop_lookup pname name (i # is) =
     (case pname i of
        Some (prop_id, n) \<Rightarrow> if n = name then prop_id else prop_lookup pname name is
      | None \<Rightarrow> prop_lookup pname name is)"

definition drm_property_id :: "drm_call api \<Rightarrow> pnames \<Rightarrow> int \<Rightarrow> string \<Rightarrow> string \<Rightarrow> ('z, int) drm" where
  "drm_property_id api pname obj kind name = do {
     r \<leftarrow> call api (GetProps obj kind);
     ret (if fst r \<noteq> 0 then 0 else prop_lookup pname name (map fst (pairs_of (snd r)))) }"

definition drm_property_value ::
    "drm_call api \<Rightarrow> pnames \<Rightarrow> int \<Rightarrow> string \<Rightarrow> string \<Rightarrow> ('z, int option) drm" where
  "drm_property_value api pname obj kind name = do {
     pid \<leftarrow> drm_property_id api pname obj kind name;
     r \<leftarrow> call api (GetProps obj kind);
     ret (if pid = 0 \<or> fst r \<noteq> 0 then None else map_of (pairs_of (snd r)) pid) }"

record drmModeConnector =
  connector_id :: int
  connector_hdmia :: bool      \<comment> \<open>type \<open>DRM_MODE_CONNECTOR_HDMIA\<close>\<close>
  connector_unknown :: bool    \<comment> \<open>type \<open>DRM_MODE_CONNECTOR_Unknown\<close>\<close>

definition is_output_connector ::
    "drm_call api \<Rightarrow> pnames \<Rightarrow> Backend \<Rightarrow> drmModeConnector option \<Rightarrow> ('z, bool) drm" where
  "is_output_connector api pname backend connector =
     (case connector of
        None \<Rightarrow> ret False
      | Some c \<Rightarrow>
          if backend \<noteq> SDI then ret (connector_hdmia c)
          else if \<not> connector_unknown c then ret False
          else do {
            a \<leftarrow> drm_property_id api pname (connector_id c) ''connector'' ''sdi_mode'';
            if a = 0 then ret False
            else do {
              b \<leftarrow> drm_property_id api pname (connector_id c) ''connector'' ''sdi_data_stream'';
              ret (b \<noteq> 0) } })"

primrec add_properties :: "drm_call api \<Rightarrow> pnames \<Rightarrow> int \<Rightarrow> int \<Rightarrow> (string \<times> int) list \<Rightarrow> ('z, bool) drm" where
  "add_properties api pname connector req [] = ret True"
| "add_properties api pname connector req (p # ps) = do {
     pid \<leftarrow> drm_property_id api pname connector ''connector'' (fst p);
     if pid = 0 then ret False
     else do {
       r \<leftarrow> call api (AtomicAdd req connector pid (snd p));
       if fst r < 0 then ret False else add_properties api pname connector req ps } }"

definition add_output_properties :: "drm_call api \<Rightarrow> pnames \<Rightarrow> int \<Rightarrow> int \<Rightarrow> Backend \<Rightarrow> int \<Rightarrow> int \<Rightarrow>
    drmModeModeInfo \<Rightarrow> ('z, bool) drm" where
  "add_output_properties api pname rgb888 uyvy10 backend connector req mode =
     (if backend \<noteq> SDI then ret True
      else if \<not> is_sdi_mode mode then ret False
      else add_properties api pname connector req
             (sdi_properties rgb888 uyvy10 (hdisplay mode) (vdisplay mode)))"

section \<open>Planes\<close>

definition DRM_PLANE_TYPE_OVERLAY :: int where "DRM_PLANE_TYPE_OVERLAY = 0"

text \<open>
  One plane: \<open>drmModeGetPlane\<close> replies its id, its CRTC mask and its formats.  \<open>None\<close> is the
  \<open>continue\<close> of the loops, otherwise the plane id, its formats and its properties.
\<close>

definition plane_of_type :: "drm_call api \<Rightarrow> pnames \<Rightarrow> nat \<Rightarrow> int \<Rightarrow> int \<Rightarrow> ('z, (int \<times> int list) option) drm" where
  "plane_of_type api pname crtc_index plane_type pl = do {
     r \<leftarrow> call api (GetPlane pl);
     if fst r \<noteq> 0 \<or> \<not> bit (outp r 1) crtc_index then ret None
     else do {
       typ \<leftarrow> drm_property_id api pname (outp r 0) ''plane'' ''type'';
       ps \<leftarrow> call api (GetProps (outp r 0) ''plane'');
       if typ = 0 \<or> fst ps \<noteq> 0 then ret None
       else ret (if (typ, plane_type) \<in> set (pairs_of (snd ps)) then Some (outp r 0, drop 2 (snd r)) else None) } }"

primrec scan_planes :: "drm_call api \<Rightarrow> pnames \<Rightarrow> nat \<Rightarrow> int \<Rightarrow> (int list \<Rightarrow> bool) \<Rightarrow> int \<Rightarrow> int list \<Rightarrow> ('z, int) drm" where
  "scan_planes api pname crtc_index plane_type formats_ok dflt [] = ret dflt"
| "scan_planes api pname crtc_index plane_type formats_ok dflt (pl # pls) = do {
     p \<leftarrow> plane_of_type api pname crtc_index plane_type pl;
     case p of
       Some (i, fmts) \<Rightarrow> if formats_ok fmts then ret i
                         else scan_planes api pname crtc_index plane_type formats_ok dflt pls
     | None \<Rightarrow> scan_planes api pname crtc_index plane_type formats_ok dflt pls }"

definition find_plane_by_type :: "drm_call api \<Rightarrow> pnames \<Rightarrow> nat \<Rightarrow> int \<Rightarrow> ('z, int) drm" where
  "find_plane_by_type api pname crtc_index plane_type = do {
     r \<leftarrow> call api GetPlanes;
     if fst r \<noteq> 0 then ret 0
     else scan_planes api pname crtc_index plane_type (\<lambda>_. True) 0 (snd r) }"

text \<open>\<open>yuyv\<close> is \<open>DRM_FORMAT_YUYV\<close>; 34 is the code's fallback plane.\<close>

definition find_overlay_plane_yuyv :: "drm_call api \<Rightarrow> pnames \<Rightarrow> int \<Rightarrow> nat \<Rightarrow> ('z, int) drm" where
  "find_overlay_plane_yuyv api pname yuyv crtc_index = do {
     r \<leftarrow> call api GetPlanes;
     if fst r \<noteq> 0 then ret 0
     else scan_planes api pname crtc_index DRM_PLANE_TYPE_OVERLAY (\<lambda>fmts. yuyv \<in> set fmts) 34 (snd r) }"

section \<open>Dumb frame buffers\<close>

text \<open>\<open>Some (fb, handle, pitch)\<close>: 0 is returned and the out parameters are written.\<close>

definition create_dumb_fb :: "drm_call api \<Rightarrow> nat \<Rightarrow> nat \<Rightarrow> int \<Rightarrow> nat \<Rightarrow> ('z, (int \<times> int \<times> int) option) drm" where
  "create_dumb_fb api width height drm_format bpp = do {
     r0 \<leftarrow> call api (CreateDumb width height bpp);
     if fst r0 < 0 then ret None
     else do {
       r1 \<leftarrow> call api (AddFB2 width height drm_format (outp r0 0) (outp r0 1));
       if fst r1 < 0 then do {
         call api (DestroyDumb (outp r0 0));
         ret None }
       else ret (Some (outp r1 0, outp r0 0, outp r0 1)) } }"

text \<open>\<open>destroy_dumb_fb\<close>: the new values of the two identifiers (0: none).\<close>

definition destroy_dumb_fb :: "drm_call api \<Rightarrow> int \<Rightarrow> int \<Rightarrow> int \<Rightarrow> ('z, int \<times> int) drm" where
  "destroy_dumb_fb api fd fb_id bo_handle =
     (if fd < 0 then ret (fb_id, bo_handle)
      else do {
        fb \<leftarrow> (if fb_id \<noteq> 0 then do { call api (RmFB fb_id); ret 0 } else ret fb_id);
        bo \<leftarrow> (if bo_handle \<noteq> 0 then do { call api (DestroyDumb bo_handle); ret 0 } else ret bo_handle);
        ret (fb, bo) })"

text \<open>
  \<open>fill_yuyv_dumb_fb\<close>: the stores of the two loops into the mapping, a byte list; \<open>None\<close> once a store
  misses the mapping, where the program would overwrite other memory or be killed.  \<open>x * 2\<close> is
  computed in 32 bits.
\<close>

definition store :: "nat \<Rightarrow> u8 \<Rightarrow> u8 list \<Rightarrow> u8 list option" where
  "store i b m = (if i < length m then Some (m[i := b]) else None)"

definition yuyv_pair :: "nat \<Rightarrow> nat \<Rightarrow> u8 list \<Rightarrow> u8 list option" where
  "yuyv_pair base x m =
     Option.bind (store (base + (x * 2 + 0) mod 2 ^ 32) 0x10 m) (\<lambda>m.
     Option.bind (store (base + (x * 2 + 1) mod 2 ^ 32) 0x80 m) (\<lambda>m.
     Option.bind (store (base + (x * 2 + 2) mod 2 ^ 32) 0x10 m) (\<lambda>m.
     store (base + (x * 2 + 3) mod 2 ^ 32) 0x80 m)))"

definition yuyv_row :: "nat \<Rightarrow> nat \<Rightarrow> u8 list \<Rightarrow> u8 list option" where
  "yuyv_row base width m = fold (\<lambda>k r. Option.bind r (yuyv_pair base (2 * k))) [0 ..< width div 2] (Some m)"

definition yuyv_fill :: "nat \<Rightarrow> nat \<Rightarrow> nat \<Rightarrow> u8 list \<Rightarrow> u8 list option" where
  "yuyv_fill width height pitch m = fold (\<lambda>y r. Option.bind r (yuyv_row (y * pitch) width)) [0 ..< height] (Some m)"

definition fill_yuyv_dumb_fb :: "drm_call api \<Rightarrow> int \<Rightarrow> nat \<Rightarrow> nat \<Rightarrow> nat \<Rightarrow> u8 list \<Rightarrow> ('z, int \<times> u8 list option) drm" where
  "fill_yuyv_dumb_fb api bo width height pitch m = do {
     r0 \<leftarrow> call api (MapDumb bo);
     if fst r0 < 0 then ret (- 1, Some m)
     else do {
       r1 \<leftarrow> call api (MmapDumb (pitch * height));
       if fst r1 < 0 then ret (- 1, Some m)
       else do {
         call api (MunmapDumb (pitch * height));
         ret (0, yuyv_fill width height pitch m) } } }"

section \<open>Frame buffers are released\<close>

text \<open>
  Buffer objects, frame buffers, blobs, the open device, \<open>/dev/mem\<close> and the mapped status register.
\<close>

datatype drm_res = D_bo int | D_fb int | D_blob int | D_dev int | D_mem | D_status

fun drm_acq :: "drm_call \<Rightarrow> reply \<Rightarrow> drm_res option" where
  "drm_acq (CreateDumb w h b) r = (if fst r \<ge> 0 then Some (D_bo (outp r 0)) else None)"
| "drm_acq (AddFB2 w h f hn p) r = (if fst r \<ge> 0 then Some (D_fb (outp r 0)) else None)"
| "drm_acq (CreateBlob xs) r = (if fst r = 0 then Some (D_blob (outp r 0)) else None)"
| "drm_acq DrmOpen r = (if fst r \<ge> 0 then Some (D_dev (fst r)) else None)"
| "drm_acq OpenMem r = (if fst r \<ge> 0 then Some D_mem else None)"
| "drm_acq MapStatus r = (if fst r \<ge> 0 then Some D_status else None)"
| "drm_acq _ r = None"

fun drm_rel :: "drm_call \<Rightarrow> drm_res option" where
  "drm_rel (DestroyDumb h) = Some (D_bo h)"
| "drm_rel (RmFB i) = Some (D_fb i)"
| "drm_rel (DestroyBlob b) = Some (D_blob b)"
| "drm_rel (DrmClose fd) = Some (D_dev fd)"
| "drm_rel CloseMem = Some D_mem"
| "drm_rel UnmapStatus = Some D_status"
| "drm_rel _ = None"

interpretation drm: cleanup drm_acq drm_rel
proof unfold_locales
  show "drm_rel c \<noteq> None \<Longrightarrow> drm_acq c r = None" for c r by (cases c) auto
qed

abbreviation drm_live :: "drm_call event list \<Rightarrow> drm_res list option" where
  "drm_live \<equiv> live drm_acq drm_rel"

text \<open>The kernel never hands out the identifier 0.\<close>

definition nonzero_ids :: "drm_call api \<Rightarrow> bool" where
  "nonzero_ids api \<longleftrightarrow>
     (\<forall>tr w h b. fst (api tr (CreateDumb w h b)) \<ge> 0 \<longrightarrow> outp (api tr (CreateDumb w h b)) 0 \<noteq> 0) \<and>
     (\<forall>tr w h f hn p. fst (api tr (AddFB2 w h f hn p)) \<ge> 0 \<longrightarrow> outp (api tr (AddFB2 w h f hn p)) 0 \<noteq> 0)"

text \<open>
  Frame buffers: creating a dumb buffer and destroying it again leaves exactly the kernel
  objects that were live before, on every path: a failure to attach the frame buffer destroys
  the buffer object, and the identifiers are cleared so that a second destruction does nothing.
\<close>

theorem dumb_fb_balanced:
  assumes "nonzero_ids api" and "drm_live (trace s) = Some held" and "0 \<le> fd"
  shows "wp (do { r \<leftarrow> create_dumb_fb api w h f b;
                  case r of None \<Rightarrow> ret (0, 0)
                  | Some (fb, bo, pitch) \<Rightarrow> destroy_dumb_fb api fd fb bo })
    (\<lambda>ids t. ids = (0, 0) \<and> drm_live (trace t) = Some held) s"
  using assms
  by (auto simp: create_dumb_fb_def destroy_dumb_fb_def wp_rules wp_call nonzero_ids_def)

theorem dumb_fb_balanced_witness:
  "wp (do { r \<leftarrow> create_dumb_fb (\<lambda>tr c. (0, [7, 7680])) 1920 1080 0 32;
            case r of None \<Rightarrow> ret (0, 0)
            | Some (fb, bo, pitch) \<Rightarrow> destroy_dumb_fb (\<lambda>tr c. (0, [7, 7680])) 3 fb bo })
    (\<lambda>ids t. ids = (0, 0) \<and> drm_live (trace t) = Some []) \<lparr>trace = []\<rparr>"
  by (rule dumb_fb_balanced) (simp_all add: nonzero_ids_def outp_def)

section \<open>The black picture\<close>

definition black :: "nat \<Rightarrow> u8" where
  "black j = (if even j then 0x10 else 0x80)"

text \<open>The bytes \<open>m'\<close> are those of \<open>m\<close> with the range from \<open>a\<close> to \<open>b\<close> painted black.\<close>

definition painted :: "nat \<Rightarrow> nat \<Rightarrow> u8 list \<Rightarrow> u8 list \<Rightarrow> bool" where
  "painted a b m m' \<longleftrightarrow> length m' = length m \<and>
     (\<forall>i < length m. m' ! i = (if a \<le> i \<and> i < b then black (i - a) else m ! i))"

lemma yuyv_pair_paints:
  assumes "base + 4 * n + 4 \<le> length m" and "4 * n + 4 < 2 ^ 32"
  shows "\<exists>m'. yuyv_pair base (2 * n) m = Some m' \<and> painted (base + 4 * n) (base + 4 * n + 4) m m'"
proof -
  have md: "(2 * n * 2 + j) mod 2 ^ 32 = 4 * n + j" if "j < 4" for j :: nat
    using that assms(2) by simp
  let ?m = "m[base + 4 * n := 0x10, base + (4 * n + 1) := 0x80, base + (4 * n + 2) := 0x10, base + (4 * n + 3) := 0x80]"
  have eq: "yuyv_pair base (2 * n) m = Some ?m"
    unfolding yuyv_pair_def md [of 0, simplified] md [of 1, simplified] md [of 2, simplified] md [of 3, simplified]
    using assms(1) md [of 0] md [of 1] md [of 2] md [of 3] by (simp add: store_def)
  have "?m ! i = (if base + 4 * n \<le> i \<and> i < base + 4 * n + 4 then black (i - (base + 4 * n)) else m ! i)"
    if "i < length m" for i
  proof -
    consider "i = base + 4 * n" | "i = base + (4 * n + 1)" | "i = base + (4 * n + 2)" | "i = base + (4 * n + 3)"
      | "i \<notin> {base + 4 * n, base + (4 * n + 1), base + (4 * n + 2), base + (4 * n + 3)}" by blast
    then show ?thesis
    proof cases
      case 5
      then have "\<not> (base + 4 * n \<le> i \<and> i < base + 4 * n + 4)" by auto
      then show ?thesis using 5 by (subst if_not_P) simp_all
    qed (use assms in \<open>simp_all add: black_def\<close>)
  qed
  then show ?thesis unfolding eq painted_def by simp
qed

lemma yuyv_row_paints:
  assumes "base + 2 * width \<le> length m" and "2 * width < 2 ^ 32"
  shows "\<exists>m'. yuyv_row base width m = Some m' \<and> painted base (base + 4 * (width div 2)) m m'"
proof -
  have "base + 4 * n \<le> length m \<Longrightarrow> 4 * n < 2 ^ 32 \<Longrightarrow>
      \<exists>m'. fold (\<lambda>k r. Option.bind r (yuyv_pair base (2 * k))) [0 ..< n] (Some m) = Some m' \<and> painted base (base + 4 * n) m m'" for n
  proof (induction n)
    case (Suc n)
    then obtain m1 where m1: "fold (\<lambda>k r. Option.bind r (yuyv_pair base (2 * k))) [0 ..< n] (Some m) = Some m1"
      "painted base (base + 4 * n) m m1" by auto
    moreover obtain m2 where m2: "yuyv_pair base (2 * n) m1 = Some m2" "painted (base + 4 * n) (base + 4 * n + 4) m1 m2"
      using yuyv_pair_paints [of base n m1] Suc.prems m1(2) by (auto simp: painted_def)
    moreover have "painted base (base + 4 * Suc n) m m2"
      unfolding painted_def
    proof (intro conjI allI impI)
      show "length m2 = length m" using m1(2) m2(2) by (simp add: painted_def)
      fix i assume i: "i < length m"
      then have v: "m1 ! i = (if base \<le> i \<and> i < base + 4 * n then black (i - base) else m ! i)"
        "m2 ! i = (if base + 4 * n \<le> i \<and> i < base + 4 * n + 4 then black (i - (base + 4 * n)) else m1 ! i)"
        using m1(2) m2(2) by (simp_all add: painted_def)
      have "black (i - (base + 4 * n)) = black (i - base)" if "base + 4 * n \<le> i"
        using that by (simp add: black_def)
      then show "m2 ! i = (if base \<le> i \<and> i < base + 4 * Suc n then black (i - base) else m ! i)"
        unfolding v by auto
    qed
    ultimately show ?case by simp
  qed (auto simp: painted_def)
  from this [of "width div 2"] show ?thesis using assms by (auto simp: yuyv_row_def)
qed

text \<open>The picture after \<open>h\<close> rows.\<close>

definition rows_black :: "nat \<Rightarrow> nat \<Rightarrow> nat \<Rightarrow> u8 list \<Rightarrow> u8 list \<Rightarrow> bool" where
  "rows_black width pitch h m m' \<longleftrightarrow> length m' = length m \<and>
     (\<forall>y x. x < pitch \<longrightarrow> y * pitch + x < length m \<longrightarrow>
        m' ! (y * pitch + x) = (if y < h \<and> x < 4 * (width div 2) then black x else m ! (y * pitch + x)))"

lemma row_index:
  fixes x y h width pitch :: nat
  assumes "x < pitch" and "4 * (width div 2) \<le> pitch"
  shows "h * pitch \<le> y * pitch + x \<and> y * pitch + x < h * pitch + 4 * (width div 2) \<longleftrightarrow> y = h \<and> x < 4 * (width div 2)"
proof
  assume a: "h * pitch \<le> y * pitch + x \<and> y * pitch + x < h * pitch + 4 * (width div 2)"
  then have "h * pitch < (y + 1) * pitch" "y * pitch < (h + 1) * pitch" using assms by auto
  then have "h < y + 1" "y < h + 1" by (simp_all only: mult_less_cancel2)
  then have "y = h" by simp
  with a show "y = h \<and> x < 4 * (width div 2)" by simp
qed simp

lemma yuyv_fill_rows:
  assumes "2 * width \<le> pitch" "pitch < 2 ^ 32" "h * pitch \<le> length m"
  shows "\<exists>m'. yuyv_fill width h pitch m = Some m' \<and> rows_black width pitch h m m'"
  using assms(3)
proof (induction h)
  case 0
  then show ?case by (simp add: yuyv_fill_def rows_black_def)
next
  case (Suc h)
  then obtain m1 where m1: "yuyv_fill width h pitch m = Some m1" "rows_black width pitch h m m1" by auto
  obtain m2 where m2: "yuyv_row (h * pitch) width m1 = Some m2" "painted (h * pitch) (h * pitch + 4 * (width div 2)) m1 m2"
    using yuyv_row_paints [of "h * pitch" width m1] Suc.prems assms m1(2) by (auto simp: rows_black_def)
  have w: "4 * (width div 2) \<le> pitch" using assms(1) by linarith
  have "rows_black width pitch (Suc h) m m2"
    unfolding rows_black_def
  proof (intro conjI allI impI)
    show "length m2 = length m" using m1(2) m2(2) by (simp add: painted_def rows_black_def)
    fix y x assume i: "x < pitch" "y * pitch + x < length m"
    have v: "m1 ! (y * pitch + x) = (if y < h \<and> x < 4 * (width div 2) then black x else m ! (y * pitch + x))"
      "m2 ! (y * pitch + x) = (if y = h \<and> x < 4 * (width div 2) then black (y * pitch + x - h * pitch) else m1 ! (y * pitch + x))"
      using m1(2) m2(2) i row_index [OF i(1) w, of h y] by (simp_all add: painted_def rows_black_def)
    show "m2 ! (y * pitch + x) = (if y < Suc h \<and> x < 4 * (width div 2) then black x else m ! (y * pitch + x))"
      unfolding v by auto
  qed
  then show ?case using m1(1) m2(1) by (simp add: yuyv_fill_def)
qed

text \<open>
  C37: the black picture: with a pitch of at least two bytes per pixel every store of the two loops
  hits the mapping (one that misses it would make the result \<open>None\<close>), every byte of the visible pixel
  pairs of every row becomes limited-range black (0x10, 0x80), and every other byte, the padding of
  the rows, is as it was.
\<close>

theorem yuyv_fill_black:
  assumes "2 * width \<le> pitch" "pitch < 2 ^ 32" and "length m = pitch * height"
  shows "\<exists>m'. yuyv_fill width height pitch m = Some m' \<and> length m' = pitch * height \<and>
    (\<forall>y < height. \<forall>x < pitch. m' ! (y * pitch + x) =
       (if x < 4 * (width div 2) then if even x then 0x10 else 0x80 else m ! (y * pitch + x)))"
proof -
  obtain m' where m': "yuyv_fill width height pitch m = Some m'" "rows_black width pitch height m m'"
    using yuyv_fill_rows [OF assms(1,2), of height m] assms(3) by (auto simp: mult.commute)
  have "y * pitch + x < length m" if "y < height" "x < pitch" for y x
  proof -
    have "y * pitch + x < (y + 1) * pitch" using that(2) by simp
    also have "\<dots> \<le> height * pitch" using that(1) by (intro mult_le_mono1) simp
    finally show ?thesis using assms(3) by (simp add: mult.commute)
  qed
  then show ?thesis using m' assms(3) by (auto simp: rows_black_def black_def)
qed

theorem yuyv_fill_black_witness:
  "\<exists>m'. yuyv_fill 2 2 6 (replicate 12 7) = Some m' \<and> m' ! (1 * 6 + 3) = 0x80 \<and> m' ! (1 * 6 + 5) = 7"
proof -
  from yuyv_fill_black [of 2 6 "replicate 12 7" 2] obtain m' where m': "yuyv_fill 2 2 6 (replicate 12 7) = Some m'"
    "\<forall>y < 2. \<forall>x < 6. m' ! (y * 6 + x) =
       (if x < 4 * (2 div 2) then if even x then 0x10 else 0x80 else replicate 12 7 ! (y * 6 + x))" by auto
  have "(1 :: nat) < 2" "(3 :: nat) < 6" "(5 :: nat) < 6" by simp_all
  note at = m'(2) [rule_format, OF this(1) this(2)] m'(2) [rule_format, OF this(1) this(3)]
  have "m' ! (1 * 6 + 3) = 0x80" "m' ! (1 * 6 + 5) = 7" using at by simp_all
  with m'(1) show ?thesis by blast
qed

end
