(* ===== verification/Sdi_Resync.thy ===== *)
theory Sdi_Resync
  imports Drm_Ops
begin

text \<open>
  The SDI output watchdog: src/src/tests/sc6f0-sdi-resync-policy.h and its use in
  sc6f0-dante-rx.cpp (\<open>init_sdi_resync\<close>, \<open>poll_sdi_resync\<close>,
  \<open>on_sdi_resync_requested\<close>, \<open>reinitialize_sdi_output\<close>, \<open>cleanup_sdi_resync\<close>).  Times are
  unsigned 64-bit milliseconds, the counters of the policy unsigned 32-bit.
\<close>

section \<open>The policy\<close>

definition kSampleMs :: u64 where "kSampleMs = 500"
definition kDebounceMs :: u64 where "kDebounceMs = 2000"
definition kCooldownMs :: u64 where "kCooldownMs = 5000"
definition kAttemptWindowMs :: u64 where "kAttemptWindowMs = 60000"
definition kMaxAttempts :: u32 where "kMaxAttempts = 3"

lemmas k_defs = kSampleMs_def kDebounceMs_def kCooldownMs_def kAttemptWindowMs_def kMaxAttempts_def

definition known_fpga :: "string option \<Rightarrow> bool" where
  "known_fpga version =
     (case version of
        None \<Rightarrow> False
      | Some v \<Rightarrow> prefix ''0x26102101 SDIR'' v \<or> prefix ''0x26102201 SDIR'' v \<or>
                  prefix ''0x26102701 SDIR'' v)"

definition has_suspect_alignment_history :: "u32 \<Rightarrow> bool" where
  "has_suspect_alignment_history status =
     (status \<noteq> - 1 \<and> status AND push_bit 11 1 \<noteq> 0 \<and> drop_bit 16 status = 12)"

record Policy =
  next_sample_ms :: u64
  suspect_ms :: u64
  cooldown_until_ms :: u64
  attempts_ms :: "u64 list"   \<comment> \<open>the array of \<open>kMaxAttempts\<close> entries\<close>
  samples :: u32
  attempts :: u32
  failed :: bool

definition policy_init :: Policy where
  "policy_init = \<lparr>next_sample_ms = 0, suspect_ms = 0, cooldown_until_ms = 0, attempts_ms = [0, 0, 0],
     samples = 0, attempts = 0, failed = False\<rparr>"

text \<open>The number of recorded attempts inside the window.\<close>

definition recent_attempts :: "Policy \<Rightarrow> u64 \<Rightarrow> nat" where
  "recent_attempts p now =
     length (filter (\<lambda>i. now - attempts_ms p ! i < kAttemptWindowMs) [0 ..< min (unat (attempts p)) 3])"

definition observe :: "u64 \<Rightarrow> u32 \<Rightarrow> bool \<Rightarrow> Policy \<Rightarrow> bool \<times> Policy" where
  "observe now status eligible p =
     (if now < next_sample_ms p then (False, p)
      else
        let p1 = (if next_sample_ms p \<noteq> 0 \<and> now > next_sample_ms p + 2 * kSampleMs
                  then p\<lparr>samples := 0\<rparr> else p);
            p2 = p1\<lparr>next_sample_ms := now + kSampleMs\<rparr>;
            suspect = eligible \<and> has_suspect_alignment_history status
        in if failed p2 \<or> \<not> suspect \<or> now < cooldown_until_ms p2
           then (False, p2\<lparr>samples := 0\<rparr>)
           else
             let p3 = (if samples p2 = 0 then p2\<lparr>suspect_ms := now\<rparr> else p2)\<lparr>samples := samples p2 + 1\<rparr>
             in if samples p3 < 5 \<or> now - suspect_ms p3 < kDebounceMs then (False, p3)
                else if recent_attempts p3 now \<ge> unat kMaxAttempts then (False, p3)
                else (True, p3\<lparr>attempts_ms := (attempts_ms p3)[unat (attempts p3 mod kMaxAttempts) := now],
                               attempts := attempts p3 + 1, cooldown_until_ms := now + kCooldownMs,
                               samples := 0\<rparr>))"

section \<open>The watchdog\<close>

datatype video_colorformat = YUV444 | YUV422 | YUV420 | RGB | Unknown_colorformat

record video_format =
  vf_width :: nat
  vf_height :: nat
  vf_framerate :: nat
  colorformat :: video_colorformat
  vf_interlaced :: bool
  locked :: bool

record audio_info =
  ai_channel_count :: nat
  ai_speaker_map :: nat
  ai_level_shift_value :: nat
  ai_downmix_inhibit :: bool
  ai_lfe_playback_level :: nat
  ai_sample_rate :: nat
  ai_encoding :: nat
  ai_sample_bits :: nat

text \<open>The context of the direct output; of the service and the hot-plug socket only the replies are modelled.\<close>

record ultra = "drm_call io" +
  drm_fd :: int
  connector :: int
  crtc_id :: int
  primary_plane_id :: int
  primary_fb_id :: int
  primary_bo_handle :: int
  overlay_plane_id :: int
  overlay_fb_id :: int
  overlay_bo_handle :: int
  mode_blob_id :: int
  modeset_active :: bool
  overlay_active :: bool
  avh_active :: bool
  current_mode :: drmModeModeInfo
  current_video_format :: video_format
  last_locked_video_format :: video_format
  ultra_overlay_format :: int
  fixed_mode_override :: bool
  force_dante_source :: bool
  fixed_width :: nat
  fixed_height :: nat
  fixed_fps :: nat
  have_last_audio_info :: bool
  last_audio_info :: audio_info
  format_changes :: u64
  sdi_status_map :: bool       \<comment> \<open>mapped, i.e. not \<open>MAP_FAILED\<close>\<close>
  sdi_last_status :: u32
  sdi_resync :: Policy

type_synonym 'a ud = "(ultra, 'a) state"

text \<open>
  \<open>init_sdi_resync\<close>: the environment variable, the FPGA version and the product string are
  the arguments \<open>enabled\<close>, \<open>version\<close>, \<open>product\<close>.
\<close>

definition init_sdi_resync :: "drm_call api \<Rightarrow> Backend \<Rightarrow> string option \<Rightarrow> string \<Rightarrow> string \<Rightarrow> unit ud" where
  "init_sdi_resync api backend enabled version product =
     (if backend \<noteq> SDI \<or> enabled \<noteq> Some ''1'' then ret ()
      else if \<not> known_fpga (Some version) \<or> \<not> prefix ''SC6F0 SDI Dante RX'' product then ret ()
      else do {
        fd \<leftarrow> call api OpenMem;
        if fst fd \<ge> 0 then do {
          m \<leftarrow> call api MapStatus;
          modify (\<lambda>c. c\<lparr>sdi_status_map := (fst m \<ge> 0)\<rparr>);
          call api CloseMem;
          ret () }
        else ret () })"

definition read_sdi_resync_status :: "drm_call api \<Rightarrow> u32 ud" where
  "read_sdi_resync_status api = do { r \<leftarrow> call api ReadStatus; ret (of_int (fst r)) }"

definition cleanup_sdi_resync :: "drm_call api \<Rightarrow> unit ud" where
  "cleanup_sdi_resync api = do {
     c \<leftarrow> State_Monad.get;
     if sdi_status_map c then do {
       call api UnmapStatus;
       modify (\<lambda>c. c\<lparr>sdi_status_map := False\<rparr>) }
     else ret () }"

text \<open>Short-circuit conjunction of actions.\<close>

primrec all_ok :: "'a list \<Rightarrow> ('a \<Rightarrow> ('s, bool) state) \<Rightarrow> ('s, bool) state" where
  "all_ok [] act = ret True"
| "all_ok (x # xs) act = do { b \<leftarrow> act x; if b then all_ok xs act else ret False }"

text \<open>The state the watchdog insists on: \<open>Some (mode_id)\<close> when it holds.\<close>

definition output_as_expected :: "drm_call api \<Rightarrow> pnames \<Rightarrow> int option ud" where
  "output_as_expected api pname = do {
     c \<leftarrow> State_Monad.get;
     active \<leftarrow> drm_property_value api pname (crtc_id c) ''crtc'' ''ACTIVE'';
     if active = None \<or> active = Some 0 then ret None else do {
     mode_id \<leftarrow> drm_property_value api pname (crtc_id c) ''crtc'' ''MODE_ID'';
     if mode_id = None then ret None else do {
     frac \<leftarrow> drm_property_value api pname (connector c) ''connector'' ''is_frac'';
     if frac \<noteq> Some 0 then ret None else do {
     primary \<leftarrow> drm_property_value api pname (primary_plane_id c) ''plane'' ''FB_ID'';
     if primary = None then ret None else do {
     overlay \<leftarrow> drm_property_value api pname (overlay_plane_id c) ''plane'' ''FB_ID'';
     if overlay = None then ret None else do {
     source \<leftarrow> drm_property_value api pname (overlay_plane_id c) ''plane'' ''SC6F0_OVERLAY_SOURCE'';
     ret (if source = None \<or> primary \<noteq> Some (primary_fb_id c) \<or> primary = Some 0 \<or>
             overlay \<noteq> Some (overlay_fb_id c) \<or> overlay = Some 0 \<or> source \<noteq> Some 1
          then None else mode_id) } } } } } }"

text \<open>
  \<open>reinitialize_sdi_output\<close>; \<open>enc\<close> is the memory image of a \<open>drmModeModeInfo\<close>.  \<open>on_props\<close> are
  the three properties of the request that switches the output on again.
\<close>

definition commit_pair :: "drm_call api \<Rightarrow> int \<Rightarrow> int \<Rightarrow> bool \<Rightarrow> bool ud" where
  "commit_pair api first second test =
     all_ok [first, second] (\<lambda>q. do { r \<leftarrow> call api (AtomicCommit q test); ret (fst r = 0) })"

definition reset_output :: "drm_call api \<Rightarrow> pnames \<Rightarrow> int \<Rightarrow> int \<Rightarrow> bool ud" where
  "reset_output api pname mode_id blob = do {
     c \<leftarrow> State_Monad.get;
     r_off \<leftarrow> call api AtomicAlloc;
     r_on \<leftarrow> call api AtomicAlloc;
     let off = fst r_off; let on = fst r_on;
     active_id \<leftarrow> drm_property_id api pname (crtc_id c) ''crtc'' ''ACTIVE'';
     mode_prop \<leftarrow> drm_property_id api pname (crtc_id c) ''crtc'' ''MODE_ID'';
     frac_id \<leftarrow> drm_property_id api pname (connector c) ''connector'' ''is_frac'';
     ok1 \<leftarrow> (if off \<noteq> 0 \<and> on \<noteq> 0 \<and> active_id \<noteq> 0 \<and> mode_prop \<noteq> 0 \<and> frac_id \<noteq> 0
             then all_ok [AtomicAdd off (crtc_id c) active_id 0, AtomicAdd on (crtc_id c) active_id 1,
                          AtomicAdd on (crtc_id c) mode_prop blob, AtomicAdd on (connector c) frac_id 0]
                    (\<lambda>q. do { r \<leftarrow> call api q; ret (fst r \<ge> 0) })
             else ret False);
     ok2 \<leftarrow> (if ok1 then commit_pair api on off True else ret False);
     if ok2 then do {
       ok3 \<leftarrow> commit_pair api off on False;
       (if \<not> ok3 then do {
          r \<leftarrow> call api (AtomicAdd on (crtc_id c) mode_prop mode_id);
          if fst r < 0 then ret () else do { call api (AtomicCommit on False); ret () } }
        else ret ());
       ret ok3 }
     else ret False }"

definition reinitialize_sdi_output :: "drm_call api \<Rightarrow> pnames \<Rightarrow> (drmModeModeInfo \<Rightarrow> int list) \<Rightarrow> bool ud" where
  "reinitialize_sdi_output api pname enc = do {
     m \<leftarrow> output_as_expected api pname;
     case m of
       None \<Rightarrow> ret False
     | Some mode_id \<Rightarrow> do {
         c \<leftarrow> State_Monad.get;
         old \<leftarrow> call api (GetBlob mode_id);
         if fst old \<noteq> 0 \<or> snd old \<noteq> enc (current_mode c) \<or> \<not> is_sdi_mode (current_mode c) then ret False
         else do {
           b \<leftarrow> call api (CreateBlob (snd old));
           if fst b \<noteq> 0 then ret False
           else do {
             ok \<leftarrow> reset_output api pname mode_id (outp b 0);
             call api (DestroyBlob (outp b 0));
             ret ok } } } }"

definition on_sdi_resync_requested :: "drm_call api \<Rightarrow> pnames \<Rightarrow> (drmModeModeInfo \<Rightarrow> int list) \<Rightarrow> unit ud" where
  "on_sdi_resync_requested api pname enc = do {
     ok \<leftarrow> reinitialize_sdi_output api pname enc;
     after \<leftarrow> read_sdi_resync_status api;
     modify (\<lambda>c. c\<lparr>sdi_resync := (sdi_resync c)\<lparr>failed := \<not> ok\<rparr>\<rparr>) }"

definition poll_sdi_resync :: "drm_call api \<Rightarrow> pnames \<Rightarrow> (drmModeModeInfo \<Rightarrow> int list) \<Rightarrow> u64 \<Rightarrow> unit ud" where
  "poll_sdi_resync api pname enc now_ms = do {
     c \<leftarrow> State_Monad.get;
     if \<not> sdi_status_map c \<or> failed (sdi_resync c) \<or> now_ms < next_sample_ms (sdi_resync c) then ret ()
     else do {
       status \<leftarrow> read_sdi_resync_status api;
       modify (\<lambda>c. c\<lparr>sdi_last_status := status\<rparr>);
       let eligible = modeset_active c \<and> overlay_active c \<and> \<not> avh_active c;
       let (req, p) = observe now_ms status eligible (sdi_resync c);
       modify (\<lambda>c. c\<lparr>sdi_resync := p\<rparr>);
       if req then on_sdi_resync_requested api pname enc else ret () } }"

section \<open>The rate limit\<close>

type_synonym observation = "u64 \<times> u32 \<times> bool"

text \<open>The policy over a sequence of observations, with the times of the accepted requests, latest first.\<close>

definition policy_step :: "observation \<Rightarrow> Policy \<times> nat list \<Rightarrow> Policy \<times> nat list" where
  "policy_step ob ps =
     (case ob of (now, status, eligible) \<Rightarrow>
        let (b, p) = observe now status eligible (fst ps)
        in (p, if b then unat now # snd ps else snd ps))"

definition policy_run :: "observation list \<Rightarrow> Policy \<times> nat list" where
  "policy_run obs = fold policy_step obs (policy_init, [])"

lemma policy_run_snoc: "policy_run (obs @ [ob]) = policy_step ob (policy_run obs)"
  by (simp add: policy_run_def)

text \<open>Monotone clock that stays below half the range, and fewer observations than the counters count.\<close>

definition clock_ok :: "observation list \<Rightarrow> bool" where
  "clock_ok obs = (sorted (map (\<lambda>ob. unat (fst ob)) obs) \<and> list_all (\<lambda>ob. unat (fst ob) < 2 ^ 63) obs \<and>
     length obs < 2 ^ 32)"

lemma clock_ok_snoc: "clock_ok (obs @ [ob]) \<Longrightarrow>
  clock_ok obs \<and> unat (fst ob) < 2 ^ 63 \<and> (\<forall>o' \<in> set obs. unat (fst o') \<le> unat (fst ob)) \<and> Suc (length obs) < 2 ^ 32"
  by (auto simp: clock_ok_def sorted_append)

lemma observe_refused:
  "\<not> fst (observe now st el p) \<Longrightarrow>
     attempts (snd (observe now st el p)) = attempts p \<and>
     attempts_ms (snd (observe now st el p)) = attempts_ms p \<and>
     cooldown_until_ms (snd (observe now st el p)) = cooldown_until_ms p"
  by (auto simp: observe_def Let_def split: if_splits)

lemma observe_accepts:
  assumes "fst (observe now st el p)"
  obtains q where "attempts q = attempts p" "attempts_ms q = attempts_ms p" "cooldown_until_ms q = cooldown_until_ms p"
    "failed q = failed p" "\<not> failed q" "el" "has_suspect_alignment_history st" "\<not> now < cooldown_until_ms q"
    "recent_attempts q now < unat kMaxAttempts"
    "observe now st el p = (True, q\<lparr>attempts_ms := (attempts_ms q)[unat (attempts q mod kMaxAttempts) := now],
       attempts := attempts q + 1, cooldown_until_ms := now + kCooldownMs, samples := 0\<rparr>)"
proof -
  define p1 where "p1 = (if next_sample_ms p \<noteq> 0 \<and> now > next_sample_ms p + 2 * kSampleMs then p\<lparr>samples := 0\<rparr> else p)"
  define p2 where "p2 = p1\<lparr>next_sample_ms := now + kSampleMs\<rparr>"
  define q where "q = (if samples p2 = 0 then p2\<lparr>suspect_ms := now\<rparr> else p2)\<lparr>samples := samples p2 + 1\<rparr>"
  have same: "attempts p2 = attempts p" "attempts_ms p2 = attempts_ms p" "cooldown_until_ms p2 = cooldown_until_ms p"
    "failed p2 = failed p"
    by (simp_all add: p2_def p1_def)
  have same': "attempts q = attempts p2" "attempts_ms q = attempts_ms p2" "cooldown_until_ms q = cooldown_until_ms p2"
    "failed q = failed p2"
    by (simp_all add: q_def)
  note obs = observe_def [of now st el p, folded p1_def, unfolded Let_def, folded p1_def, folded p2_def, folded q_def]
  show ?thesis
  proof (rule that)
    show "attempts q = attempts p" "attempts_ms q = attempts_ms p" "cooldown_until_ms q = cooldown_until_ms p"
      "failed q = failed p" using same same' by simp_all
  qed (use assms same' in \<open>auto simp: obs split: if_splits\<close>)
qed

lemma observe_accepted:
  assumes "fst (observe now st el p)"
  defines "p' \<equiv> snd (observe now st el p)"
  shows "attempts p' = attempts p + 1"
    "attempts_ms p' = (attempts_ms p)[unat (attempts p mod 3) := now]"
    "cooldown_until_ms p' = now + 5000"
    "\<not> now < cooldown_until_ms p"
    "recent_attempts p now < 3"
    "\<not> failed p" "el" "has_suspect_alignment_history st"
  by (rule observe_accepts [OF assms(1)], simp add: p'_def recent_attempts_def k_defs)+

text \<open>The ring buffer holds the last three accepted times, and they are spaced.\<close>

definition rate_inv :: "nat \<Rightarrow> nat \<Rightarrow> Policy \<times> nat list \<Rightarrow> bool" where
  "rate_inv n T ps \<longleftrightarrow> (case ps of (p, acc) \<Rightarrow>
     length (attempts_ms p) = 3 \<and> unat (attempts p) = length acc \<and> length acc \<le> n \<and>
     (\<forall>j < min 3 (length acc). unat (attempts_ms p ! ((length acc - 1 - j) mod 3)) = acc ! j) \<and>
     (acc \<noteq> [] \<longrightarrow> unat (cooldown_until_ms p) = hd acc + 5000) \<and>
     (\<forall>t \<in> set acc. t \<le> T) \<and>
     (\<forall>i. i + 1 < length acc \<longrightarrow> acc ! (i + 1) + 5000 \<le> acc ! i) \<and>
     (\<forall>i. i + 3 < length acc \<longrightarrow> acc ! (i + 3) + 60000 \<le> acc ! i))"

lemma rate_inv_mono: "rate_inv n T ps \<Longrightarrow> n \<le> n' \<Longrightarrow> T \<le> T' \<Longrightarrow> rate_inv n' T' ps"
  by (fastforce simp: rate_inv_def split: prod.splits)

lemma rate_inv_refused:
  assumes "rate_inv n T (p, acc)" and "\<not> fst (observe now st el p)"
  shows "rate_inv n T (snd (observe now st el p), acc)"
  using assms(1) observe_refused [OF assms(2)] by (simp add: rate_inv_def)

lemma length_filter_less_witness: "length (filter P [0 ..< n]) < n \<Longrightarrow> \<exists>i < n. \<not> P i"
proof (rule ccontr)
  assume a: "length (filter P [0 ..< n]) < n" and "\<not> (\<exists>i < n. \<not> P i)"
  then have "filter P [0 ..< n] = [0 ..< n]" by (intro filter_True) auto
  with a show False by simp
qed

lemma three_residues: "i < 3 \<Longrightarrow> i = Suc (Suc k) mod 3 \<or> i = Suc k mod 3 \<or> i = k mod (3 :: nat)"
proof -
  assume i: "i < 3"
  have "k mod 3 < 3" by simp
  then consider "k mod 3 = 0" | "k mod 3 = 1" | "k mod 3 = 2" by linarith
  then show ?thesis using i by cases (simp_all add: mod_Suc, linarith+)
qed

lemma window_respected:
  assumes inv: "rate_inv n T (p, acc)" and "T \<le> unat now" and rec: "recent_attempts p now < 3"
    and acc: "3 \<le> length acc"
  shows "acc ! 2 + 60000 \<le> unat now"
proof -
  from inv have len: "unat (attempts p) = length acc"
    and slot: "\<forall>j < 3. unat (attempts_ms p ! ((length acc - 1 - j) mod 3)) = acc ! j"
    and sp: "\<forall>i. i + 1 < length acc \<longrightarrow> acc ! (i + 1) + 5000 \<le> acc ! i"
    and le: "\<forall>t \<in> set acc. t \<le> unat now"
    using acc assms(2) by (auto simp: rate_inv_def)
  have "length (filter (\<lambda>i. now - attempts_ms p ! i < kAttemptWindowMs) [0 ..< 3]) < 3"
    using rec acc by (simp add: recent_attempts_def len min_def split: if_splits)
  then obtain i where i: "i < 3" "\<not> now - attempts_ms p ! i < kAttemptWindowMs"
    using length_filter_less_witness by blast
  have "Suc (Suc (length acc - 3)) = length acc - 1 - 0" "Suc (length acc - 3) = length acc - 1 - 1"
    "length acc - 3 = length acc - 1 - 2" using acc by simp_all
  then have "i = (length acc - 1 - 0) mod 3 \<or> i = (length acc - 1 - 1) mod 3 \<or> i = (length acc - 1 - 2) mod 3"
    using three_residues [OF i(1), of "length acc - 3"] by (simp only:)
  then obtain j where j: "j < 3" "(length acc - 1 - j) mod 3 = i"
    using that [of 0] that [of 1] that [of 2] by auto
  then have a: "unat (attempts_ms p ! i) = acc ! j" using slot by auto
  then have "unat (attempts_ms p ! i) \<le> unat now" using le j(1) acc by simp
  then have "unat (now - attempts_ms p ! i) = unat now - acc ! j"
    using a by (simp add: unat_sub_bounded word_le_nat_alt)
  with i(2) have "acc ! j + 60000 \<le> unat now"
    by (simp add: kAttemptWindowMs_def word_less_nat_alt)
  moreover have "acc ! 2 \<le> acc ! j"
  proof -
    have "acc ! 1 + 5000 \<le> acc ! 0" "acc ! 2 + 5000 \<le> acc ! 1"
      using sp [rule_format, of 0] sp [rule_format, of 1] acc by (simp_all add: numeral_2_eq_2)
    moreover have "j = 0 \<or> j = 1 \<or> j = 2" using j(1) by linarith
    ultimately show ?thesis by auto
  qed
  ultimately show ?thesis by simp
qed

lemma unat_mod3: "unat (x mod 3 :: u32) = unat x mod 3"
  by (simp add: unat_mod)

lemma ring_update:
  assumes len: "length r = (3 :: nat)"
    and slot: "\<forall>j < min 3 (length acc). f (r ! ((length acc - 1 - j) mod 3)) = acc ! j"
  shows "\<forall>j < min 3 (length (f x # acc)).
    f (r[length acc mod 3 := x] ! ((length (f x # acc) - 1 - j) mod 3)) = (f x # acc) ! j"
proof (intro allI impI)
  fix j assume j: "j < min 3 (length (f x # acc))"
  show "f (r[length acc mod 3 := x] ! ((length (f x # acc) - 1 - j) mod 3)) = (f x # acc) ! j"
  proof (cases j)
    case 0
    then show ?thesis by (simp add: len)
  next
    case (Suc i)
    have "(length acc - Suc i) mod 3 \<noteq> length acc mod 3"
    proof
      assume "(length acc - Suc i) mod 3 = length acc mod 3"
      then have "3 dvd length acc - (length acc - Suc i)"
        by (metis diff_le_self mod_eq_dvd_iff_nat)
      then show False using j Suc by (auto dest: dvd_imp_le)
    qed
    moreover have "f (r ! ((length acc - 1 - i) mod 3)) = acc ! i" using slot j Suc by simp
    ultimately show ?thesis using Suc by simp
  qed
qed

lemma rate_inv_accepted:
  assumes inv: "rate_inv n T (p, acc)" and T: "T \<le> unat now" and now: "unat now < 2 ^ 63"
    and n: "Suc n < 2 ^ 32" and ok: "fst (observe now st el p)"
  shows "rate_inv (Suc n) (unat now) (snd (observe now st el p), unat now # acc)"
proof -
  note o = observe_accepted [OF ok]
  let ?p = "snd (observe now st el p)"
  from inv have len: "length (attempts_ms p) = 3" and cnt: "unat (attempts p) = length acc" "length acc \<le> n"
    and slot: "\<forall>j < min 3 (length acc). unat (attempts_ms p ! ((length acc - 1 - j) mod 3)) = acc ! j"
    and cool: "acc \<noteq> [] \<longrightarrow> unat (cooldown_until_ms p) = hd acc + 5000"
    and le: "\<forall>t \<in> set acc. t \<le> T"
    and sp: "\<forall>i. i + 1 < length acc \<longrightarrow> acc ! (i + 1) + 5000 \<le> acc ! i"
      "\<forall>i. i + 3 < length acc \<longrightarrow> acc ! (i + 3) + 60000 \<le> acc ! i"
    by (simp_all add: rate_inv_def)
  have "unat (attempts ?p) = Suc (length acc)"
    using o(1) cnt n by (simp add: unat_add_bounded)
  moreover have "unat (cooldown_until_ms ?p) = unat now + 5000"
    using o(3) now by (simp add: unat_add_bounded)
  moreover have "\<forall>j < min 3 (length (unat now # acc)).
      unat (attempts_ms ?p ! ((length (unat now # acc) - 1 - j) mod 3)) = (unat now # acc) ! j"
    using ring_update [OF len slot, of now] by (simp add: o(2) unat_mod3 cnt)
  moreover have "\<forall>i. i + 1 < length (unat now # acc) \<longrightarrow> (unat now # acc) ! (i + 1) + 5000 \<le> (unat now # acc) ! i"
  proof (intro allI impI)
    fix i assume i: "i + 1 < length (unat now # acc)"
    show "(unat now # acc) ! (i + 1) + 5000 \<le> (unat now # acc) ! i"
    proof (cases i)
      case 0
      then have "acc \<noteq> []" using i by auto
      then show ?thesis using 0 cool o(4) by (simp add: word_less_nat_alt hd_conv_nth)
    qed (use i sp(1) in auto)
  qed
  moreover have "\<forall>i. i + 3 < length (unat now # acc) \<longrightarrow> (unat now # acc) ! (i + 3) + 60000 \<le> (unat now # acc) ! i"
  proof (intro allI impI)
    fix i assume i: "i + 3 < length (unat now # acc)"
    show "(unat now # acc) ! (i + 3) + 60000 \<le> (unat now # acc) ! i"
    proof (cases i)
      case 0
      then show ?thesis using i window_respected [OF inv T o(5)] by (simp add: numeral_3_eq_3 numeral_2_eq_2)
    qed (use i sp(2) in \<open>auto simp: add.commute\<close>)
  qed
  ultimately show ?thesis
    using len cnt le T by (fastforce simp: rate_inv_def o(2))
qed

lemma policy_rate_inv:
  assumes "clock_ok obs"
  shows "rate_inv (length obs) (if obs = [] then 0 else unat (fst (last obs))) (policy_run obs)"
  using assms
proof (induction obs rule: rev_induct)
  case Nil
  then show ?case by (simp add: policy_run_def rate_inv_def policy_init_def)
next
  case (snoc ob obs)
  obtain now st el where ob: "ob = (now, st, el)" by (cases ob)
  obtain p acc where run: "policy_run obs = (p, acc)" by (cases "policy_run obs")
  note c = clock_ok_snoc [OF snoc.prems]
  let ?T = "if obs = [] then 0 else unat (fst (last obs))"
  have inv: "rate_inv (length obs) ?T (p, acc)" using snoc.IH c run by simp
  have T: "?T \<le> unat now" using c ob by auto
  show ?case
  proof (cases "fst (observe now st el p)")
    case True
    then show ?thesis
      using rate_inv_accepted [OF inv T _ _ True] c ob
      by (simp add: policy_run_snoc run policy_step_def Let_def split_beta)
  next
    case False
    then show ?thesis
      using rate_inv_mono [OF rate_inv_refused [OF inv False], of "Suc (length obs)" "unat now"] T ob
      by (simp add: policy_run_snoc run policy_step_def Let_def split_beta)
  qed
qed

text \<open>
  C4: the recovery is rate limited: over any sequence of observations with a monotone clock,
  two accepted requests are at least 5 s apart, and any four consecutive ones span at least
  60 s, so at most three fall into any minute.
\<close>

theorem resync_rate_limit:
  assumes "clock_ok obs" and "i < length (snd (policy_run obs))"
  shows "(i + 1 < length (snd (policy_run obs)) \<longrightarrow>
       snd (policy_run obs) ! (i + 1) + 5000 \<le> snd (policy_run obs) ! i) \<and>
     (i + 3 < length (snd (policy_run obs)) \<longrightarrow>
       snd (policy_run obs) ! (i + 3) + 60000 \<le> snd (policy_run obs) ! i)"
  using policy_rate_inv [OF assms(1)] by (auto simp: rate_inv_def split: prod.splits)

definition faulty :: "nat \<Rightarrow> observation" where
  "faulty t = (of_nat t, 0x000C0800, True)"

theorem resync_rate_limit_witness:
  "snd (policy_run (map faulty [1000, 1500, 2000, 2500, 3000, 8000, 8500, 9000, 9500, 10000])) = [10000, 3000] \<and>
   3000 + 5000 \<le> (10000 :: nat)"
proof -
  let ?obs = "map faulty [1000, 1500, 2000, 2500, 3000, 8000, 8500, 9000, 9500, 10000]"
  have run: "snd (policy_run ?obs) = [10000, 3000]"
    by (simp add: policy_run_def policy_step_def policy_init_def faulty_def observe_def
        has_suspect_alignment_history_def recent_attempts_def k_defs Let_def)
  have "clock_ok ?obs" by (simp add: clock_ok_def faulty_def)
  from resync_rate_limit [OF this, of 0] run show ?thesis by simp
qed

section \<open>The debounce\<close>

definition bad :: "observation \<Rightarrow> bool" where
  "bad ob = (snd (snd ob) \<and> has_suspect_alignment_history (fst (snd ob)))"

abbreviation time_of :: "observation \<Rightarrow> nat" where
  "time_of ob \<equiv> unat (fst ob)"

text \<open>A streak: bad samples, each 0.5 s to 1.5 s after the one before.\<close>

fun streak :: "observation list \<Rightarrow> bool" where
  "streak [] = True"
| "streak [a] = bad a"
| "streak (a # b # obs) = (bad a \<and> time_of a + 500 \<le> time_of b \<and> time_of b \<le> time_of a + 1500 \<and> streak (b # obs))"

lemma streak_snoc:
  "c \<noteq> [] \<Longrightarrow> streak (c @ [b]) \<longleftrightarrow>
     streak c \<and> bad b \<and> time_of (last c) + 500 \<le> time_of b \<and> time_of b \<le> time_of (last c) + 1500"
  by (induction c rule: streak.induct) auto

lemma streak_span: "streak c \<Longrightarrow> c \<noteq> [] \<Longrightarrow> time_of (hd c) + 500 * (length c - 1) \<le> time_of (last c)"
  by (induction c rule: streak.induct) auto

text \<open>
  The samples among the observations, whatever they show: the first one, then each that comes at
  least 0.5 s after the last sample.
\<close>

definition take_sample :: "observation \<Rightarrow> observation list \<Rightarrow> observation list" where
  "take_sample ob acc = (if acc = [] \<or> time_of (last acc) + 500 \<le> time_of ob then acc @ [ob] else acc)"

definition sampled :: "observation list \<Rightarrow> observation list" where
  "sampled obs = fold take_sample obs []"

lemma sampled_snoc: "sampled (obs @ [ob]) = take_sample ob (sampled obs)"
  by (simp add: sampled_def)

lemma sampled_length: "length (sampled obs) \<le> length obs"
  by (induction obs rule: rev_induct) (auto simp: sampled_snoc take_sample_def, simp add: sampled_def)

definition streak_inv :: "observation list \<Rightarrow> Policy \<Rightarrow> bool" where
  "streak_inv obs p \<longleftrightarrow>
     unat (next_sample_ms p) = (if sampled obs = [] then 0 else time_of (last (sampled obs)) + 500) \<and>
     (\<exists>pre c. sampled obs = pre @ c \<and> streak c \<and> unat (samples p) = length c \<and>
        (c \<noteq> [] \<longrightarrow> unat (suspect_ms p) = time_of (hd c)))"

lemma observe_streak:
  assumes inv: "streak_inv obs p" and now: "unat now < 2 ^ 63" and len: "Suc (length obs) < 2 ^ 32"
  shows "streak_inv (obs @ [(now, st, el)]) (snd (observe now st el p)) \<and>
    (fst (observe now st el p) \<longrightarrow>
      (\<exists>pre c. sampled (obs @ [(now, st, el)]) = pre @ c \<and> streak c \<and> 5 \<le> length c \<and> last c = (now, st, el)))"
proof -
  let ?o = "(now, st, el)" and ?S = "sampled obs"
  from inv obtain pre c where next_sample: "unat (next_sample_ms p) = (if ?S = [] then 0 else time_of (last ?S) + 500)"
    and c: "?S = pre @ c" "streak c" "unat (samples p) = length c" "c \<noteq> [] \<longrightarrow> unat (suspect_ms p) = time_of (hd c)"
    unfolding streak_inv_def by blast
  have lc: "length c \<le> length obs" using sampled_length [of obs] c(1) by simp
  have n500: "unat (now + 500) = unat now + 500" using now by (simp add: unat_add_bounded)
  show ?thesis
  proof (cases "now < next_sample_ms p")
    case True
    then have "unat now < (if ?S = [] then 0 else time_of (last ?S) + 500)"
      unfolding next_sample [symmetric] by (simp add: word_less_nat_alt)
    then have "sampled (obs @ [?o]) = ?S" by (auto simp: sampled_snoc take_sample_def split: if_splits)
    moreover have "observe now st el p = (False, p)" using True by (simp add: observe_def)
    ultimately show ?thesis using inv by (simp add: streak_inv_def)
  next
    case ge: False
    then have due: "unat (next_sample_ms p) \<le> unat now" by (simp add: word_less_nat_alt)
    then have S: "sampled (obs @ [?o]) = ?S @ [?o]"
      using next_sample by (auto simp: sampled_snoc take_sample_def split: if_splits)
    show ?thesis
    proof (cases "failed p \<or> \<not> bad ?o \<or> now < cooldown_until_ms p")
      case True
      then have "\<not> fst (observe now st el p) \<and> samples (snd (observe now st el p)) = 0 \<and>
          next_sample_ms (snd (observe now st el p)) = now + 500"
        using ge by (auto simp: observe_def Let_def bad_def kSampleMs_def)
      then show ?thesis using n500 by (auto simp: streak_inv_def S)
    next
      case go: False
      define reset where "reset = (next_sample_ms p \<noteq> 0 \<and> now > next_sample_ms p + 2 * kSampleMs)"
      define c' where "c' = (if reset then [] else c) @ [?o]"
      define pre' where "pre' = (if reset then ?S else pre)"
      define p3 where "p3 = (let p1 = (if reset then p\<lparr>samples := 0\<rparr> else p);
            p2 = p1\<lparr>next_sample_ms := now + kSampleMs\<rparr>
          in (if samples p2 = 0 then p2\<lparr>suspect_ms := now\<rparr> else p2)\<lparr>samples := samples p2 + 1\<rparr>)"
      have split: "?S @ [?o] = pre' @ c'" using c(1) by (simp add: pre'_def c'_def)
      have gap: "time_of (last c) + 500 \<le> unat now \<and> unat now \<le> time_of (last c) + 1500" if "c \<noteq> []" "\<not> reset"
      proof -
        have nx: "unat (next_sample_ms p) = time_of (last c) + 500" using next_sample c(1) that(1) by simp
        then have "unat (next_sample_ms p + 2 * kSampleMs) = unat (next_sample_ms p) + 1000"
          using now due by (simp add: kSampleMs_def unat_add_bounded)
        moreover have "next_sample_ms p \<noteq> 0" using nx by (auto simp: unat_eq_0)
        ultimately show ?thesis using that(2) nx due by (simp add: reset_def word_less_nat_alt)
      qed
      have s3: "streak c'" "c' \<noteq> []" "last c' = ?o"
      proof -
        have b: "bad ?o" using go by simp
        show "streak c'" "c' \<noteq> []" "last c' = ?o"
          using b gap c(2) by (cases "c = []"; simp add: c'_def streak_snoc)+
      qed
      have f3: "unat (samples p3) = length c'" "unat (suspect_ms p3) = time_of (hd c')"
        "unat (next_sample_ms p3) = unat now + 500"
      proof -
        have wrap: "unat (samples p + 1) = Suc (length c)"
          using c(3) lc len by (simp add: unat_add_bounded)
        have z: "samples p = 0 \<longleftrightarrow> c = []" using c(3) by (simp add: unat_eq_0 [symmetric])
        show "unat (samples p3) = length c'" "unat (suspect_ms p3) = time_of (hd c')"
          "unat (next_sample_ms p3) = unat now + 500"
          using wrap z c(4) n500 by (auto simp: p3_def c'_def Let_def kSampleMs_def)
      qed
      have obs: "observe now st el p =
          (if samples p3 < 5 \<or> now - suspect_ms p3 < kDebounceMs then (False, p3)
                else if recent_attempts p3 now \<ge> unat kMaxAttempts then (False, p3)
                else (True, p3\<lparr>attempts_ms := (attempts_ms p3)[unat (attempts p3 mod kMaxAttempts) := now],
                               attempts := attempts p3 + 1, cooldown_until_ms := now + kCooldownMs,
                               samples := 0\<rparr>))"
        using ge go by (simp add: observe_def p3_def reset_def Let_def bad_def del: One_nat_def)
      show ?thesis
      proof (cases "fst (observe now st el p)")
        case True
        then have "5 \<le> length c'" "samples (snd (observe now st el p)) = 0"
          "next_sample_ms (snd (observe now st el p)) = next_sample_ms p3"
          using f3(1) by (auto simp: obs word_less_nat_alt split: if_splits)
        moreover from this(2,3) have "streak_inv (obs @ [?o]) (snd (observe now st el p))"
          using f3(3) by (auto simp: streak_inv_def S)
        ultimately show ?thesis using s3 split unfolding S by blast
      next
        case False
        then have "snd (observe now st el p) = p3" by (auto simp: obs split: if_splits)
        moreover have "streak_inv (obs @ [?o]) p3"
          unfolding streak_inv_def S using s3 f3 split by (simp del: append_assoc) blast
        ultimately show ?thesis using False by simp
      qed
    qed
  qed
qed

lemma policy_streak_inv: "clock_ok obs \<Longrightarrow> streak_inv obs (fst (policy_run obs))"
proof (induction obs rule: rev_induct)
  case Nil
  then show ?case by (simp add: streak_inv_def sampled_def policy_run_def policy_init_def)
next
  case (snoc ob obs)
  obtain now st el where ob: "ob = (now, st, el)" by (cases ob)
  note c = clock_ok_snoc [OF snoc.prems]
  then show ?case
    using observe_streak [of obs "fst (policy_run obs)" now st el] snoc.IH ob
    by (simp add: policy_run_snoc policy_step_def Let_def split_beta)
qed

text \<open>
  C23: the recovery is debounced: a request is accepted only on the last of at least five samples in
  a row that are all eligible and all show the suspect history, 0.5 s to 1.5 s apart and spanning at
  least 2 s; a single bad reading, or one after a stalled main loop, never triggers.  In a row:
  \<open>sampled\<close> are all the samples taken, the good and the ineligible ones too, and the five are the end
  of it.
\<close>

theorem resync_debounced:
  assumes "clock_ok (obs @ [ob])" and "snd (policy_run (obs @ [ob])) \<noteq> snd (policy_run obs)"
  shows "\<exists>pre c. sampled (obs @ [ob]) = pre @ c \<and> streak c \<and> 5 \<le> length c \<and> last c = ob \<and>
    time_of (hd c) + 2000 \<le> time_of ob"
proof -
  obtain now st el where ob: "ob = (now, st, el)" by (cases ob)
  note k = clock_ok_snoc [OF assms(1)]
  have "fst (observe now st el (fst (policy_run obs)))"
    using assms(2) ob by (auto simp: policy_run_snoc policy_step_def Let_def split_beta split: if_splits)
  then obtain pre c where c: "sampled (obs @ [ob]) = pre @ c" "streak c" "5 \<le> length c" "last c = ob"
    using observe_streak [OF policy_streak_inv, of obs now st el] k ob by auto
  moreover have "time_of (hd c) + 500 * (length c - 1) \<le> time_of ob"
    using streak_span [OF c(2)] c(3,4) by fastforce
  ultimately show ?thesis by (intro exI [of _ pre] exI [of _ c]) auto
qed

theorem resync_debounced_witness:
  "\<exists>pre c. sampled (map faulty [1000, 1500, 2000, 2500] @ [faulty 3000]) = pre @ c \<and> streak c \<and> 5 \<le> length c \<and>
     last c = faulty 3000 \<and> time_of (hd c) + 2000 \<le> time_of (faulty 3000)"
  by (rule resync_debounced)
    (simp_all add: clock_ok_def policy_run_def policy_step_def policy_init_def faulty_def observe_def
        has_suspect_alignment_history_def recent_attempts_def k_defs Let_def)

section \<open>The reset of the output\<close>

text \<open>
  A request as it was tested: a test-only commit of it succeeded, and since then nothing was added to
  it and no new request got its handle.
\<close>

fun tested_as_is :: "int \<Rightarrow> drm_call event list \<Rightarrow> bool" where
  "tested_as_is q [] = False"
| "tested_as_is q ((AtomicCommit q' True, r) # tr) = (q' = q \<and> fst r = 0 \<or> tested_as_is q tr)"
| "tested_as_is q ((AtomicAdd q' obj prop v, r) # tr) = (q' \<noteq> q \<and> tested_as_is q tr)"
| "tested_as_is q ((AtomicAlloc, r) # tr) = (fst r \<noteq> q \<and> tested_as_is q tr)"
| "tested_as_is q (e # tr) = tested_as_is q tr"

text \<open>
  The roll-back, the one commit that is not: right after a real commit has failed, one value was
  added to a request that had been tested, and that value is the blob the output had before.
\<close>

definition mode_read :: "int \<Rightarrow> drm_call event list \<Rightarrow> bool" where
  "mode_read v tr \<longleftrightarrow> (\<exists>m. (GetBlob v, 0, m) \<in> set tr)"

fun rolls_back :: "int \<Rightarrow> drm_call event list \<Rightarrow> bool" where
  "rolls_back q ((AtomicAdd q1 obj prop v, r) # (AtomicCommit q2 False, r') # tr) =
     (q1 = q \<and> 0 \<le> fst r \<and> fst r' \<noteq> 0 \<and> mode_read v tr \<and> tested_as_is q tr)"
| "rolls_back q tr = False"

fun commit_safe :: "drm_call event list \<Rightarrow> bool" where
  "commit_safe [] = True"
| "commit_safe ((AtomicCommit q False, r) # tr) = ((tested_as_is q tr \<or> rolls_back q tr) \<and> commit_safe tr)"
| "commit_safe (e # tr) = commit_safe tr"

definition drm_good :: "drm_res list \<Rightarrow> ultra \<Rightarrow> bool" where
  "drm_good held c \<longleftrightarrow> drm_live (trace c) = Some held \<and> commit_safe (trace c)"

text \<open>Programs that commit nothing untested and leak nothing; what was read stays read.\<close>

definition neutral_rel :: "ultra \<Rightarrow> ultra \<Rightarrow> bool" where
  "neutral_rel s t \<longleftrightarrow> (\<forall>held. drm_good held s \<longrightarrow> drm_good held t) \<and> (\<forall>v. mode_read v (trace s) \<longrightarrow> mode_read v (trace t))"

abbreviation neutral :: "'a ud \<Rightarrow> bool" where "neutral \<equiv> stays neutral_rel"

interpretation neutral: step_relation neutral_rel
  by unfold_locales (auto simp: neutral_rel_def)

lemmas neutral_ret = neutral.ret
lemmas neutral_get = neutral.get
lemmas neutral_bind = neutral.bind

lemma mode_read_Cons: "mode_read v tr \<Longrightarrow> mode_read v (e # tr)"
  by (auto simp: mode_read_def)

lemma neutral_call:
  "drm_rel q = None \<Longrightarrow> (\<And>r. drm_acq q r = None) \<Longrightarrow> (\<And>x. q \<noteq> AtomicCommit x False) \<Longrightarrow> neutral (call api q)"
  by (cases q) (auto simp: stays_def wp_call neutral_rel_def drm_good_def mode_read_Cons)

lemma neutral_modify: "(\<And>c. trace (f c) = trace c) \<Longrightarrow> neutral (modify f)"
  by (simp add: stays_def wp_rules neutral_rel_def drm_good_def)

lemma neutral_property_id: "neutral (drm_property_id api pname obj kind name)"
  unfolding drm_property_id_def by (intro neutral_bind neutral_call neutral_ret) auto

lemma neutral_property_value: "neutral (drm_property_value api pname obj kind name)"
  unfolding drm_property_value_def by (intro neutral_bind neutral_property_id neutral_call neutral_ret) auto

lemmas neutral_intros = neutral_ret neutral_get neutral_bind neutral_property_id neutral_property_value
  neutral_call neutral_modify

lemma neutral_expected: "neutral (output_as_expected api pname)"
  unfolding output_as_expected_def by (auto intro!: neutral_intros)

lemma neutral_all_ok: "(\<And>x. x \<in> set xs \<Longrightarrow> neutral (act x)) \<Longrightarrow> neutral (all_ok xs act)"
  by (induction xs) (auto intro!: neutral_intros)

text \<open>A state of the reset: it is good, and the mode to go back to was read.\<close>

definition resets :: "drm_res list \<Rightarrow> int \<Rightarrow> ultra \<Rightarrow> bool" where
  "resets held v c \<longleftrightarrow> drm_good held c \<and> mode_read v (trace c)"

lemma neutral_resets: "neutral m \<Longrightarrow> resets held v s \<Longrightarrow> wp m (\<lambda>_. resets held v) s"
  by (auto simp: stays_def neutral_rel_def resets_def intro: wp_conseq)

lemma neutral_step:
  assumes "neutral m" and "resets held v s" and "\<And>x t. resets held v t \<Longrightarrow> wp (f x) Q t"
  shows "wp (State_Monad.bind m f) Q s"
  unfolding wp_bind by (rule wp_conseq [OF neutral_resets [OF assms(1,2)]]) (rule assms(3))

abbreviation tested :: "int \<Rightarrow> ultra \<Rightarrow> bool" where
  "tested q c \<equiv> tested_as_is q (trace c)"

lemma commit_pair_test:
  "resets held v s \<Longrightarrow>
     wp (commit_pair api a b True) (\<lambda>ok t. resets held v t \<and> (ok \<longrightarrow> tested a t \<and> tested b t)) s"
  by (auto simp: commit_pair_def wp_rules wp_call resets_def drm_good_def mode_read_Cons)

text \<open>When a real commit of the pair fails, it is the last call.\<close>

fun just_failed :: "drm_call event list \<Rightarrow> bool" where
  "just_failed ((AtomicCommit q False, r) # tr) = (fst r \<noteq> 0)"
| "just_failed tr = False"

lemma commit_pair_real:
  "resets held v s \<Longrightarrow> tested a s \<Longrightarrow> tested b s \<Longrightarrow>
     wp (commit_pair api a b False) (\<lambda>ok t. resets held v t \<and> tested a t \<and> tested b t \<and>
       (\<not> ok \<longrightarrow> just_failed (trace t) \<and> tested b (t\<lparr>trace := tl (trace t)\<rparr>) \<and> mode_read v (tl (trace t)))) s"
  by (auto simp: commit_pair_def wp_rules wp_call resets_def drm_good_def mode_read_Cons)

lemma just_failed_cases:
  assumes "just_failed tr"
  obtains q r tr' where "tr = (AtomicCommit q False, r) # tr'" and "fst r \<noteq> 0"
  using assms by (cases tr rule: just_failed.cases) auto

lemma wp_roll_back:
  assumes "resets held v s" and "just_failed (trace s)" and "tested on (s\<lparr>trace := tl (trace s)\<rparr>)"
    and "mode_read v (tl (trace s))"
  shows "wp (do { r \<leftarrow> call api (AtomicAdd on crtc prop v);
     if fst r < 0 then ret () else do { call api (AtomicCommit on False); ret () } }) (\<lambda>_. drm_good held) s"
proof -
  obtain q r tr where tr: "trace s = (AtomicCommit q False, r) # tr" "fst r \<noteq> 0"
    using assms(2) by (rule just_failed_cases)
  show ?thesis
    using assms(1,3,4) tr by (auto simp: wp_rules wp_call resets_def drm_good_def not_less)
qed

lemma commit_phase:
  assumes "resets held v s" and "tested off s" and "tested on s"
  shows "wp (do { ok3 \<leftarrow> commit_pair api off on False;
       (if \<not> ok3 then do {
          r \<leftarrow> call api (AtomicAdd on crtc prop v);
          if fst r < 0 then ret () else do { call api (AtomicCommit on False); ret () } }
        else ret ());
       ret ok3 }) (\<lambda>_ t. drm_good held t) s"
  unfolding wp_bind [of "commit_pair api off on False"]
proof (rule wp_conseq [OF commit_pair_real [OF assms]], goal_cases)
  case (1 ok t)
  show ?case
  proof (cases ok)
    case True
    then show ?thesis using 1 by (simp add: wp_rules resets_def)
  next
    case False
    have "wp (do { r \<leftarrow> call api (AtomicAdd on crtc prop v);
        if fst r < 0 then ret () else do { call api (AtomicCommit on False); ret () } }) (\<lambda>_. drm_good held) t"
      by (rule wp_roll_back) (use 1 False in auto)
    then show ?thesis unfolding wp_bind [of "if \<not> ok then _ else _"] wp_return using False by simp
  qed
qed

lemma test_phase:
  assumes "resets held v s"
  shows "wp (do { ok2 \<leftarrow> (if ok1 then commit_pair api on off True else ret False);
     if ok2 then do {
       ok3 \<leftarrow> commit_pair api off on False;
       (if \<not> ok3 then do {
          r \<leftarrow> call api (AtomicAdd on crtc prop v);
          if fst r < 0 then ret () else do { call api (AtomicCommit on False); ret () } }
        else ret ());
       ret ok3 }
     else ret False }) (\<lambda>_ t. drm_good held t) s"
proof -
  have "wp (if ok1 then commit_pair api on off True else ret False)
      (\<lambda>ok t. resets held v t \<and> (ok \<longrightarrow> tested on t \<and> tested off t)) s"
    using assms by (simp add: commit_pair_test wp_return)
  then show ?thesis
    unfolding wp_bind [of "if ok1 then commit_pair api on off True else ret False"]
    by (rule wp_conseq) (auto simp: wp_return resets_def intro!: commit_phase)
qed

lemma reset_good:
  assumes "resets held mode_id s"
  shows "wp (reset_output api pname mode_id blob) (\<lambda>_ t. drm_good held t) s"
proof -
  have adds: "neutral (if x then all_ok ys (\<lambda>q. do { r \<leftarrow> call api q; ret (fst r \<ge> 0) }) else ret False)"
    if "set ys \<subseteq> {q. \<exists>a b c d. q = AtomicAdd a b c d}" for x ys
    using that by (auto intro!: neutral_intros neutral_all_ok)
  have alloc: "neutral (call api AtomicAlloc)" by (rule neutral_call) auto
  show ?thesis
    unfolding reset_output_def Let_def
    by (rule neutral_step [OF neutral_get assms], rule neutral_step [OF alloc], assumption,
        rule neutral_step [OF alloc], assumption, rule neutral_step [OF neutral_property_id], assumption,
        rule neutral_step [OF neutral_property_id], assumption, rule neutral_step [OF neutral_property_id], assumption,
        rule neutral_step [OF adds], force, assumption, erule test_phase)
qed

lemma new_blob_good:
  assumes good: "resets held mode_id s"
  shows "wp (do {
      b \<leftarrow> call api (CreateBlob bytes);
      if fst b \<noteq> 0 then ret False
      else do {
        ok \<leftarrow> reset_output api pname mode_id (outp b 0);
        call api (DestroyBlob (outp b 0));
        ret ok } }) (\<lambda>_. drm_good held) s"
proof -
  define b where "b = api (trace s) (CreateBlob bytes)"
  let ?s = "s\<lparr>trace := (CreateBlob bytes, b) # trace s\<rparr>"
  have fin: "wp (call api (DestroyBlob (outp b 0)) \<bind> (\<lambda>_. ret ok)) (\<lambda>_ t. drm_good held t) t"
    if "drm_good (D_blob (outp b 0) # held) t" for t ok
    using that by (simp add: wp_rules wp_call drm_good_def)
  have go: "wp (reset_output api pname mode_id (outp b 0))
      (\<lambda>ok. wp (call api (DestroyBlob (outp b 0)) \<bind> (\<lambda>_. ret ok)) (\<lambda>_ t. drm_good held t)) ?s" if "fst b = 0"
  proof (rule wp_conseq [OF reset_good])
    show "resets (D_blob (outp b 0) # held) mode_id ?s"
      using good that by (simp add: resets_def drm_good_def mode_read_Cons)
  qed (rule fin)
  show ?thesis
    unfolding wp_bind [of "call api (CreateBlob bytes)"] wp_call b_def [symmetric]
    using go good by (auto simp: wp_bind [of "reset_output api pname mode_id (outp b 0)"] wp_return resets_def)
      (simp add: drm_good_def)
qed

lemma reinitialize_good:
  assumes "drm_good held s"
  shows "wp (reinitialize_sdi_output api pname enc) (\<lambda>_. drm_good held) s"
proof -
  have old: "wp (do {
         old \<leftarrow> call api (GetBlob mode_id);
         if fst old \<noteq> 0 \<or> snd old \<noteq> image \<or> \<not> b then ret False
         else do {
           b \<leftarrow> call api (CreateBlob (snd old));
           if fst b \<noteq> 0 then ret False
           else do {
             ok \<leftarrow> reset_output api pname mode_id (outp b 0);
             call api (DestroyBlob (outp b 0));
             ret ok } } }) (\<lambda>_. drm_good held) t" if t: "drm_good held t" for t mode_id image b
  proof -
    define r where "r = api (trace t) (GetBlob mode_id)"
    let ?t = "t\<lparr>trace := (GetBlob mode_id, r) # trace t\<rparr>"
    have g: "drm_good held ?t" using t by (simp add: drm_good_def)
    have "resets held mode_id ?t" if "fst r = 0"
      using g that by (cases r) (auto simp: resets_def mode_read_def)
    then show ?thesis
      unfolding wp_bind [of "call _ (GetBlob _)"] wp_call r_def [symmetric]
      using g by (auto simp: wp_return intro!: new_blob_good)
  qed
  have "wp (output_as_expected api pname) (\<lambda>_. drm_good held) s"
    by (rule wp_conseq [OF neutral_expected [unfolded stays_def, rule_format]]) (use assms in \<open>simp add: neutral_rel_def\<close>)
  then show ?thesis
    unfolding reinitialize_sdi_output_def wp_bind [of "output_as_expected _ _"]
  proof (rule wp_conseq, goal_cases)
    case (1 m t)
    show ?case
    proof (cases m)
      case (Some a)
      then show ?thesis
        using old [OF 1, of a "enc (current_mode t)" "is_sdi_mode (current_mode t)"]
        by (simp add: wp_bind [of State_Monad.get] wp_get)
    qed (use 1 in \<open>simp add: wp_return\<close>)
  qed
qed

lemma poll_good:
  assumes "drm_good held s"
  shows "wp (poll_sdi_resync api pname enc now_ms) (\<lambda>_. drm_good held) s"
proof -
  have keep: "wp m (\<lambda>_. drm_good held) t" if "neutral m" "drm_good held t" for t and m :: "'b ud"
    by (rule wp_conseq [OF that(1) [unfolded stays_def, rule_format]]) (use that(2) in \<open>simp add: neutral_rel_def\<close>)
  have read: "neutral (read_sdi_resync_status api)"
    unfolding read_sdi_resync_status_def by (auto intro!: neutral_intros)
  have requested: "wp (on_sdi_resync_requested api pname enc) (\<lambda>_. drm_good held) t" if "drm_good held t" for t
    unfolding on_sdi_resync_requested_def wp_bind [of "reinitialize_sdi_output _ _ _"]
    by (rule wp_conseq [OF reinitialize_good [OF that]]) (auto intro!: keep neutral_intros read)
  have rest: "wp (do {
       modify (\<lambda>c. c\<lparr>sdi_last_status := status\<rparr>);
       let eligible = el;
       let (req, p) = observe now_ms status eligible pol;
       modify (\<lambda>c. c\<lparr>sdi_resync := p\<rparr>);
       if req then on_sdi_resync_requested api pname enc else ret () }) (\<lambda>_. drm_good held) t"
    if "drm_good held t" for t status el pol
    using that requested
    by (auto simp: Let_def wp_bind [of "modify _"] wp_modify wp_return drm_good_def split: prod.split)
  show ?thesis
    unfolding poll_sdi_resync_def wp_bind [of State_Monad.get] wp_get wp_if wp_return wp_bind [of "read_sdi_resync_status _"]
    using assms by (auto intro!: wp_conseq [OF keep [OF read assms]] rest [unfolded Let_def])
qed

text \<open>
  C24: a poll of the watchdog never leaks a mode blob and never commits blindly: whatever the DRM
  driver answers, the live kernel objects after \<open>poll_sdi_resync\<close> are those before it, and every real
  atomic commit is of a request that a test-only commit has accepted and that nothing was added to
  since.  The one exception is the roll-back after a real commit has failed: it adds one value to a
  tested request, and that value is the mode blob the output had before the reset.
\<close>

theorem resync_poll_safe:
  assumes "drm_live (trace c) = Some held" and "commit_safe (trace c)"
  shows "wp (poll_sdi_resync api pname enc now_ms) (\<lambda>_ t. drm_live (trace t) = Some held \<and> commit_safe (trace t)) c"
  by (rule wp_conseq [OF poll_good [where held = held]]) (use assms in \<open>auto simp: drm_good_def\<close>)

definition no_format :: video_format where
  "no_format = \<lparr>vf_width = 0, vf_height = 0, vf_framerate = 0, colorformat = YUV444, vf_interlaced = False,
     locked = False\<rparr>"

definition no_audio_info :: audio_info where
  "no_audio_info = \<lparr>ai_channel_count = 0, ai_speaker_map = 0, ai_level_shift_value = 0,
     ai_downmix_inhibit = False, ai_lfe_playback_level = 0, ai_sample_rate = 0, ai_encoding = 0, ai_sample_bits = 0\<rparr>"

definition ultra_init :: ultra where
  "ultra_init = \<lparr>trace = [], drm_fd = 3, connector = 2, crtc_id = 1, primary_plane_id = 3, primary_fb_id = 4,
     primary_bo_handle = 7, overlay_plane_id = 5, overlay_fb_id = 6, overlay_bo_handle = 8, mode_blob_id = 9,
     modeset_active = True, overlay_active = True, avh_active = False,
     current_mode = \<lparr>clock = 148500, hdisplay = 1920, htotal = 2200, vdisplay = 1080, vtotal = 1125,
       vrefresh = 60, flags = 0, mode_rest = []\<rparr>,
     current_video_format = no_format, last_locked_video_format = no_format, ultra_overlay_format = 0x34324742,
     fixed_mode_override = False, force_dante_source = False, fixed_width = 3840, fixed_height = 2160,
     fixed_fps = 60, have_last_audio_info = False, last_audio_info = no_audio_info, format_changes = 0,
     sdi_status_map = True, sdi_last_status = - 1, sdi_resync = policy_init\<rparr>"

theorem resync_poll_safe_witness:
  "wp (poll_sdi_resync (\<lambda>tr q. (0, [])) (\<lambda>_. None) (\<lambda>_. []) 1000)
     (\<lambda>_ t. drm_live (trace t) = Some [] \<and> commit_safe (trace t)) ultra_init"
  by (rule resync_poll_safe) (simp_all add: ultra_init_def)

text \<open>
  C31: after a failed recovery the watchdog stays off: once a reset was refused or its commit
  failed, every later poll leaves the whole state unchanged and makes no call at all.
\<close>

theorem resync_failure_latches:
  assumes "\<not> fst (run_state (reinitialize_sdi_output api pname enc) c)"
  shows "run_state (poll_sdi_resync api' pname' enc' now_ms)
      (snd (run_state (on_sdi_resync_requested api pname enc) c)) =
    ((), snd (run_state (on_sdi_resync_requested api pname enc) c))"
  using assms
  by (simp add: poll_sdi_resync_def on_sdi_resync_requested_def read_sdi_resync_status_def split_beta)

theorem resync_failure_latches_witness:
  "run_state (poll_sdi_resync (\<lambda>tr q. (0, [])) (\<lambda>_. None) (\<lambda>_. []) 1000)
      (snd (run_state (on_sdi_resync_requested (\<lambda>tr q. (- 1, [])) (\<lambda>_. None) (\<lambda>_. [])) ultra_init)) =
    ((), snd (run_state (on_sdi_resync_requested (\<lambda>tr q. (- 1, [])) (\<lambda>_. None) (\<lambda>_. [])) ultra_init))"
  by (rule resync_failure_latches)
    (simp add: reinitialize_sdi_output_def output_as_expected_def drm_property_value_def drm_property_id_def)

end
