(* ===== verification/Button.thy ===== *)
theory Button
  imports Prelude "HOL-Library.Sublist"
begin

text \<open>
  src/include/sc6f0_button.h, src/tools/sc6f0_button.c and the monitor loop of
  src/tools/sc6f0_button_demo.c.  What the kernel returns (directory entries, key bits, reads)
  is an argument; a negative \<open>errno\<close> is the value the C functions return.
\<close>

section \<open>The library\<close>

definition SC6F0_BTN_COUNT :: int where "SC6F0_BTN_COUNT = 5"
definition SC6F0_BTN_UNKNOWN :: int where "SC6F0_BTN_UNKNOWN = - 1"
definition SC6F0_KEY_CODE_BTN_0 :: nat where "SC6F0_KEY_CODE_BTN_0 = 0x100"

lemmas btn_consts = SC6F0_BTN_COUNT_def SC6F0_BTN_UNKNOWN_def SC6F0_KEY_CODE_BTN_0_def

definition k_button_names :: "string list" where
  "k_button_names = [''sw0'', ''sw1'', ''sw2'', ''sw3'', ''sw4'']"

definition sc6f0_button_name :: "int \<Rightarrow> string" where
  "sc6f0_button_name i = (if i \<ge> 0 \<and> i < SC6F0_BTN_COUNT then k_button_names ! nat i else ''unknown'')"

definition code_to_id :: "u16 \<Rightarrow> int" where
  "code_to_id code =
     (if code = 0x100 then 0 else if code = 0x101 then 1 else if code = 0x102 then 2
      else if code = 0x103 then 3 else if code = 0x104 then 4 else SC6F0_BTN_UNKNOWN)"

text \<open>
  \<open>auto_detect_device\<close>: the entries of /sys/class/input with the content of their name file
  (\<open>None\<close>: it cannot be opened or is empty), and whether /dev/input/event0 is readable.
\<close>

fun detect_entry :: "(string \<times> string option) list \<Rightarrow> string option" where
  "detect_entry [] = None"
| "detect_entry ((d_name, name_buf) # des) =
     (if \<not> prefix ''event'' d_name then detect_entry des
      else case name_buf of
        None \<Rightarrow> detect_entry des
      | Some nm \<Rightarrow> if sublist ''gpio-keys'' nm then Some (''/dev/input/'' @ take 100 d_name)
                   else detect_entry des)"

definition auto_detect_device :: "(string \<times> string option) list option \<Rightarrow> bool \<Rightarrow> int + string" where
  "auto_detect_device dir event0 =
     (case dir of
        None \<Rightarrow> Inl (- ENOENT)
      | Some des \<Rightarrow>
          (case detect_entry des of
             Some path \<Rightarrow> Inr path
           | None \<Rightarrow> if event0 then Inr ''/dev/input/event0'' else Inl (- ENOENT)))"

text \<open>\<open>open_dev\<close> is \<open>open(2)\<close>: a descriptor, or minus the error number.\<close>

definition sc6f0_button_open ::
    "(string \<Rightarrow> int) \<Rightarrow> (string \<times> string option) list option \<Rightarrow> bool \<Rightarrow> string option \<Rightarrow> int" where
  "sc6f0_button_open open_dev dir event0 dev_path =
     (case dev_path of
        Some target \<Rightarrow> open_dev target
      | None \<Rightarrow>
          (case auto_detect_device dir event0 of
             Inl e \<Rightarrow> e
           | Inr target \<Rightarrow> open_dev target))"

text \<open>\<open>key_bits\<close> is the bit array of the ioctl, or its error; \<open>KEY_MAX\<close> is 0x2ff.\<close>

definition states_of :: "u8 list \<Rightarrow> u8" where
  "states_of key_bits =
     fold (\<lambda>i mask.
        let code = SC6F0_KEY_CODE_BTN_0 + i; byte_idx = code div 8; bit_idx = code mod 8
        in if key_bits ! byte_idx AND push_bit bit_idx 1 \<noteq> 0 then mask OR push_bit i 1 else mask)
       [0 ..< 5] 0"

definition sc6f0_button_get_states :: "int \<Rightarrow> bool \<Rightarrow> int + u8 list \<Rightarrow> int + u8" where
  "sc6f0_button_get_states fd have_mask ioctl =
     (if fd < 0 \<or> \<not> have_mask then Inl (- EINVAL)
      else case ioctl of Inl err \<Rightarrow> Inl (- err) | Inr key_bits \<Rightarrow> Inr (states_of key_bits))"

record input_event =
  ev_type :: u16
  ev_code :: u16
  ev_value :: int
  tv_sec :: int
  tv_usec :: int

record sc6f0_button_event =
  btn_id :: int
  btn_name :: string
  linux_code :: u16
  action :: int
  timestamp_us :: u64

definition EV_KEY :: u16 where "EV_KEY = 1"

definition button_event :: "input_event \<Rightarrow> sc6f0_button_event" where
  "button_event ev = \<lparr>btn_id = code_to_id (ev_code ev), btn_name = sc6f0_button_name (code_to_id (ev_code ev)),
     linux_code = ev_code ev, action = ev_value ev,
     timestamp_us = of_int (tv_sec ev) * 1000000 + of_int (tv_usec ev)\<rparr>"

text \<open>
  The read loop over the results of \<open>read(2)\<close>: an error number, a short read or an event.
  \<open>None\<close>: the loop is still reading.
\<close>

datatype read_result = R_errno int | R_short | R_event input_event
datatype button_result = B_error int | B_none | B_event sc6f0_button_event

fun read_loop :: "read_result list \<Rightarrow> button_result option" where
  "read_loop [] = None"
| "read_loop (R_errno e # rs) = Some (if e = EAGAIN then B_none else B_error (- e))"
| "read_loop (R_short # rs) = Some (B_error (- EIO))"
| "read_loop (R_event ev # rs) =
     (if ev_type ev = EV_KEY \<and> code_to_id (ev_code ev) \<noteq> SC6F0_BTN_UNKNOWN
      then Some (B_event (button_event ev)) else read_loop rs)"

text \<open>\<open>poll_ret\<close> is the result of \<open>poll\<close>, minus the error number on failure.\<close>

definition sc6f0_button_read_event :: "int \<Rightarrow> bool \<Rightarrow> int \<Rightarrow> read_result list \<Rightarrow> button_result option" where
  "sc6f0_button_read_event fd have_event poll_ret reads =
     (if fd < 0 \<or> \<not> have_event then Some (B_error (- EINVAL))
      else if poll_ret < 0 then Some (B_error poll_ret)
      else if poll_ret = 0 then Some B_none
      else read_loop reads)"

section \<open>The monitor\<close>

datatype monitor_line = Pressed string u64 | Released string u64 u64   \<comment> \<open>with the time held\<close>

definition monitor_event :: "sc6f0_button_event \<Rightarrow> u64 list \<Rightarrow> monitor_line list \<times> u64 list" where
  "monitor_event ev press_times =
     (let i = nat (btn_id ev) in
      if action ev = 1 then ([Pressed (btn_name ev) (timestamp_us ev)], press_times[i := timestamp_us ev])
      else if action ev = 0 then
        if press_times ! i > 0
        then ([Released (btn_name ev) (timestamp_us ev) (timestamp_us ev - press_times ! i)], press_times[i := 0])
        else ([Released (btn_name ev) (timestamp_us ev) 0], press_times)
      else ([], press_times))"

fun button_monitor :: "button_result list \<Rightarrow> u64 list \<Rightarrow> monitor_line list" where
  "button_monitor [] press_times = []"
| "button_monitor (B_error e # rs) press_times = []"
| "button_monitor (B_none # rs) press_times = button_monitor rs press_times"
| "button_monitor (B_event ev # rs) press_times =
     (case monitor_event ev press_times of (out, pt) \<Rightarrow> out @ button_monitor rs pt)"

text \<open>The descriptors \<open>sc6f0_button_close\<close> closes.\<close>

definition sc6f0_button_close :: "int \<Rightarrow> int list" where
  "sc6f0_button_close fd = (if fd \<ge> 0 then [fd] else [])"

text \<open>
  \<open>main\<close> of the demo: the exit status, the table of the initial states (empty when they cannot be
  read), the lines of the monitor and the descriptors closed.  \<open>fd\<close> is the result of the open,
  \<open>ioctl\<close> that of the state query, \<open>rs\<close> the results of the reads until the signal arrives.
\<close>

definition state_table :: "u8 \<Rightarrow> (string \<times> bool) list" where
  "state_table states = map (\<lambda>i. (sc6f0_button_name (int i), states AND push_bit i 1 \<noteq> 0)) [0 ..< 5]"

definition button_demo ::
  "int \<Rightarrow> int + u8 list \<Rightarrow> button_result list \<Rightarrow> int \<times> (string \<times> bool) list \<times> monitor_line list \<times> int list" where
  "button_demo fd ioctl rs =
     (if fd < 0 then (1, [], [], [])
      else
        let table = (case sc6f0_button_get_states fd True ioctl of Inl _ \<Rightarrow> [] | Inr states \<Rightarrow> state_table states)
        in (0, table, button_monitor rs (replicate 5 0), sc6f0_button_close fd))"

section \<open>Properties\<close>

lemma code_to_id_range: "code_to_id c \<noteq> SC6F0_BTN_UNKNOWN \<Longrightarrow> 0 \<le> code_to_id c \<and> code_to_id c < 5"
  by (auto simp: code_to_id_def)

lemma code_to_id_iff: "code_to_id c = int i \<and> i < 5 \<longleftrightarrow> unat c = 0x100 + i \<and> i < 5"
proof -
  have *: "c = of_nat n \<longleftrightarrow> unat c = n" if "n < 2 ^ 16" for n
    using that by (auto simp: unat_of_nat_bounded)
  show ?thesis
    using * [of "0x100"] * [of "0x101"] * [of "0x102"] * [of "0x103"] * [of "0x104"]
    by (auto simp: code_to_id_def SC6F0_BTN_UNKNOWN_def)
qed

lemma and_power_bit: "w AND 2 ^ k = 0 \<longleftrightarrow> \<not> bit (w :: u8) k"
  by (simp add: bit_iff_and_push_bit_not_eq_0)

lemma states_fold_bit:
  assumes "n \<le> 8"
  shows "bit (fold (\<lambda>i mask.
        let code = SC6F0_KEY_CODE_BTN_0 + i; byte_idx = code div 8; bit_idx = code mod 8
        in if key_bits ! byte_idx AND push_bit bit_idx 1 \<noteq> 0 then mask OR push_bit i 1 else mask)
       [0 ..< n] (0 :: u8)) j \<longleftrightarrow> j < n \<and> bit ((key_bits :: u8 list) ! ((0x100 + j) div 8)) ((0x100 + j) mod 8)"
  using assms
proof (induction n)
  case (Suc n)
  then show ?case
    by (auto simp: Let_def SC6F0_KEY_CODE_BTN_0_def bit_simps less_Suc_eq and_power_bit)
qed simp

lemma states_of_bit:
  "bit (states_of key_bits) i \<longleftrightarrow> i < 5 \<and> bit (key_bits ! ((0x100 + i) div 8)) ((0x100 + i) mod 8)"
  unfolding states_of_def by (rule states_fold_bit) simp

text \<open>
  The state mask is exact: bit \<open>i\<close> of the result is set exactly when \<open>i\<close> is one of the five
  buttons and the kernel's key bit of its Linux code 0x100 + i is set; the three high bits are
  always clear.
\<close>

theorem button_states_exact:
  "bit (states_of key_bits) i \<longleftrightarrow> i < 5 \<and> bit (key_bits ! ((0x100 + i) div 8)) ((0x100 + i) mod 8)"
  by (rule states_of_bit)

text \<open>So the table of the demo shows a button as pressed exactly when the kernel does.\<close>

lemma state_table_exact:
  "state_table (states_of key_bits) =
     map (\<lambda>i. (k_button_names ! i, bit (key_bits ! ((0x100 + i) div 8)) ((0x100 + i) mod 8))) [0 ..< 5]"
  by (simp add: state_table_def sc6f0_button_name_def SC6F0_BTN_COUNT_def and_power_bit states_of_bit)

text \<open>Events of the buttons, and the first of them.\<close>

definition is_button_event :: "read_result \<Rightarrow> bool" where
  "is_button_event r = (case r of R_event ev \<Rightarrow> ev_type ev = EV_KEY \<and> code_to_id (ev_code ev) \<noteq> SC6F0_BTN_UNKNOWN
     | _ \<Rightarrow> False)"

definition is_other_event :: "read_result \<Rightarrow> bool" where
  "is_other_event r = (case r of R_event ev \<Rightarrow> \<not> is_button_event r | _ \<Rightarrow> False)"

text \<open>
  Reading an event: the loop skips exactly the events that are not of the five buttons and
  returns on the first other result: the first button event with its identifier in range, its
  name and code, no event when the queue is empty, and otherwise the error.
\<close>

theorem button_read_spec:
  "read_loop rs =
     (case dropWhile is_other_event rs of
        [] \<Rightarrow> None
      | R_errno e # _ \<Rightarrow> Some (if e = EAGAIN then B_none else B_error (- e))
      | R_short # _ \<Rightarrow> Some (B_error (- EIO))
      | R_event ev # _ \<Rightarrow> Some (B_event (button_event ev)))"
  by (induction rs rule: read_loop.induct)
    (auto simp: is_other_event_def is_button_event_def)

lemma read_loop_event:
  "read_loop rs = Some (B_event b) \<Longrightarrow>
     \<exists>i < 5. btn_id b = int i \<and> unat (linux_code b) = 0x100 + i \<and> btn_name b = k_button_names ! i"
proof (induction rs rule: read_loop.induct)
  case (4 ev rs)
  show ?case
  proof (cases "ev_type ev = EV_KEY \<and> code_to_id (ev_code ev) \<noteq> SC6F0_BTN_UNKNOWN")
    case True
    then have b: "b = button_event ev" using 4 by simp
    obtain i where i: "code_to_id (ev_code ev) = int i" "i < 5"
      using code_to_id_range [of "ev_code ev"] True by (metis nonneg_int_cases of_nat_less_numeral_iff)
    then have "unat (ev_code ev) = 0x100 + i" using code_to_id_iff by blast
    with i b show ?thesis
      by (auto simp: button_event_def sc6f0_button_name_def SC6F0_BTN_COUNT_def intro!: exI [of _ i])
  next
    case False
    then show ?thesis using 4 by auto
  qed
qed (auto split: if_splits)

text \<open>
  C39: a returned event is one of the five buttons: its identifier is between 0 and 4, its code
  is 0x100 plus the identifier and its name is the one of the table, so that indexing by the
  identifier is in range.
\<close>

theorem button_event_in_range:
  assumes "sc6f0_button_read_event fd have_event poll_ret reads = Some (B_event b)"
  shows "\<exists>i < 5. btn_id b = int i \<and> unat (linux_code b) = 0x100 + i \<and> btn_name b = k_button_names ! i"
  using assms read_loop_event by (auto simp: sc6f0_button_read_event_def split: if_splits)

theorem button_event_in_range_witness:
  "\<exists>i < 5. btn_id (button_event \<lparr>ev_type = 1, ev_code = 0x102, ev_value = 1, tv_sec = 1, tv_usec = 5\<rparr>) = int i \<and>
     unat (linux_code (button_event \<lparr>ev_type = 1, ev_code = 0x102, ev_value = 1, tv_sec = 1, tv_usec = 5\<rparr>)) = 0x100 + i \<and>
     btn_name (button_event \<lparr>ev_type = 1, ev_code = 0x102, ev_value = 1, tv_sec = 1, tv_usec = 5\<rparr>) = k_button_names ! i"
  by (rule button_event_in_range [of 3 True 1
        "[R_event \<lparr>ev_type = 1, ev_code = 0x102, ev_value = 1, tv_sec = 1, tv_usec = 5\<rparr>]"])
    (simp add: sc6f0_button_read_event_def EV_KEY_def code_to_id_def SC6F0_BTN_UNKNOWN_def)

end
