(* ===== verification/Udptest.thy ===== *)
theory Udptest
  imports Prelude
begin

text \<open>
  src/tools/udptest.c: the parsing of the arguments, the packets of the sender and the
  accounting of the receiver.  The clock and the socket are arguments: the sender takes the
  results of \<open>socket\<close>, \<open>inet_pton\<close> and \<open>connect\<close> and the list of the times at which its loop
  runs with the results of \<open>send\<close>; the receiver takes the results of \<open>socket\<close>, \<open>inet_pton\<close>
  and \<open>bind\<close> and the list of what \<open>poll\<close> and \<open>recvfrom\<close> yield until the deadline.  The period
  \<open>interval_ns\<close> is computed from the rate in floating point and is an argument here; the
  floating-point rates that are printed are not shown.
\<close>

section \<open>Arguments\<close>

definition MAX_PAYLOAD :: nat where "MAX_PAYLOAD = 4096"

text \<open>
  \<open>strtol(s, &end, 10)\<close>: the value, saturated to a 64-bit \<open>long\<close>, and what is left; nothing is
  consumed when there is no digit.
\<close>

definition digits_val :: "string \<Rightarrow> int" where
  "digits_val ds = foldl (\<lambda>v c. v * 10 + (of_char c - 48)) 0 ds"

definition sat64 :: "int \<Rightarrow> int" where
  "sat64 v = max (- (2 ^ 63)) (min (2 ^ 63 - 1) v)"

definition strtol10 :: "string \<Rightarrow> int \<times> string" where
  "strtol10 s =
     (let s1 = dropWhile (\<lambda>c. c = CHR '' '' \<or> (9 \<le> (of_char c :: nat) \<and> (of_char c :: nat) \<le> 13)) s;
          neg = (s1 \<noteq> [] \<and> hd s1 = CHR ''-'');
          s2 = (if s1 \<noteq> [] \<and> (hd s1 = CHR ''-'' \<or> hd s1 = CHR ''+'') then tl s1 else s1);
          ds = takeWhile isdigit s2
      in if ds = [] then (0, s)
         else (sat64 (if neg then - digits_val ds else digits_val ds), dropWhile isdigit s2))"

text \<open>\<open>None\<close>: the program exits with status 2.\<close>

definition port_of :: "string \<Rightarrow> u16 option" where
  "port_of s = (case strtol10 s of (v, rest) \<Rightarrow>
     if rest \<noteq> [] \<or> v < 1 \<or> v > 65535 then None else Some (of_int v))"

definition size_of :: "string \<Rightarrow> int option" where
  "size_of s = (case strtol10 s of (v, rest) \<Rightarrow>
     if rest \<noteq> [] \<or> v < 12 \<or> v > int MAX_PAYLOAD then None else Some (to_s32 v))"

definition seconds_of :: "string \<Rightarrow> int option" where
  "seconds_of s = (case strtol10 s of (v, rest) \<Rightarrow>
     if rest \<noteq> [] \<or> v < 1 then None else Some (to_s32 v))"

section \<open>The sender\<close>

definition mono_ns :: "int \<Rightarrow> int \<Rightarrow> u64" where
  "mono_ns tv_sec tv_nsec = of_int tv_sec * 1000000000 + of_int tv_nsec"

definition le_bytes :: "nat \<Rightarrow> 'a::len word \<Rightarrow> u8 list" where
  "le_bytes n w = map (\<lambda>i. ucast (drop_bit (8 * i) w)) [0 ..< n]"

text \<open>The datagram: the buffer is filled with 0xab once, its first 12 bytes are the header.\<close>

definition tx_packet :: "u32 \<Rightarrow> u64 \<Rightarrow> nat \<Rightarrow> u8 list" where
  "tx_packet sq tnow pktsize =
     take pktsize (le_bytes 4 sq @ le_bytes 8 tnow @ replicate (MAX_PAYLOAD - 12) 0xab)"

record tx_state =
  sent :: u64
  send_errors :: u64
  tx_deadline :: u64

text \<open>
  One iteration: the datagram handed to \<open>send\<close>, whose result is \<open>n\<close>, and the absolute time
  slept until, in seconds and nanoseconds.
\<close>

definition tx_iter :: "u64 \<Rightarrow> nat \<Rightarrow> u64 \<times> int \<Rightarrow> tx_state \<Rightarrow> u8 list \<times> (u64 \<times> u64) \<times> tx_state" where
  "tx_iter interval_ns pktsize x st =
     (case x of (tnow, n) \<Rightarrow>
        let sq = ucast (sent st AND 0xffffffff);
            pkt = tx_packet sq tnow pktsize;
            st1 = st\<lparr>send_errors := (if n \<noteq> int pktsize then send_errors st + 1 else send_errors st),
                     sent := sent st + 1, tx_deadline := tx_deadline st + interval_ns\<rparr>
        in (pkt, (tx_deadline st1 div 1000000000, tx_deadline st1 mod 1000000000), st1))"

fun tx_loop :: "u64 \<Rightarrow> nat \<Rightarrow> (u64 \<times> int) list \<Rightarrow> tx_state \<Rightarrow> u8 list list \<times> tx_state" where
  "tx_loop interval_ns pktsize [] st = ([], st)"
| "tx_loop interval_ns pktsize (x # xs) st =
     (case tx_iter interval_ns pktsize x st of
        (pkt, _, st1) \<Rightarrow> (case tx_loop interval_ns pktsize xs st1 of (pkts, st2) \<Rightarrow> (pkt # pkts, st2)))"

text \<open>
  The exit status, the datagrams sent and the counters that are printed (none when the socket
  could not be set up).
\<close>

definition run_tx ::
  "int \<Rightarrow> int \<Rightarrow> int \<Rightarrow> u64 \<Rightarrow> nat \<Rightarrow> u64 \<Rightarrow> (u64 \<times> int) list \<Rightarrow> int \<times> u8 list list \<times> tx_state option" where
  "run_tx fd pton conn interval_ns pktsize start xs =
     (if fd < 0 then (1, [], None)
      else if pton \<noteq> 1 then (1, [], None)
      else if conn < 0 then (1, [], None)
      else case tx_loop interval_ns pktsize xs \<lparr>sent = 0, send_errors = 0, tx_deadline = start\<rparr> of
             (pkts, st) \<Rightarrow> (0, pkts, Some st))"

section \<open>The receiver\<close>

record rx_state =
  received :: u64
  rx_bytes :: u64
  lost :: u64
  dup :: u64
  late :: u64
  prev_seq :: u64
  have_prev :: bool
  max_gap :: u32

definition rx_init :: rx_state where
  "rx_init = \<lparr>received = 0, rx_bytes = 0, lost = 0, dup = 0, late = 0, prev_seq = 0, have_prev = False,
     max_gap = 0\<rparr>"

definition from_le :: "u8 list \<Rightarrow> u32" where
  "from_le bs = ucast (bs ! 0) OR push_bit 8 (ucast (bs ! 1)) OR push_bit 16 (ucast (bs ! 2)) OR
     push_bit 24 (ucast (bs ! 3))"

text \<open>\<open>delta\<close> is a \<open>uint32_t\<close>: the difference is computed in 64 bits and truncated.\<close>

definition rx_seq :: "u32 \<Rightarrow> rx_state \<Rightarrow> rx_state" where
  "rx_seq sq st =
     (let st1 =
        (if have_prev st then
           let delta = (ucast (ucast sq - prev_seq st) :: u32) in
           if delta = 0 then st\<lparr>dup := dup st + 1\<rparr>
           else if delta > 0 then
             st\<lparr>lost := lost st + ucast (delta - 1),
                max_gap := (if delta - 1 > max_gap st then delta - 1 else max_gap st)\<rparr>
           else st\<lparr>late := late st + 1\<rparr>
         else st)
      in st1\<lparr>prev_seq := ucast sq, have_prev := True\<rparr>)"

definition rx_packet :: "u8 list \<Rightarrow> rx_state \<Rightarrow> rx_state" where
  "rx_packet pkt st =
     (if length pkt < 12 then st
      else rx_seq (from_le pkt)
             (st\<lparr>received := received st + 1, rx_bytes := rx_bytes st + of_nat (length pkt)\<rparr>))"

text \<open>One pass of the loop before the deadline: nothing to read, a failed read, or a datagram.\<close>

datatype rx_event = Poll_none | Recv_error int | Recv "u8 list"

fun rx_loop :: "rx_event list \<Rightarrow> rx_state \<Rightarrow> rx_state" where
  "rx_loop [] st = st"
| "rx_loop (Poll_none # es) st = rx_loop es st"
| "rx_loop (Recv_error e # es) st = (if e = EINTR then rx_loop es st else st)"
| "rx_loop (Recv pkt # es) st = rx_loop es (rx_packet pkt st)"

definition run_rx :: "int \<Rightarrow> int \<Rightarrow> int \<Rightarrow> rx_event list \<Rightarrow> int \<times> rx_state option" where
  "run_rx fd pton bnd es =
     (if fd < 0 then (1, None)
      else if pton \<noteq> 1 then (1, None)
      else if bnd < 0 then (1, None)
      else (0, Some (rx_loop es rx_init)))"

section \<open>The command line\<close>

text \<open>
  \<open>rate_of\<close> parses a floating-point number and is an argument.  \<open>Usage\<close>: the process exits with
  status 2, whichever argument was refused.
\<close>

datatype 'r command = Usage | Tx string u16 'r int int | Rx string u16 int

definition main_command :: "(string \<Rightarrow> 'r option) \<Rightarrow> string list \<Rightarrow> 'r command" where
  "main_command rate_of argv =
     (if length argv < 2 then Usage
      else if argv ! 1 = ''tx'' \<and> length argv = 7 then
        (case (port_of (argv ! 3), rate_of (argv ! 4), size_of (argv ! 5), seconds_of (argv ! 6)) of
           (Some p, Some r, Some n, Some t) \<Rightarrow> Tx (argv ! 2) p r n t
         | _ \<Rightarrow> Usage)
      else if argv ! 1 = ''rx'' \<and> length argv = 5 then
        (case (port_of (argv ! 3), seconds_of (argv ! 4)) of
           (Some p, Some t) \<Rightarrow> Rx (argv ! 2) p t
         | _ \<Rightarrow> Usage)
      else Usage)"

section \<open>Properties\<close>

lemma bit_u8': "bit (x :: u8) n \<Longrightarrow> n < 8"
  using bit_imp_le_length [of x n] by simp

lemma from_le_bytes: "from_le (le_bytes 4 (sq :: u32) @ rest) = sq"
proof -
  have "[0 ..< 4] = [0, 1, 2, 3 :: nat]" by (simp add: upt_rec)
  then have "from_le (le_bytes 4 sq @ rest) =
      ucast (ucast (drop_bit 0 sq) :: u8) OR push_bit 8 (ucast (ucast (drop_bit 8 sq) :: u8)) OR
      push_bit 16 (ucast (ucast (drop_bit 16 sq) :: u8)) OR push_bit 24 (ucast (ucast (drop_bit 24 sq) :: u8))"
    by (simp add: from_le_def le_bytes_def)
  also have "\<dots> = sq"
  proof (rule bit_word_eqI)
    fix n assume n: "n < LENGTH(32)"
    consider "n < 8" | "8 \<le> n \<and> n < 16" | "16 \<le> n \<and> n < 24" | "24 \<le> n" by linarith
    then show "bit (ucast (ucast (drop_bit 0 sq) :: u8) OR push_bit 8 (ucast (ucast (drop_bit 8 sq) :: u8)) OR
      push_bit 16 (ucast (ucast (drop_bit 16 sq) :: u8)) OR push_bit 24 (ucast (ucast (drop_bit 24 sq) :: u8)) :: u32) n =
      bit sq n"
      using n by cases (auto simp: bit_simps)
  qed
  finally show ?thesis .
qed

lemma tx_packet_reads:
  assumes "12 \<le> pktsize" and "pktsize \<le> MAX_PAYLOAD"
  shows "from_le (tx_packet sq tnow pktsize) = sq \<and> length (tx_packet sq tnow pktsize) = pktsize"
proof -
  have len: "length (le_bytes 4 sq) = 4" "length (le_bytes 8 tnow) = 8" by (simp_all add: le_bytes_def)
  have "length (tx_packet sq tnow pktsize) = pktsize"
    using assms len by (simp add: tx_packet_def MAX_PAYLOAD_def)
  moreover obtain rest where "tx_packet sq tnow pktsize = le_bytes 4 sq @ rest"
    using assms len by (simp add: tx_packet_def)
  ultimately show ?thesis using from_le_bytes by simp
qed

lemma delta_eq: "(ucast ((ucast sq :: u64) - ucast p) :: u32) = sq - (p :: u32)"
  by transfer (simp add: take_bit_diff)

text \<open>The sequence numbers of an in-order stream: increasing, the gaps below the range.\<close>

fun in_order :: "nat list \<Rightarrow> bool" where
  "in_order (a # b # ns) = (a < b \<and> b < a + 2 ^ 32 \<and> in_order (b # ns))"
| "in_order _ = True"

lemma in_order_snoc: "ns \<noteq> [] \<Longrightarrow> in_order (ns @ [b]) \<longleftrightarrow> in_order ns \<and> last ns < b \<and> b < last ns + 2 ^ 32"
  by (induction ns rule: in_order.induct) auto

lemma in_order_span: "in_order ns \<Longrightarrow> ns \<noteq> [] \<Longrightarrow> hd ns + (length ns - 1) \<le> last ns"
  by (induction ns rule: in_order.induct) auto

lemma in_order_le_last: "in_order ns \<Longrightarrow> n \<in> set ns \<Longrightarrow> n \<le> last ns"
proof (induction ns rule: in_order.induct)
  case (1 a b ns)
  then show ?case using in_order_span [of "b # ns"] by (cases "n = a") auto
qed auto

lemma ucast_of_nat_u32: "(ucast (of_nat n :: u64) :: u32) = of_nat n"
  by transfer (simp add: take_bit_take_bit)

definition rx_seqs :: "nat list \<Rightarrow> rx_state" where
  "rx_seqs ns = fold (\<lambda>n. rx_seq (of_nat n)) ns rx_init"

lemma rx_seq_forward:
  assumes "have_prev st" "prev_seq st = ucast (of_nat a :: u32)" and ab: "a < b" "b < a + 2 ^ 32"
  shows "lost (rx_seq (of_nat b) st) = lost st + of_nat (b - a - 1) \<and> dup (rx_seq (of_nat b) st) = dup st \<and>
    late (rx_seq (of_nat b) st) = late st \<and> have_prev (rx_seq (of_nat b) st) \<and>
    prev_seq (rx_seq (of_nat b) st) = ucast (of_nat b :: u32)"
proof -
  obtain k where k: "b = a + Suc k" using less_imp_Suc_add [OF ab(1)] by auto
  then have lt: "Suc k < 2 ^ 32" using ab(2) by simp
  have d: "(of_nat b - of_nat a :: u32) = of_nat (Suc k)" by (simp add: k)
  have "unat (of_nat (Suc k) :: u32) = Suc k" by (rule unat_of_nat_bounded) (use lt in simp)
  then have nz: "(of_nat (Suc k) :: u32) \<noteq> 0" by (metis unat_0 nat.distinct(1))
  then have pos: "(0 :: u32) < of_nat (Suc k)" by (simp only: word_neq_0_conv)
  have m: "(of_nat (Suc k) - 1 :: u32) = of_nat k" by simp
  have up: "(ucast (of_nat k :: u32) :: u64) = of_nat k"
    using lt by (simp add: word_unat_eq_iff unat_ucast_up unat_of_nat_bounded)
  show ?thesis
    using assms(1,2) nz pos by (simp only: rx_seq_def Let_def delta_eq d m up) (simp add: k)
qed

definition carries :: "u8 list \<Rightarrow> nat \<Rightarrow> bool" where
  "carries p n \<longleftrightarrow> 12 \<le> length p \<and> from_le p = of_nat n"

lemma rx_run_inv:
  assumes "in_order ns" and "ns \<noteq> []" and "list_all2 carries ps ns"
  shows "lost (fold rx_packet ps rx_init) = of_nat (last ns - hd ns - (length ns - 1)) \<and>
    dup (fold rx_packet ps rx_init) = 0 \<and> received (fold rx_packet ps rx_init) = of_nat (length ns) \<and>
    have_prev (fold rx_packet ps rx_init) \<and>
    prev_seq (fold rx_packet ps rx_init) = ucast (of_nat (last ns) :: u32)"
  using assms
proof (induction ns arbitrary: ps rule: rev_induct)
  case (snoc b ns)
  from snoc.prems(3) obtain qs q where ps: "ps = qs @ [q]" "list_all2 carries qs ns" "carries q b"
    by (auto simp: list_all2_append2 list_all2_Cons2)
  define s0 where "s0 = fold rx_packet qs rx_init"
  define s1 where "s1 = s0\<lparr>received := received s0 + 1, rx_bytes := rx_bytes s0 + of_nat (length q)\<rparr>"
  have run: "fold rx_packet ps rx_init = rx_seq (of_nat b) s1"
    using ps by (simp add: s0_def s1_def rx_packet_def carries_def)
  have keep: "received (rx_seq w s) = received s" for w s by (simp add: rx_seq_def Let_def)
  show ?case
  proof (cases "ns = []")
    case True
    then show ?thesis using ps(2) by (simp add: run keep) (simp add: s1_def s0_def rx_init_def rx_seq_def)
  next
    case False
    then have o: "in_order ns" "last ns < b" "b < last ns + 2 ^ 32" using snoc.prems in_order_snoc by auto
    note ih = snoc.IH [OF o(1) False ps(2), folded s0_def]
    have "last ns - hd ns - (length ns - 1) + (b - last ns - 1) = b - hd ns - length ns"
      using in_order_span [OF o(1) False] o(2) False by (cases ns) auto
    then have "(of_nat (last ns - hd ns - (length ns - 1)) :: u64) + of_nat (b - last ns - 1) = of_nat (b - hd ns - length ns)"
      by (metis of_nat_add)
    then show ?thesis
      using rx_seq_forward [of s1 "last ns" b] ih o False by (simp add: run keep) (simp add: s1_def)
  qed
qed simp

lemma tx_loop_seq:
  assumes "12 \<le> pktsize" and "pktsize \<le> MAX_PAYLOAD"
  shows "length (fst (tx_loop iv pktsize xs st)) = length xs \<and>
    (\<forall>i < length xs. from_le (fst (tx_loop iv pktsize xs st) ! i) = ucast (sent st + of_nat i) \<and>
       length (fst (tx_loop iv pktsize xs st) ! i) = pktsize)"
proof (induction xs arbitrary: st)
  case (Cons x xs)
  obtain tnow n where x: "x = (tnow, n)" by (cases x)
  define st1 where "st1 = snd (snd (tx_iter iv pktsize x st))"
  have s1: "sent st1 = sent st + 1" by (simp add: st1_def x tx_iter_def Let_def)
  have low: "ucast (sent st AND 0xffffffff) = (ucast (sent st) :: u32)"
  proof -
    have m: "(0xffffffff :: u64) = mask 32" by (simp add: mask_eq_exp_minus_1)
    show ?thesis unfolding m by (auto intro!: bit_word_eqI simp: bit_simps)
  qed
  have unf: "fst (tx_loop iv pktsize (x # xs) st) =
      tx_packet (ucast (sent st)) tnow pktsize # fst (tx_loop iv pktsize xs st1)"
    by (simp add: st1_def x tx_iter_def Let_def low split: prod.splits)
  show ?case
    using Cons.IH [of st1] tx_packet_reads [OF assms] s1 unf
    by (auto simp: nth_Cons algebra_simps split: nat.splits)
qed simp

fun datagrams :: "rx_event list \<Rightarrow> u8 list list" where
  "datagrams [] = []"
| "datagrams (Recv p # es) = p # datagrams es"
| "datagrams (_ # es) = datagrams es"

fun no_failure :: "rx_event \<Rightarrow> bool" where
  "no_failure (Recv_error e) = (e = EINTR)"
| "no_failure _ = True"

lemma rx_loop_datagrams: "list_all no_failure es \<Longrightarrow> rx_loop es st = fold rx_packet (datagrams es) st"
  by (induction es st rule: rx_loop.induct) auto

text \<open>
  C8: sender and receiver together: when the network drops packets but neither reorders nor
  duplicates them, so that the receiver gets the datagrams numbered \<open>ns\<close> of those sent, interleaved
  with any timeouts and interrupted reads, it reports exactly the number of datagrams missing
  between the first and the last one received, and no duplicate.  This also holds when the 32-bit
  sequence field wraps around.
\<close>

theorem udp_loss_exact:
  assumes "0 \<le> fd" and "12 \<le> pktsize" and "pktsize \<le> MAX_PAYLOAD"
    and "run_tx fd 1 0 iv pktsize start xs = (0, pkts, Some st)"
    and "in_order ns" and "ns \<noteq> []" and "last ns < length xs"
    and "list_all no_failure es" and "datagrams es = map ((!) pkts) ns"
  shows "\<exists>r. run_rx fd 1 0 es = (0, Some r) \<and> received r = of_nat (length ns) \<and> dup r = 0 \<and>
    lost r = of_nat (last ns - hd ns - (length ns - 1))"
proof -
  have pk: "pkts = fst (tx_loop iv pktsize xs \<lparr>sent = 0, send_errors = 0, tx_deadline = start\<rparr>)"
    using assms(1,4) by (auto simp: run_tx_def split: prod.splits)
  have "carries (pkts ! n) n" if "n \<in> set ns" for n
    using tx_loop_seq [OF assms(2,3), of iv xs "\<lparr>sent = 0, send_errors = 0, tx_deadline = start\<rparr>"]
      in_order_le_last [OF assms(5) that] assms(2,7) by (simp add: pk carries_def ucast_of_nat_u32)
  then have "list_all2 carries (datagrams es) ns"
    by (simp add: assms(9) list_all2_map1 list.rel_refl_strong)
  then show ?thesis
    using rx_run_inv [OF assms(5,6)] assms(1,8) by (simp add: run_rx_def rx_loop_datagrams)
qed

theorem udp_loss_exact_witness:
  "\<exists>r. run_rx 3 1 0 [Recv (tx_packet 0 7 12), Poll_none, Recv (tx_packet 2 9 12)] = (0, Some r) \<and>
     received r = 2 \<and> dup r = 0 \<and> lost r = 1"
  using udp_loss_exact [of 3 12 1000 5 "[(7, 12), (8, 12), (9, 12)]"
      "[tx_packet 0 7 12, tx_packet 1 8 12, tx_packet 2 9 12]"
      "\<lparr>sent = 3, send_errors = 0, tx_deadline = 3005\<rparr>" "[0, 2]"
      "[Recv (tx_packet 0 7 12), Poll_none, Recv (tx_packet 2 9 12)]"]
  by (simp add: run_tx_def tx_iter_def MAX_PAYLOAD_def)

text \<open>
  The receiver never counts a late packet: the sequence difference is unsigned, so the
  branch for late arrivals is dead; two packets that arrive in swapped order are reported as a
  loss of 2^32 - 2 packets.
\<close>

theorem rx_late_never_counted:
  "late (rx_loop es rx_init) = 0 \<and> lost (rx_seqs [7, 6]) = 4294967294 \<and> late (rx_seqs [7, 6]) = 0"
proof -
  have step: "late (rx_packet p st) = late st" for p st
    by (auto simp: rx_packet_def rx_seq_def Let_def word_neq_0_conv)
  have "late (rx_loop es st) = late st" for st
    by (induction es st rule: rx_loop.induct) (simp_all add: step)
  then have "late (rx_loop es rx_init) = 0" by (simp add: rx_init_def)
  moreover have "lost (rx_seqs [7, 6]) = 4294967294 \<and> late (rx_seqs [7, 6]) = 0"
  proof -
    have m1: "(ucast (- 1 :: u64) :: u32) = - 1" using delta_eq [of 0 1] by simp
    have "rx_seqs [7, 6] = rx_seq 6 (rx_seq 7 rx_init)" by (simp add: rx_seqs_def)
    then show ?thesis by (simp add: rx_seq_def Let_def rx_init_def m1 word_neq_0_conv [symmetric])
  qed
  ultimately show ?thesis by simp
qed

text \<open>The number of seconds is narrowed to an \<open>int\<close> without an upper bound.\<close>

lemma seconds_of_truncates: "seconds_of ''4294967296'' = Some 0"
  by (simp add: seconds_of_def strtol10_def Let_def isdigit_def digits_val_def sat64_def to_s32_def)

end
