(* ===== verification/Zz_Stats.thy ===== *)
theory Zz_Stats
  imports Prelude
begin

text \<open>
  src/src/zzlab/ZzStats.cpp (rate statistics), ZzLog.cpp (formatting of a log line) and
  ZzModules.cpp (module initialisation).  A statistics line is the tuple of the integers it is
  computed from; the floating-point rates printed from them are not shown.
\<close>

section \<open>Bit rate\<close>

text \<open>
  The shared-memory segment is an address: 0 is NULL and -1 what \<open>shmat\<close> returns when it
  fails.  \<open>shm_writes\<close> collects the addresses written.
\<close>

record ZzStatBitRate =
  br_stats_duration :: int
  br_last_ts :: int
  br_acc_ticks :: int
  br_acc_bits :: int
  br_max_bits :: int
  sh_mempos :: int
  shm_id :: int
  shm_ptr :: int
  shm_writes :: "int list"

record rate_report =
  rep_duration :: int
  rep_ticks :: int
  rep_bits :: int
  rep_max :: int

definition ZzStatBitRate_Reset :: "ZzStatBitRate \<Rightarrow> ZzStatBitRate" where
  "ZzStatBitRate_Reset st =
     (let st1 = st\<lparr>br_last_ts := 0, br_acc_ticks := 0, br_acc_bits := 0, br_max_bits := 0\<rparr> in
      if shm_id st1 \<ge> 0 \<and> shm_ptr st1 \<noteq> 0
      then st1\<lparr>shm_writes := shm_ptr st1 # shm_writes st1, sh_mempos := 0, shm_id := - 1\<rparr>
      else st1)"

text \<open>\<open>shmget\<close> and \<open>shmat\<close> are the arguments.\<close>

definition ZzStatBitRate_Share ::
    "(int \<Rightarrow> int) \<Rightarrow> (int \<Rightarrow> int) \<Rightarrow> int \<Rightarrow> ZzStatBitRate \<Rightarrow> ZzStatBitRate" where
  "ZzStatBitRate_Share shmget shmat memup st =
     (let st1 = st\<lparr>sh_mempos := memup, shm_id := shmget memup\<rparr>
      in st1\<lparr>shm_ptr := shmat (shm_id st1)\<rparr>)"

text \<open>\<open>force\<close> is \<open>QCAP_FORCE_SHOW_FPS\<close>.  The result is the report, if the period is over.\<close>

definition ZzStatBitRate_Log ::
    "bool \<Rightarrow> int \<Rightarrow> int \<Rightarrow> ZzStatBitRate \<Rightarrow> rate_report option \<times> ZzStatBitRate" where
  "ZzStatBitRate_Log force bits ts st =
     (let st1 = st\<lparr>br_acc_bits := br_acc_bits st + bits,
                   br_max_bits := (if bits > br_max_bits st then bits else br_max_bits st),
                   br_acc_ticks := br_acc_ticks st + 1\<rparr>;
          duration = ts - br_last_ts st1
      in if duration > br_stats_duration st1 then
           let st2 = (if shm_id st1 \<ge> 0 \<and> shm_ptr st1 \<noteq> 0 \<and> \<not> force
                      then st1\<lparr>shm_writes := shm_ptr st1 # shm_writes st1\<rparr> else st1)
           in (Some \<lparr>rep_duration = duration, rep_ticks = br_acc_ticks st1, rep_bits = br_acc_bits st1,
                     rep_max = br_max_bits st1\<rparr>,
               st2\<lparr>br_last_ts := ts, br_acc_ticks := 0, br_acc_bits := 0\<rparr>)
         else (None, st1))"

section \<open>Counter and events\<close>

record ZzStatCounter =
  ct_stats_duration :: int
  ct_last_ts :: int
  ct_acc_ticks :: int
  acc_counter :: int

definition ZzStatCounter_Reset :: "ZzStatCounter \<Rightarrow> ZzStatCounter" where
  "ZzStatCounter_Reset st = st\<lparr>ct_last_ts := 0, ct_acc_ticks := 0, acc_counter := 0\<rparr>"

definition ZzStatCounter_Log :: "int \<Rightarrow> int \<Rightarrow> ZzStatCounter \<Rightarrow> (int \<times> int \<times> int) option \<times> ZzStatCounter" where
  "ZzStatCounter_Log cur_counter ts st =
     (let st1 = st\<lparr>acc_counter := acc_counter st + cur_counter, ct_acc_ticks := ct_acc_ticks st + 1\<rparr>;
          duration = ts - ct_last_ts st1
      in if duration > ct_stats_duration st1
         then (Some (duration, ct_acc_ticks st1, acc_counter st1),
               st1\<lparr>ct_last_ts := ts, ct_acc_ticks := 0, acc_counter := 0\<rparr>)
         else (None, st1))"

record ZzStatEvents =
  ev_stats_duration :: int
  events :: int
  ev_last_ts :: int

definition ZzStatEvents_Reset :: "ZzStatEvents \<Rightarrow> ZzStatEvents" where
  "ZzStatEvents_Reset st = st\<lparr>events := 0, ev_last_ts := 0\<rparr>"

definition ZzStatEvents_Log :: "int \<Rightarrow> ZzStatEvents \<Rightarrow> (int \<times> int) option \<times> ZzStatEvents" where
  "ZzStatEvents_Log ts st =
     (if ts - ev_last_ts st \<ge> ev_stats_duration st
      then (Some (ts - ev_last_ts st, events st), st\<lparr>events := 1, ev_last_ts := ts\<rparr>)
      else (None, st\<lparr>events := events st + 1\<rparr>))"

section \<open>Log lines\<close>

text \<open>
  \<open>snprintf\<close> into a buffer of \<open>size\<close> bytes stores the first \<open>size - 1\<close> characters and returns
  the full length.  The buffer content is the string up to its end; \<open>put_at\<close> overwrites from a
  position on.
\<close>

definition ending_tag :: string where
  "ending_tag = CHR 0x0A # CHR 0x1B # ''[0m''"

definition put_at :: "string \<Rightarrow> nat \<Rightarrow> nat \<Rightarrow> string \<Rightarrow> string" where
  "put_at buf pos sz s = (if sz = 0 then buf else take pos buf @ take (sz - 1) s)"

text \<open>\<open>hdr\<close> is the time stamp with the prefix, \<open>msg\<close> the formatted message.\<close>

definition FormatLog :: "nat \<Rightarrow> string \<Rightarrow> string \<Rightarrow> nat \<times> string" where
  "FormatLog buf_size hdr msg =
     (let tag_size = length ending_tag + 1;
          buf0 = put_at [] 0 buf_size hdr;
          buf_end = length hdr;
          buf1 = put_at buf0 buf_end (buf_size - buf_end) msg;
          buf_end = buf_end + length msg;
          buf_end = (if buf_end \<ge> buf_size - tag_size then buf_size - tag_size else buf_end);
          buf2 = put_at buf1 buf_end (buf_size - buf_end) ending_tag
      in (buf_end + length ending_tag, buf2))"

text \<open>A logger of level \<open>level\<close> prints when \<open>QCAP_LOG_LEVEL\<close> is not above it.\<close>

definition zz_log :: "int \<Rightarrow> int \<Rightarrow> nat \<Rightarrow> string \<Rightarrow> string \<Rightarrow> string" where
  "zz_log log_level level buf_size hdr msg =
     (if log_level > level then []
      else case FormatLog buf_size hdr msg of (n, buf) \<Rightarrow> take n buf)"

section \<open>Modules\<close>

record 's ZzModule =
  mod_init :: "'s \<Rightarrow> 's"
  mod_uninit :: "'s \<Rightarrow> 's"

text \<open>The module list, in the order of \<open>push_back\<close>, beside the state the modules act on.\<close>

definition ZzModules_init :: "'s ZzModule \<Rightarrow> 's ZzModule list \<times> 's \<Rightarrow> 's ZzModule list \<times> 's" where
  "ZzModules_init module ms = (case ms of (modules, s) \<Rightarrow> (modules @ [module], mod_init module s))"

definition ZzModules_uninit :: "'s ZzModule list \<times> 's \<Rightarrow> 's ZzModule list \<times> 's" where
  "ZzModules_uninit ms = (case ms of (modules, s) \<Rightarrow> (modules, fold (\<lambda>m s. mod_uninit m s) (rev modules) s))"

section \<open>Properties\<close>

text \<open>The statistics over a sequence of samples, with the reports, latest first.\<close>

definition rate_step :: "bool \<Rightarrow> int \<times> int \<Rightarrow> ZzStatBitRate \<times> rate_report list \<Rightarrow> ZzStatBitRate \<times> rate_report list" where
  "rate_step force x s =
     (case ZzStatBitRate_Log force (fst x) (snd x) (fst s) of
        (rep, st) \<Rightarrow> (st, (case rep of None \<Rightarrow> snd s | Some r \<Rightarrow> r # snd s)))"

definition rate_run :: "bool \<Rightarrow> (int \<times> int) list \<Rightarrow> ZzStatBitRate \<Rightarrow> ZzStatBitRate \<times> rate_report list" where
  "rate_run force xs st = fold (rate_step force) xs (ZzStatBitRate_Reset st, [])"

lemma rate_run_snoc: "rate_run force (xs @ [x]) st = rate_step force x (rate_run force xs st)"
  by (simp add: rate_run_def)

lemma rate_run_duration: "br_stats_duration (fst (rate_run force xs st)) = br_stats_duration st"
proof (induction xs rule: rev_induct)
  case Nil
  then show ?case by (simp add: rate_run_def ZzStatBitRate_Reset_def Let_def)
next
  case (snoc x xs)
  then show ?case by (auto simp: rate_run_snoc rate_step_def ZzStatBitRate_Log_def Let_def split_beta)
qed

text \<open>
  The bit-rate statistics account for every sample exactly once: over any sequence of
  samples since the reset, the bits and the ticks of the reports plus those not yet reported
  are the totals of the input, and every report covers more than the configured duration.
\<close>

theorem rate_accounting:
  "sum_list (map rep_bits (snd (rate_run force xs st))) + br_acc_bits (fst (rate_run force xs st)) =
     sum_list (map fst xs) \<and>
   sum_list (map rep_ticks (snd (rate_run force xs st))) + br_acc_ticks (fst (rate_run force xs st)) =
     int (length xs) \<and>
   list_all (\<lambda>r. rep_duration r > br_stats_duration st) (snd (rate_run force xs st))"
proof (induction xs rule: rev_induct)
  case Nil
  then show ?case by (simp add: rate_run_def ZzStatBitRate_Reset_def Let_def)
next
  case (snoc x xs)
  then show ?case
    using rate_run_duration [of force xs st]
    by (simp add: rate_run_snoc rate_step_def ZzStatBitRate_Log_def Let_def split_beta)
qed

text \<open>
  A log line is never cut inside its ending: whatever the message, the line consists of the
  first \<open>buf_size - 6\<close> characters of header and message followed by the complete ending that
  resets the terminal colour, it fits in the buffer with its terminator, and the returned
  length is the length of the line.
\<close>

theorem FormatLog_line:
  assumes "length hdr < buf_size" and "6 < buf_size"
  shows "snd (FormatLog buf_size hdr msg) = take (buf_size - 6) (hdr @ msg) @ ending_tag \<and>
    fst (FormatLog buf_size hdr msg) = length (snd (FormatLog buf_size hdr msg)) \<and>
    length (snd (FormatLog buf_size hdr msg)) < buf_size"
proof -
  have tag: "length ending_tag = 5" by (simp add: ending_tag_def)
  have buf: "take (buf_size - Suc (length hdr)) msg = take (buf_size - 1 - length hdr) msg" by simp
  show ?thesis
    using assms tag
    by (cases "length hdr + length msg \<ge> buf_size - 6")
      (auto simp: FormatLog_def put_at_def Let_def min_def)
qed

theorem FormatLog_line_witness:
  "snd (FormatLog 12 ''ab'' ''cdefghij'') = ''abcdef'' @ ending_tag"
  using FormatLog_line [of "''ab''" 12 "''cdefghij''"] by simp

text \<open>
  Modules are shut down in the reverse order of their initialisation, each exactly once: if
  every module's shutdown undoes its initialisation, the state after \<open>uninit\<close> is the state
  before the first \<open>init\<close>.
\<close>

theorem modules_reverse_order:
  assumes "\<And>m s. m \<in> set ms \<Longrightarrow> mod_uninit m (mod_init m s) = s"
  shows "snd (ZzModules_uninit (fold ZzModules_init ms ([], s))) = s"
proof -
  have run: "fold ZzModules_init ms (done, s) = (done @ ms, fold (\<lambda>m. mod_init m) ms s)" for "done" s
    by (induction ms arbitrary: "done" s) (simp_all add: ZzModules_init_def)
  have "fold (\<lambda>m s. mod_uninit m s) (rev ms) (fold (\<lambda>m. mod_init m) ms s) = s"
    using assms by (induction ms arbitrary: s) simp_all
  then show ?thesis by (simp add: run ZzModules_uninit_def)
qed

theorem modules_reverse_order_witness:
  "snd (ZzModules_uninit (fold ZzModules_init
      [\<lparr>mod_init = (\<lambda>s. s + 1), mod_uninit = (\<lambda>s. s - 1)\<rparr>, \<lparr>mod_init = (\<lambda>s. - s), mod_uninit = (\<lambda>s. - s)\<rparr>]
      ([], 5 :: int))) = 5"
  by (rule modules_reverse_order) auto

text \<open>
  An unchecked failure: when \<open>shmat\<close> fails it returns the address -1, which the NULL test
  does not catch, so a segment that was created but could not be attached makes the next
  completed period write through that address.
\<close>

theorem shmat_failure_written:
  assumes "shmget key \<ge> 0" and "shmat (shmget key) = - 1"
  shows "- 1 \<in> set (shm_writes (snd (ZzStatBitRate_Log False bits (br_last_ts st + br_stats_duration st + 1)
    (ZzStatBitRate_Share shmget shmat key st))))"
  using assms by (simp add: ZzStatBitRate_Log_def ZzStatBitRate_Share_def Let_def)

theorem shmat_failure_written_witness:
  "- 1 \<in> set (shm_writes (snd (ZzStatBitRate_Log False 8 1000001
    (ZzStatBitRate_Share (\<lambda>_. 7) (\<lambda>_. - 1) 42
      \<lparr>br_stats_duration = 1000000, br_last_ts = 0, br_acc_ticks = 0, br_acc_bits = 0, br_max_bits = 0,
       sh_mempos = 0, shm_id = - 1, shm_ptr = 0, shm_writes = []\<rparr>))))"
  using shmat_failure_written [of "\<lambda>_. 7" 42 "\<lambda>_. - 1" 8
      "\<lparr>br_stats_duration = 1000000, br_last_ts = 0, br_acc_ticks = 0, br_acc_bits = 0, br_max_bits = 0,
       sh_mempos = 0, shm_id = - 1, shm_ptr = 0, shm_writes = []\<rparr>"]
  by simp

end
