(* ===== verification/Zz_Utils.thy ===== *)
theory Zz_Utils
  imports Effects
begin

text \<open>
  src/src/zzlab/ZzUtils.h, ZzUtils.cpp and ZzUtils_memory.cpp: colour conversion, plane fills,
  identifiers, reference counts, the thread-local object cache, and the memory maps.  The
  system calls of the memory maps are the calls \<open>sys_call\<close> of the parameter \<open>api\<close>.
\<close>

section \<open>Colours\<close>

definition clamp_255 :: "int \<Rightarrow> int" where
  "clamp_255 a = (if a < 0 then 0 else if a > 255 then 255 else a)"

definition yuv_full_limited_p :: "int \<times> int \<times> int \<Rightarrow> int \<times> int \<times> int" where
  "yuv_full_limited_p f = (case f of (y, u, v) \<Rightarrow>
     (16 + cdiv (y * (235 - 16)) 255, 16 + cdiv (u * (240 - 16)) 255, 16 + cdiv (v * (240 - 16)) 255))"

definition yuv_limited_full_p :: "int \<times> int \<times> int \<Rightarrow> int \<times> int \<times> int" where
  "yuv_limited_full_p l = (case l of (y, u, v) \<Rightarrow>
     (cdiv ((y - 16) * 255) (235 - 16), cdiv ((u - 16) * 255) (240 - 16), cdiv ((v - 16) * 255) (240 - 16)))"

text \<open>The bytes of a little-endian \<open>uint32_t\<close>, and the colour words built from three values.\<close>

definition byte_of :: "u32 \<Rightarrow> nat \<Rightarrow> u32" where
  "byte_of c i = drop_bit (8 * i) c AND 0xFF"

definition rgb_gbr_p :: "u32 \<times> u32 \<times> u32 \<Rightarrow> u32 \<times> u32 \<times> u32" where
  "rgb_gbr_p rgb = (case rgb of (r, g, b) \<Rightarrow> (g, b, r))"

definition rgb_gbr :: "u32 \<Rightarrow> u32" where
  "rgb_gbr nColor =
     (case rgb_gbr_p (byte_of nColor 2, byte_of nColor 1, byte_of nColor 0) of
        (g0, g1, g2) \<Rightarrow> push_bit 16 g2 OR push_bit 8 g1 OR g0)"

definition rgb_p :: "u32 \<times> u32 \<times> u32 \<Rightarrow> u32" where
  "rgb_p rgb = (case rgb of (r, g, b) \<Rightarrow> push_bit 16 r OR push_bit 8 g OR b)"

section \<open>Plane fill\<close>

text \<open>One plane of \<open>Set_8u_P4R\<close>: \<open>memset\<close> of \<open>w\<close> bytes per row, rows \<open>step\<close> bytes apart.\<close>

definition mem_set :: "nat \<Rightarrow> nat \<Rightarrow> u8 \<Rightarrow> u8 list \<Rightarrow> u8 list" where
  "mem_set off n v m = fold (\<lambda>i m. m[off + i := v]) [0 ..< n] m"

definition fill_plane :: "nat \<Rightarrow> nat \<Rightarrow> nat \<Rightarrow> u8 \<Rightarrow> u8 list \<Rightarrow> u8 list" where
  "fill_plane step nWidth nHeight v m = fold (\<lambda>y m. mem_set (y * step) nWidth v m) [0 ..< nHeight] m"

definition Set_8u_P4R :: "u8 list list \<Rightarrow> nat list \<Rightarrow> nat \<Rightarrow> nat \<Rightarrow> u8 list \<Rightarrow> u8 list list" where
  "Set_8u_P4R pDst dstStep nWidth nHeight pValue =
     map (\<lambda>i. fill_plane (dstStep ! i) nWidth nHeight (pValue ! i) (pDst ! i)) [0 ..< 4]"

section \<open>Identifiers and reference counts\<close>

definition NextId :: "u32 \<Rightarrow> u32 \<times> u32" where
  "NextId c = (c + 1, c + 1)"

primrec next_ids :: "nat \<Rightarrow> u32 \<Rightarrow> u32 list" where
  "next_ids 0 c = []"
| "next_ids (Suc n) c = (case NextId c of (v, c') \<Rightarrow> v # next_ids n c')"

text \<open>A \<open>ref_counted\<close> object: its counter and how often it was deleted.\<close>

record ref_counted =
  ref_c :: u32
  deleted :: nat

definition ref_new :: ref_counted where
  "ref_new = \<lparr>ref_c = 1, deleted = 0\<rparr>"

definition intrusive_ptr_add_ref :: "ref_counted \<Rightarrow> ref_counted" where
  "intrusive_ptr_add_ref x = x\<lparr>ref_c := ref_c x + 1\<rparr>"

definition intrusive_ptr_release :: "ref_counted \<Rightarrow> ref_counted" where
  "intrusive_ptr_release x =
     (let c = ref_c x - 1; x1 = x\<lparr>ref_c := c\<rparr>
      in if c = 0 then x1\<lparr>deleted := deleted x1 + 1\<rparr> else x1)"

section \<open>The thread-local object cache\<close>

text \<open>
  \<open>TLSHashMap::get\<close>: \<open>pick m\<close> is the entry \<open>map_.begin()\<close> points to; the unordered map's
  order is the library's business, it only has to be an entry of the map.  The state has the
  map, the next object the creator makes, and the objects deleted so far.
\<close>

record tls_map =
  tls_objects :: "(nat \<times> nat) list"   \<comment> \<open>hash value and object, distinct hash values\<close>
  tls_next :: nat
  tls_deleted :: "nat list"

definition tls_get :: "((nat \<times> nat) list \<Rightarrow> nat) \<Rightarrow> nat \<Rightarrow> nat \<Rightarrow> tls_map \<Rightarrow> nat \<times> tls_map" where
  "tls_get pick nHashValue nMaxObjects t =
     (case map_of (tls_objects t) nHashValue of
        Some pObject \<Rightarrow> (pObject, t)
      | None \<Rightarrow>
          let t1 = (if length (tls_objects t) > nMaxObjects then
                      let i = pick (tls_objects t)
                      in t\<lparr>tls_objects := take i (tls_objects t) @ drop (Suc i) (tls_objects t),
                           tls_deleted := snd (tls_objects t ! i) # tls_deleted t\<rparr>
                    else t);
              pObject = tls_next t1
          in (pObject, t1\<lparr>tls_objects := tls_objects t1 @ [(nHashValue, pObject)], tls_next := pObject + 1\<rparr>))"

definition cleanup_map :: "tls_map \<Rightarrow> tls_map" where
  "cleanup_map t = t\<lparr>tls_deleted := map snd (tls_objects t) @ tls_deleted t, tls_objects := []\<rparr>"

section \<open>Memory maps\<close>

datatype sys_call =
    OpenDevMem bool                 \<comment> \<open>read only\<close>
  | CloseFd int
  | Mmap nat int nat bool           \<comment> \<open>length, descriptor, offset, read only; -1 is MAP_FAILED\<close>
  | Munmap int nat
  | EpollCreate
  | EpollCtlAdd int int int         \<comment> \<open>epoll descriptor, descriptor, events\<close>
  | EpollCtlDel int int
  | EpollWait int int int           \<comment> \<open>epoll descriptor, number of events, timeout\<close>
  | WriteFd int u32

type_synonym ('z, 'a) sys = "((sys_call, 'z) io_scheme, 'a) state"

text \<open>\<open>page_size\<close> is \<open>getpagesize()\<close>, a power of two.  \<open>Some (p, map_base)\<close> or NULL.\<close>

definition memory_map :: "sys_call api \<Rightarrow> nat \<Rightarrow> nat \<Rightarrow> nat \<Rightarrow> ('z, (int \<times> int) option) sys" where
  "memory_map api page_size base_addr len = do {
     fd \<leftarrow> call api (OpenDevMem False);
     if fst fd = - 1 then ret None
     else do {
       let offset_in_page = base_addr mod page_size;
       map_base \<leftarrow> call api (Mmap len (fst fd) (base_addr - base_addr mod page_size) False);
       if fst map_base = - 1 then do {
         call api (CloseFd (fst fd));
         ret None }
       else do {
         call api (CloseFd (fst fd));
         ret (Some (fst map_base + int offset_in_page, fst map_base)) } } }"

record UserMM =
  mapped_size :: nat
  mm_base_addr :: int
  mm_high_addr :: int
  mFD :: int

definition UserMM_new :: "sys_call api \<Rightarrow> nat \<Rightarrow> nat \<Rightarrow> nat \<Rightarrow> bool \<Rightarrow> ('z, UserMM) sys" where
  "UserMM_new api page_size nBaseAddr nHighAddr bReadOnly = do {
     let nSize = nHighAddr - nBaseAddr + 1;
     let nPages = (nSize + (page_size - 1)) div page_size;
     let msize = nPages * page_size;
     fd \<leftarrow> call api (OpenDevMem bReadOnly);
     b \<leftarrow> call api (Mmap msize (fst fd) nBaseAddr bReadOnly);
     ret \<lparr>mapped_size = msize, mm_base_addr = fst b, mm_high_addr = fst b + (int msize - 1), mFD = fst fd\<rparr> }"

definition UserMM_delete :: "sys_call api \<Rightarrow> UserMM \<Rightarrow> ('z, unit) sys" where
  "UserMM_delete api u =
     (if mFD u \<noteq> - 1 then do {
        call api (Munmap (mm_base_addr u) (mapped_size u));
        call api (CloseFd (mFD u));
        ret () }
      else ret ())"

definition Epolls_new :: "sys_call api \<Rightarrow> ('z, int) sys" where
  "Epolls_new api = do { r \<leftarrow> call api EpollCreate; ret (fst r) }"

definition Epolls_delete :: "sys_call api \<Rightarrow> int \<Rightarrow> ('z, int) sys" where
  "Epolls_delete api fd_epoll =
     (if fd_epoll \<noteq> - 1 then do { call api (CloseFd fd_epoll); ret (- 1) } else ret fd_epoll)"

definition Epolls_Add :: "sys_call api \<Rightarrow> int \<Rightarrow> int \<Rightarrow> int \<Rightarrow> ('z, int) sys" where
  "Epolls_Add api fd_epoll fd events = do { r \<leftarrow> call api (EpollCtlAdd fd_epoll fd events); ret (fst r) }"

definition Epolls_Del :: "sys_call api \<Rightarrow> int \<Rightarrow> int \<Rightarrow> ('z, int) sys" where
  "Epolls_Del api fd_epoll fd = do { r \<leftarrow> call api (EpollCtlDel fd_epoll fd); ret (fst r) }"

definition Epolls_Wait :: "sys_call api \<Rightarrow> int \<Rightarrow> int \<Rightarrow> int \<Rightarrow> ('z, int \<times> int list) sys" where
  "Epolls_Wait api fd_epoll nevents timeout = call api (EpollWait fd_epoll nevents timeout)"

text \<open>
  Register access through a mapped window; \<open>m\<close> is the memory, by the address of a 32-bit word.
\<close>

definition UserMM_Read :: "nat \<Rightarrow> UserMM \<Rightarrow> (int \<Rightarrow> u32) \<Rightarrow> u32" where
  "UserMM_Read nOffset u m = m (mm_base_addr u + int nOffset)"

definition UserMM_Write :: "nat \<Rightarrow> u32 \<Rightarrow> UserMM \<Rightarrow> (int \<Rightarrow> u32) \<Rightarrow> (int \<Rightarrow> u32)" where
  "UserMM_Write nOffset nValue u m = m(mm_base_addr u + int nOffset := nValue)"

lemma UserMM_Read_Write:
  "UserMM_Read i u (UserMM_Write j v u m) = (if i = j then v else UserMM_Read i u m)"
  by (simp add: UserMM_Read_def UserMM_Write_def)

section \<open>Small helpers\<close>

text \<open>\<open>is_in_vector\<close>: the first position of the element, compared with the end.\<close>

fun find_pos :: "'a \<Rightarrow> 'a list \<Rightarrow> nat" where
  "find_pos a [] = 0"
| "find_pos a (x # xs) = (if x = a then 0 else Suc (find_pos a xs))"

definition is_in_vector :: "'a list \<Rightarrow> 'a \<Rightarrow> bool" where
  "is_in_vector v a = (find_pos a v \<noteq> length v)"

lemma is_in_vector_set: "is_in_vector v a \<longleftrightarrow> a \<in> set v"
proof -
  have "find_pos a v \<le> length v" by (induction v) auto
  moreover have "find_pos a v = length v \<longleftrightarrow> a \<notin> set v" by (induction v) auto
  ultimately show ?thesis by (simp add: is_in_vector_def)
qed

text \<open>\<open>hash\<close> folds \<open>boost::hash_combine\<close>, an argument, over the characters up to the NUL.\<close>

fun hash_loop :: "('h \<Rightarrow> char \<Rightarrow> 'h) \<Rightarrow> 'h \<Rightarrow> string \<Rightarrow> 'h" where
  "hash_loop hash_combine seed [] = seed"
| "hash_loop hash_combine seed (c # s) =
     (if c = CHR 0x00 then seed else hash_loop hash_combine (hash_combine seed c) s)"

definition hash :: "(nat \<Rightarrow> char \<Rightarrow> nat) \<Rightarrow> string \<Rightarrow> nat" where
  "hash hash_combine s = hash_loop hash_combine 0 s"

lemma hash_ignores_tail:
  "is_cstring s \<Longrightarrow> hash hc (s @ CHR 0x00 # rest) = foldl hc 0 s"
proof -
  have "is_cstring s \<Longrightarrow> hash_loop hc seed (s @ CHR 0x00 # rest) = foldl hc seed s" for seed
    by (induction s arbitrary: seed) (auto simp: is_cstring_def)
  then show "is_cstring s \<Longrightarrow> hash hc (s @ CHR 0x00 # rest) = foldl hc 0 s" by (simp add: hash_def)
qed

text \<open>
  \<open>ReadAllBytes\<close>: the file system is an argument (\<open>None\<close>: the file cannot be opened); the second
  component is the new value of the out parameter, which keeps its old value on failure.
\<close>

definition ReadAllBytes :: "(string \<Rightarrow> string option) \<Rightarrow> string \<Rightarrow> string \<Rightarrow> bool \<times> string" where
  "ReadAllBytes files path data =
     (case files path of None \<Rightarrow> (False, data) | Some bytes \<Rightarrow> (True, bytes))"

text \<open>
  \<open>TLSSingleton::get\<close> and its clean-up at the end of the thread: the object of the thread, if any,
  the next address of \<open>new\<close>, and the objects deleted.
\<close>

record tls_one =
  one_object :: "nat option"
  one_next :: nat
  one_deleted :: "nat list"

definition TLSSingleton_get :: "tls_one \<Rightarrow> nat \<times> tls_one" where
  "TLSSingleton_get t =
     (case one_object t of
        Some p \<Rightarrow> (p, t)
      | None \<Rightarrow> (one_next t, t\<lparr>one_object := Some (one_next t), one_next := Suc (one_next t)\<rparr>))"

definition cleanup_object :: "tls_one \<Rightarrow> tls_one" where
  "cleanup_object t =
     (case one_object t of None \<Rightarrow> t | Some p \<Rightarrow> t\<lparr>one_object := None, one_deleted := p # one_deleted t\<rparr>)"

text \<open>A thread sees one object, made at the first use, and it is deleted once.\<close>

lemma TLSSingleton_once:
  assumes "one_object t = None"
  shows "fst (TLSSingleton_get (snd (TLSSingleton_get t))) = fst (TLSSingleton_get t)"
    and "snd (TLSSingleton_get (snd (TLSSingleton_get t))) = snd (TLSSingleton_get t)"
    and "one_deleted (cleanup_object (snd (TLSSingleton_get t))) = fst (TLSSingleton_get t) # one_deleted t"
  using assms by (simp_all add: TLSSingleton_get_def cleanup_object_def)

text \<open>\<open>uio_enable_irq\<close>; the result says whether the code reports an error.\<close>

definition uio_enable_irq :: "sys_call api \<Rightarrow> int \<Rightarrow> bool \<Rightarrow> ('z, bool) sys" where
  "uio_enable_irq api fd enable = do {
     r \<leftarrow> call api (WriteFd fd (if enable then 1 else 0));
     ret (fst r = 0) }"

section \<open>Properties\<close>

lemma scale_bounds:
  fixes x n :: int
  assumes x: "0 \<le> x" "x \<le> 255" and n: "127 \<le> n"
  shows "0 \<le> x * n div 255" "x * n div 255 \<le> n"
    "x - 2 \<le> x * n div 255 * 255 div n" "x * n div 255 * 255 div n \<le> x"
proof -
  define q where "q = x * n div 255"
  define r where "r = q * 255 div n"
  have q: "q * 255 \<le> x * n" "x * n < (q + 1) * 255" using div_bounds [of 255 "x * n"] by (simp_all add: q_def)
  have r: "r * n \<le> q * 255" "q * 255 < (r + 1) * n" using div_bounds [of n "q * 255"] n by (simp_all add: r_def)
  show "0 \<le> x * n div 255" using x n by (simp add: pos_imp_zdiv_nonneg_iff)
  have "x * n \<le> 255 * n" using x n by (intro mult_right_mono) simp_all
  then have "q \<le> n" using q(1) by linarith
  then show "x * n div 255 \<le> n" by (simp add: q_def)
  have "r * n \<le> x * n" using q(1) r(1) by linarith
  then have "r \<le> x" using n by simp
  then show "x * n div 255 * 255 div n \<le> x" by (simp add: q_def r_def)
  have "(x - 2) * n < (r + 1) * n" using q(2) r(2) n by (simp add: left_diff_distrib distrib_right)
  then have "x - 2 < r + 1" using n by simp
  then show "x - 2 \<le> x * n div 255 * 255 div n" by (simp add: q_def r_def)
qed

lemma limited_component:
  assumes "0 \<le> x" "x \<le> 255" and "127 \<le> n"
  shows "16 \<le> 16 + cdiv (x * n) 255 \<and> 16 + cdiv (x * n) 255 \<le> 16 + n \<and>
    x - 2 \<le> cdiv ((16 + cdiv (x * n) 255 - 16) * 255) n \<and>
    cdiv ((16 + cdiv (x * n) 255 - 16) * 255) n \<le> x"
proof -
  note b = scale_bounds [OF assms]
  have "cdiv (x * n) 255 = x * n div 255" using assms by (intro cdiv_nonneg) simp_all
  moreover have "cdiv (x * n div 255 * 255) n = x * n div 255 * 255 div n"
    using b(1) assms(3) by (intro cdiv_nonneg) simp_all
  ultimately show ?thesis using b by (simp only: add_diff_cancel_left') simp
qed

text \<open>
  Range conversion: full-range colours map into the limited ranges (luma 16 to 235, chroma
  16 to 240), and converting back returns every component to within two steps below its
  original value, never above it.
\<close>

theorem yuv_range_roundtrip:
  assumes "0 \<le> y" "y \<le> 255" "0 \<le> u" "u \<le> 255" "0 \<le> v" "v \<le> 255"
  shows "case yuv_full_limited_p (y, u, v) of (y', u', v') \<Rightarrow>
      16 \<le> y' \<and> y' \<le> 235 \<and> 16 \<le> u' \<and> u' \<le> 240 \<and> 16 \<le> v' \<and> v' \<le> 240 \<and>
      (case yuv_limited_full_p (y', u', v') of (y2, u2, v2) \<Rightarrow>
         y - 2 \<le> y2 \<and> y2 \<le> y \<and> u - 2 \<le> u2 \<and> u2 \<le> u \<and> v - 2 \<le> v2 \<and> v2 \<le> v)"
  using limited_component [of y "235 - 16"] limited_component [of u "240 - 16"]
    limited_component [of v "240 - 16"] assms
  unfolding yuv_full_limited_p_def yuv_limited_full_p_def prod.case by simp

theorem yuv_range_roundtrip_witness:
  "case yuv_full_limited_p (255, 0, 128) of (y', u', v') \<Rightarrow> y' \<le> 235 \<and> 16 \<le> u' \<and> v' \<le> 240"
  using yuv_range_roundtrip [of 255 0 128] by (auto split: prod.splits)

lemma byte_swap:
  "byte_of (rgb_gbr c) 2 = byte_of c 2" "byte_of (rgb_gbr c) 1 = byte_of c 0" "byte_of (rgb_gbr c) 0 = byte_of c 1"
proof -
  have m: "(0xFF :: u32) = mask 8" by (simp add: mask_eq_decr_exp)
  show "byte_of (rgb_gbr c) 2 = byte_of c 2" "byte_of (rgb_gbr c) 1 = byte_of c 0" "byte_of (rgb_gbr c) 0 = byte_of c 1"
    unfolding rgb_gbr_def rgb_gbr_p_def byte_of_def m prod.case
    by (auto intro!: bit_word_eqI simp: bit_simps not_less not_le)
qed

text \<open>
  \<open>rgb_gbr\<close> keeps the red byte, exchanges the other two and clears the top byte; applied
  twice it returns the 24-bit colour.
\<close>

theorem rgb_gbr_involution: "rgb_gbr (rgb_gbr c) = c AND 0xFFFFFF"
proof -
  have m: "(0xFF :: u32) = mask 8" "(0xFFFFFF :: u32) = mask 24" by (simp_all add: mask_eq_decr_exp)
  have "rgb_gbr (rgb_gbr c) = push_bit 16 (byte_of c 2) OR push_bit 8 (byte_of c 1) OR byte_of c 0"
    by (subst rgb_gbr_def) (simp only: rgb_gbr_p_def byte_swap prod.case)
  also have "\<dots> = c AND 0xFFFFFF"
    unfolding byte_of_def m
  proof (rule bit_word_eqI)
    fix n assume "n < LENGTH(32)"
    consider "n < 8" | "8 \<le> n \<and> n < 16" | "16 \<le> n \<and> n < 24" | "24 \<le> n" by linarith
    then show "bit (push_bit 16 (drop_bit (8 * 2) c AND mask 8) OR push_bit 8 (drop_bit (8 * 1) c AND mask 8) OR
        drop_bit (8 * 0) c AND mask 8) n = bit (c AND mask 24) n"
      by cases (auto simp: bit_simps dest: bit_imp_le_length)
  qed
  finally show ?thesis .
qed

lemma next_ids_nth: "next_ids n c = map (\<lambda>i. c + of_nat (Suc i)) [0 ..< n]"
proof (induction n arbitrary: c)
  case (Suc n)
  have "[0 ..< Suc n] = 0 # map Suc [0 ..< n]" by (simp add: map_Suc_upt upt_conv_Cons)
  then show ?case using Suc by (simp add: NextId_def comp_def ac_simps)
qed simp

text \<open>
  Identifiers are unique: up to 2^32 consecutive calls of \<open>NextId\<close> return distinct values,
  from any state of the counter, across its wrap-around.
\<close>

theorem NextId_distinct:
  assumes "n \<le> 2 ^ 32"
  shows "distinct (next_ids n c)"
proof -
  have "inj_on (\<lambda>i. c + of_nat (Suc i) :: u32) {0 ..< n}"
  proof (rule inj_onI)
    fix i j assume ij: "i \<in> {0 ..< n}" "j \<in> {0 ..< n}" "c + of_nat (Suc i) = c + (of_nat (Suc j) :: u32)"
    then have "(of_nat i :: u32) = of_nat j" by simp
    then have "unat (of_nat i :: u32) = unat (of_nat j :: u32)" by simp
    then show "i = j" using ij(1,2) assms by (simp add: unat_of_nat_bounded)
  qed
  then show ?thesis by (simp add: next_ids_nth distinct_map)
qed

theorem NextId_distinct_witness: "distinct (next_ids 3 (- 2))"
  by (rule NextId_distinct) simp

section \<open>Reference counts\<close>

fun ref_run :: "bool list \<Rightarrow> ref_counted \<Rightarrow> ref_counted" where
  "ref_run [] x = x"
| "ref_run (True # ops) x = ref_run ops (intrusive_ptr_add_ref x)"
| "ref_run (False # ops) x = ref_run ops (intrusive_ptr_release x)"

text \<open>Correct use from \<open>k\<close> references: no operation after the last one is gone.  The result is the final number.\<close>

fun ref_use :: "nat \<Rightarrow> bool list \<Rightarrow> nat option" where
  "ref_use k [] = Some k"
| "ref_use k (True # ops) = (if 0 < k \<and> Suc k < 2 ^ 32 then ref_use (Suc k) ops else None)"
| "ref_use k (False # ops) = (if 0 < k then ref_use (k - 1) ops else None)"

lemma ref_run_deleted:
  assumes "ref_use k ops = Some n" and "unat (ref_c x) = k" and "k < 2 ^ 32"
  shows "deleted (ref_run ops x) = deleted x + (if 0 < k \<and> n = 0 then 1 else 0)"
  using assms
proof (induction ops arbitrary: k x)
  case Nil
  then show ?case by auto
next
  case (Cons op ops)
  show ?case
  proof (cases op)
    case True
    then have k: "0 < k" "Suc k < 2 ^ 32" "ref_use (Suc k) ops = Some n"
      using Cons.prems by (auto split: if_splits)
    have "unat (ref_c (intrusive_ptr_add_ref x)) = Suc k"
      using k Cons.prems by (simp add: intrusive_ptr_add_ref_def unat_add_bounded)
    then show ?thesis
      using Cons.IH [OF k(3)] k True by (simp add: intrusive_ptr_add_ref_def)
  next
    case False
    then have k: "0 < k" "ref_use (k - 1) ops = Some n" using Cons.prems by (auto split: if_splits)
    have c: "unat (ref_c x - 1) = k - 1"
      using k Cons.prems by (simp add: unat_sub_bounded word_le_nat_alt)
    then have z: "ref_c x - 1 = 0 \<longleftrightarrow> k = 1" using k by (auto simp: unat_eq_0 [symmetric])
    have "k = 1 \<Longrightarrow> ops = []" using k(2) by (cases ops; cases "hd ops") auto
    with k z Cons.IH [OF k(2), of "intrusive_ptr_release x"] c Cons.prems False show ?thesis
      by (auto simp: intrusive_ptr_release_def Let_def)
  qed
qed

text \<open>
  Reference counting: under correct use, the object is deleted exactly once, when its last
  reference is released, and not at all while references remain.
\<close>

theorem ref_deleted_once:
  assumes "ref_use 1 ops = Some n"
  shows "deleted (ref_run ops ref_new) = (if n = 0 then 1 else 0)"
  using ref_run_deleted [OF assms, of ref_new] by (simp add: ref_new_def)

theorem ref_deleted_once_witness: "deleted (ref_run [True, False, False] ref_new) = 1"
  using ref_deleted_once [of "[True, False, False]" 0] by simp

section \<open>The object cache\<close>

text \<open>
  Every object ever created is either in the cache or deleted, once, and the cache has at most
  one entry more than \<open>nMaxObjects\<close>.
\<close>

definition tls_inv :: "nat \<Rightarrow> tls_map \<Rightarrow> bool" where
  "tls_inv nMax t \<longleftrightarrow>
     distinct (map fst (tls_objects t)) \<and> distinct (map snd (tls_objects t) @ tls_deleted t) \<and>
     set (map snd (tls_objects t) @ tls_deleted t) = {..< tls_next t} \<and>
     length (tls_objects t) \<le> Suc nMax"

definition good_pick :: "((nat \<times> nat) list \<Rightarrow> nat) \<Rightarrow> bool" where
  "good_pick pick \<longleftrightarrow> (\<forall>m. m \<noteq> [] \<longrightarrow> pick m < length m)"

definition tls_run :: "((nat \<times> nat) list \<Rightarrow> nat) \<Rightarrow> nat \<Rightarrow> nat list \<Rightarrow> tls_map \<Rightarrow> tls_map" where
  "tls_run pick nMax hs t = fold (\<lambda>h t. snd (tls_get pick h nMax t)) hs t"

definition tls_empty :: tls_map where
  "tls_empty = \<lparr>tls_objects = [], tls_next = 0, tls_deleted = []\<rparr>"

lemma tls_evict:
  assumes inv: "tls_inv nMax t" and i: "i < length (tls_objects t)"
  shows "tls_inv nMax (t\<lparr>tls_objects := take i (tls_objects t) @ drop (Suc i) (tls_objects t),
           tls_deleted := snd (tls_objects t ! i) # tls_deleted t\<rparr>)"
proof -
  define as b cs where "as = take i (tls_objects t)" and "b = tls_objects t ! i" and "cs = drop (Suc i) (tls_objects t)"
  have "tls_objects t = as @ b # cs" using i by (simp add: as_def b_def cs_def id_take_nth_drop)
  then show ?thesis
    using inv unfolding tls_inv_def by (fold as_def b_def cs_def) auto
qed

lemma tls_insert:
  assumes "tls_inv nMax t" and "map_of (tls_objects t) h = None" and "length (tls_objects t) \<le> nMax"
  shows "tls_inv nMax (t\<lparr>tls_objects := tls_objects t @ [(h, tls_next t)], tls_next := tls_next t + 1\<rparr>)"
proof -
  have "h \<notin> set (map fst (tls_objects t))" using assms(2) by (auto simp: map_of_eq_None_iff)
  moreover have "tls_next t \<notin> set (map snd (tls_objects t) @ tls_deleted t)"
    using assms(1) by (simp add: tls_inv_def)
  ultimately show ?thesis using assms(1,3) by (auto simp: tls_inv_def lessThan_Suc)
qed

lemma tls_get_inv:
  assumes inv: "tls_inv nMax t" and pick: "good_pick pick"
  shows "tls_inv nMax (snd (tls_get pick h nMax t))"
proof (cases "map_of (tls_objects t) h")
  case None
  show ?thesis
  proof (cases "length (tls_objects t) > nMax")
    case True
    let ?i = "pick (tls_objects t)"
    let ?t = "t\<lparr>tls_objects := take ?i (tls_objects t) @ drop (Suc ?i) (tls_objects t),
        tls_deleted := snd (tls_objects t ! ?i) # tls_deleted t\<rparr>"
    have i: "?i < length (tls_objects t)" using pick True by (cases "tls_objects t") (auto simp: good_pick_def)
    have "h \<notin> fst ` set (tls_objects t)" using None by (simp add: map_of_eq_None_iff)
    then have "map_of (tls_objects ?t) h = None"
      by (auto simp: map_of_eq_None_iff dest!: in_set_takeD in_set_dropD)
    moreover have "length (tls_objects ?t) \<le> nMax" using i inv by (auto simp: tls_inv_def)
    ultimately show ?thesis
      using tls_insert [OF tls_evict [OF inv i]] None True by (simp add: tls_get_def Let_def)
  next
    case False
    then show ?thesis using tls_insert [OF inv None] None by (simp add: tls_get_def Let_def)
  qed
next
  case (Some obj)
  then show ?thesis using inv by (simp add: tls_get_def)
qed

text \<open>
  The thread-local cache neither leaks nor deletes twice: over any sequence of lookups and
  whatever entry an eviction picks, it holds at most one entry more than its limit, and after
  the clean-up at thread exit every object it ever created has been deleted exactly once.
\<close>

theorem tls_cache_no_leak:
  assumes "good_pick pick"
  shows "length (tls_objects (tls_run pick nMax hs tls_empty)) \<le> nMax + 1 \<and>
    distinct (tls_deleted (cleanup_map (tls_run pick nMax hs tls_empty))) \<and>
    set (tls_deleted (cleanup_map (tls_run pick nMax hs tls_empty))) =
      {..< tls_next (tls_run pick nMax hs tls_empty)}"
proof -
  have "tls_inv nMax t \<Longrightarrow> tls_inv nMax (tls_run pick nMax hs t)" for t
    unfolding tls_run_def by (induction hs arbitrary: t) (simp_all add: tls_get_inv assms)
  from this [of tls_empty] show ?thesis
    by (simp add: tls_inv_def tls_empty_def cleanup_map_def)
qed

theorem tls_cache_no_leak_witness:
  "length (tls_objects (tls_run (\<lambda>m. 0) 1 [5, 6, 7, 5] tls_empty)) \<le> 2"
  using tls_cache_no_leak [of "\<lambda>m. 0" 1 "[5, 6, 7, 5]"] by (simp add: good_pick_def)

section \<open>Descriptors and maps\<close>

datatype sys_res = S_fd int | S_map int

fun sys_acq :: "sys_call \<Rightarrow> reply \<Rightarrow> sys_res option" where
  "sys_acq (OpenDevMem ro) r = (if fst r = - 1 then None else Some (S_fd (fst r)))"
| "sys_acq EpollCreate r = (if fst r = - 1 then None else Some (S_fd (fst r)))"
| "sys_acq _ r = None"

fun sys_rel :: "sys_call \<Rightarrow> sys_res option" where
  "sys_rel (CloseFd fd) = Some (S_fd fd)"
| "sys_rel _ = None"

interpretation sys: cleanup sys_acq sys_rel
proof unfold_locales
  show "sys_rel c \<noteq> None \<Longrightarrow> sys_acq c r = None" for c r by (cases c) auto
qed

abbreviation sys_live :: "sys_call event list \<Rightarrow> sys_res list option" where
  "sys_live \<equiv> live sys_acq sys_rel"

lemma memory_map_live:
  "sys_live (trace s) = Some held \<Longrightarrow> wp (memory_map api page base len) (\<lambda>_ t. sys_live (trace t) = Some held) s"
  by (auto simp: memory_map_def wp_rules wp_call Let_def)

lemma UserMM_live:
  "sys_live (trace s) = Some held \<Longrightarrow>
     wp (do { u \<leftarrow> UserMM_new api page lo hi ro; UserMM_delete api u }) (\<lambda>_ t. sys_live (trace t) = Some held) s"
  by (auto simp: UserMM_new_def UserMM_delete_def wp_rules wp_call Let_def)

lemma Epolls_live:
  "sys_live (trace s) = Some held \<Longrightarrow>
     wp (do { e \<leftarrow> Epolls_new api; Epolls_delete api e }) (\<lambda>e t. e = - 1 \<and> sys_live (trace t) = Some held) s"
  by (auto simp: Epolls_new_def Epolls_delete_def wp_rules wp_call)

text \<open>
  Descriptors: \<open>memory_map\<close> closes the device on every path, and the constructors and
  destructors of \<open>UserMM\<close> and \<open>Epolls\<close> are balanced, whatever the system calls return.
\<close>

theorem descriptors_balanced:
  assumes "live sys_acq sys_rel (trace s) = Some held"
  shows "wp (do { _ \<leftarrow> memory_map api page base len;
                  _ \<leftarrow> (do { u \<leftarrow> UserMM_new api page lo hi ro; UserMM_delete api u });
                  e \<leftarrow> Epolls_new api; Epolls_delete api e })
    (\<lambda>e t. e = - 1 \<and> live sys_acq sys_rel (trace t) = Some held) s"
  unfolding wp_bind [of "memory_map api page base len"]
    wp_bind [of "do { u \<leftarrow> UserMM_new api page lo hi ro; UserMM_delete api u }"]
  by (rule wp_conseq [OF memory_map_live [OF assms]], rule wp_conseq [OF UserMM_live], assumption)
    (rule Epolls_live)

theorem descriptors_balanced_witness:
  "wp (do { _ \<leftarrow> memory_map (\<lambda>tr c. (3, [])) 4096 0x1000 16;
            _ \<leftarrow> (do { u \<leftarrow> UserMM_new (\<lambda>tr c. (3, [])) 4096 0 15 True; UserMM_delete (\<lambda>tr c. (3, [])) u });
            e \<leftarrow> Epolls_new (\<lambda>tr c. (3, [])); Epolls_delete (\<lambda>tr c. (3, [])) e })
    (\<lambda>e t. e = - 1 \<and> live sys_acq sys_rel (trace t) = Some []) \<lparr>trace = []\<rparr>"
  by (rule descriptors_balanced) simp

text \<open>The bytes a map of \<open>len\<close> bytes provides: whole pages.\<close>

definition map_bytes :: "nat \<Rightarrow> nat \<Rightarrow> nat" where
  "map_bytes page len = (len + (page - 1)) div page * page"

lemma map_bytes_ge: "0 < page \<Longrightarrow> len \<le> map_bytes page len"
proof -
  assume "0 < page"
  then have "(len + (page - 1)) mod page < page" by simp
  then show ?thesis
    unfolding map_bytes_def using div_mult_mod_eq [of "len + (page - 1)" page] by linarith
qed

text \<open>
  \<open>UserMM\<close> maps at least the requested range: the mapping is the least number of whole
  pages that holds \<open>nHighAddr - nBaseAddr + 1\<close> bytes, and \<open>high_addr\<close> is its last byte.
\<close>

theorem UserMM_covers:
  assumes "0 < page" and "lo \<le> hi"
  shows "wp (UserMM_new api page lo hi ro)
    (\<lambda>u t. hi - lo + 1 \<le> mapped_size u \<and> mapped_size u < hi - lo + 1 + page \<and>
      page dvd mapped_size u \<and> mm_high_addr u = mm_base_addr u + int (mapped_size u) - 1) s"
proof -
  have "map_bytes page (hi - lo + 1) < hi - lo + 1 + page"
    using assms(1) div_mult_mod_eq [of "hi - lo + 1 + (page - 1)" page] unfolding map_bytes_def by linarith
  moreover have "hi - lo + 1 + (page - 1) = hi - lo + page" using assms(1) by simp
  ultimately show ?thesis
    using map_bytes_ge [OF assms(1), of "hi - lo + 1"]
    by (simp add: UserMM_new_def wp_rules wp_call Let_def map_bytes_def)
qed

theorem UserMM_covers_witness:
  "wp (UserMM_new (\<lambda>tr c. (3, [])) 4096 0 4096 True)
    (\<lambda>u t. 4097 \<le> mapped_size u \<and> mapped_size u < 4097 + 4096 \<and>
      4096 dvd mapped_size u \<and> mm_high_addr u = mm_base_addr u + int (mapped_size u) - 1) \<lparr>trace = []\<rparr>"
  using UserMM_covers [of 4096 0 4096 "\<lambda>tr c. (3, [])" True "\<lparr>trace = []\<rparr>"] by simp

text \<open>
  \<open>memory_map\<close> can map too little: it aligns the base address down but does not add the
  offset to the length, so for a range that crosses into a page its length alone does not
  reach, the returned pointer plus the requested length lies beyond the mapped pages.
\<close>

theorem memory_map_short:
  "wp (memory_map (\<lambda>tr c. (8192, [])) 4096 4092 8)
    (\<lambda>r t. r = Some (8192 + 4092, 8192) \<and>
      (Mmap 8 8192 0 False, (8192, [])) \<in> set (trace t) \<and>
      8192 + int (map_bytes 4096 8) < 8192 + 4092 + 8) \<lparr>trace = []\<rparr>"
  by (simp add: memory_map_def wp_rules wp_call Let_def map_bytes_def)

end
