(* ===== verification/Zz_Filters.thy ===== *)
theory Zz_Filters
  imports Complex_Main Prelude
begin

text \<open>
  The rate control and the filters of src/src/zzlab/ZzUtils.h that are implemented in the header:
  \<open>FPSControl\<close> (frame dropping), \<open>SimpleKalmanFilter\<close>, \<open>qexpneg\<close> and \<open>TimeFilter::eval\<close>.  The
  code computes in \<open>double\<close>; the model computes in rational numbers.  For \<open>FPSControl\<close> with integral
  rates the two agree, since the state stays a small integer; for the others the rounding of the
  floating-point operations is left out.
\<close>

section \<open>Frame dropping\<close>

record FPSControl =
  src_fps :: rat
  dst_fps :: rat
  mState :: rat

definition FPSControl_Reset :: "FPSControl \<Rightarrow> FPSControl" where
  "FPSControl_Reset c = c\<lparr>mState := 0\<rparr>"

definition FPSControl_Tick :: "FPSControl \<Rightarrow> bool \<times> FPSControl" where
  "FPSControl_Tick c =
     (let c1 = c\<lparr>mState := mState c + dst_fps c\<rparr> in
      if mState c1 < src_fps c1 then (False, c1)
      else (True, c1\<lparr>mState := mState c1 - src_fps c1\<rparr>))"

text \<open>The decisions for a sequence of source frames.\<close>

primrec ticks_of :: "nat \<Rightarrow> FPSControl \<Rightarrow> bool list \<times> FPSControl" where
  "ticks_of 0 c = ([], c)"
| "ticks_of (Suc n) c =
     (case ticks_of n c of (bs, c1) \<Rightarrow> case FPSControl_Tick c1 of (b, c2) \<Rightarrow> (bs @ [b], c2))"

section \<open>The Kalman filter\<close>

record SimpleKalmanFilter =
  err_measure :: rat
  err_estimate :: rat
  noise_q :: rat
  current_estimate :: rat
  last_estimate :: rat
  kalman_gain :: rat

definition kalman_update :: "rat \<Rightarrow> SimpleKalmanFilter \<Rightarrow> rat \<times> SimpleKalmanFilter" where
  "kalman_update mesurement k =
     (let gain = err_estimate k / (err_estimate k + err_measure k);
          current = last_estimate k + gain * (mesurement - last_estimate k);
          err = (1 - gain) * err_estimate k + \<bar>last_estimate k - current\<bar> * noise_q k
      in (current, k\<lparr>kalman_gain := gain, current_estimate := current, err_estimate := err,
                     last_estimate := current\<rparr>))"

definition qexpneg :: "rat \<Rightarrow> rat" where
  "qexpneg x = 1 - 1 / (1 + x * (1 + x / 2 * (1 + x / 3)))"

record TimeFilter =
  cycle_time :: rat
  clock_period :: rat
  tf_count :: int

definition TimeFilter_reset :: "TimeFilter \<Rightarrow> TimeFilter" where
  "TimeFilter_reset f = f\<lparr>tf_count := 0\<rparr>"

definition TimeFilter_eval :: "rat \<Rightarrow> TimeFilter \<Rightarrow> rat" where
  "TimeFilter_eval delta f = cycle_time f + clock_period f * delta"

section \<open>Properties\<close>

lemma ticks_of_inv:
  assumes "0 \<le> dst_fps c" and "dst_fps c \<le> src_fps c" and "0 < src_fps c" and "mState c = 0"
  shows "case ticks_of n c of (bs, c') \<Rightarrow>
    length bs = n \<and> src_fps c' = src_fps c \<and> dst_fps c' = dst_fps c \<and> 0 \<le> mState c' \<and> mState c' < src_fps c \<and>
    of_nat (length (filter (\<lambda>b. b) bs)) * src_fps c + mState c' = of_nat n * dst_fps c"
proof (induction n)
  case 0
  then show ?case using assms by simp
next
  case (Suc n)
  then show ?case
    using assms by (auto simp: FPSControl_Tick_def Let_def algebra_simps split: prod.splits)
qed

text \<open>
  Frame dropping is even: after a reset, of any first \<open>n\<close> source frames exactly
  \<open>\<lfloor>n * dst_fps / src_fps\<rfloor>\<close> are kept, so the kept frames never lag or lead the target rate by
  a whole frame, and the state stays in \<open>[0, src_fps)\<close>.
\<close>

theorem FPSControl_even:
  assumes "0 \<le> dst_fps c" and "dst_fps c \<le> src_fps c" and "0 < src_fps c"
  shows "int (length (filter (\<lambda>b. b) (fst (ticks_of n (FPSControl_Reset c))))) =
      \<lfloor>of_nat n * dst_fps c / src_fps c\<rfloor> \<and>
    0 \<le> mState (snd (ticks_of n (FPSControl_Reset c))) \<and>
    mState (snd (ticks_of n (FPSControl_Reset c))) < src_fps c"
proof -
  obtain bs c' where run: "ticks_of n (FPSControl_Reset c) = (bs, c')" by (cases "ticks_of n (FPSControl_Reset c)")
  let ?k = "length (filter (\<lambda>b. b) bs)"
  have inv: "0 \<le> mState c'" "mState c' < src_fps c" "of_nat ?k * src_fps c + mState c' = of_nat n * dst_fps c"
    using ticks_of_inv [of "FPSControl_Reset c" n] assms run by (auto simp: FPSControl_Reset_def)
  have "of_nat n * dst_fps c / src_fps c = of_nat ?k + mState c' / src_fps c"
    using inv(3) assms(3) by (simp add: field_simps)
  moreover have "0 \<le> mState c' / src_fps c" "mState c' / src_fps c < 1" using inv assms(3) by simp_all
  ultimately have "\<lfloor>of_nat n * dst_fps c / src_fps c\<rfloor> = int ?k" by (simp add: floor_eq_iff)
  then show ?thesis using run inv by simp
qed

theorem FPSControl_even_witness:
  "int (length (filter (\<lambda>b. b) (fst (ticks_of 7 (FPSControl_Reset \<lparr>src_fps = 60, dst_fps = 25, mState = 9\<rparr>))))) =
      \<lfloor>of_nat 7 * (25 :: rat) / 60\<rfloor> \<and>
    0 \<le> mState (snd (ticks_of 7 (FPSControl_Reset \<lparr>src_fps = 60, dst_fps = 25, mState = 9\<rparr>))) \<and>
    mState (snd (ticks_of 7 (FPSControl_Reset \<lparr>src_fps = 60, dst_fps = 25, mState = 9\<rparr>))) < 60"
  using FPSControl_even [of "\<lparr>src_fps = 60, dst_fps = 25, mState = 9\<rparr>" 7] by simp

definition kalman_ok :: "SimpleKalmanFilter \<Rightarrow> bool" where
  "kalman_ok k \<longleftrightarrow> 0 < err_measure k \<and> 0 \<le> err_estimate k \<and> 0 \<le> noise_q k"

definition kalman_run :: "rat list \<Rightarrow> SimpleKalmanFilter \<Rightarrow> SimpleKalmanFilter" where
  "kalman_run ms k = fold (\<lambda>m k. snd (kalman_update m k)) ms k"

lemma convex_bounds:
  fixes g x y lo hi :: rat
  assumes "0 \<le> g" "g \<le> 1" "lo \<le> x" "x \<le> hi" "lo \<le> y" "y \<le> hi"
  shows "lo \<le> x + g * (y - x)" "x + g * (y - x) \<le> hi"
proof -
  have "x + g * (y - x) = (1 - g) * x + g * y" by (simp add: algebra_simps)
  moreover have "(1 - g) * lo + g * lo \<le> (1 - g) * x + g * y" "(1 - g) * x + g * y \<le> (1 - g) * hi + g * hi"
    using assms by (intro add_mono mult_left_mono; simp)+
  ultimately show "lo \<le> x + g * (y - x)" "x + g * (y - x) \<le> hi" by (simp_all add: algebra_simps)
qed

lemma kalman_update_ok:
  assumes "kalman_ok k" and "lo \<le> last_estimate k" "last_estimate k \<le> hi" and "lo \<le> m" "m \<le> hi"
  shows "kalman_ok (snd (kalman_update m k)) \<and> lo \<le> last_estimate (snd (kalman_update m k)) \<and>
    last_estimate (snd (kalman_update m k)) \<le> hi"
proof -
  let ?g = "err_estimate k / (err_estimate k + err_measure k)"
  have g: "0 \<le> ?g" "?g \<le> 1" using assms(1) by (simp_all add: kalman_ok_def)
  then have "0 \<le> (1 - ?g) * err_estimate k" using assms(1) by (simp add: kalman_ok_def)
  then show ?thesis
    using assms(1) convex_bounds [OF g assms(2,3,4,5)]
    by (simp add: kalman_update_def Let_def kalman_ok_def)
qed

text \<open>
  The Kalman filter is stable: with positive measurement error it keeps its error estimate
  non-negative through any sequence of updates, and its estimate never leaves the range that
  contains the initial estimate and all measurements.
\<close>

theorem kalman_stable:
  assumes "kalman_ok k" and "lo \<le> last_estimate k" and "last_estimate k \<le> hi"
    and "list_all (\<lambda>m. lo \<le> m \<and> m \<le> hi) ms"
  shows "kalman_ok (kalman_run ms k) \<and> lo \<le> last_estimate (kalman_run ms k) \<and> last_estimate (kalman_run ms k) \<le> hi"
  using assms
proof (induction ms arbitrary: k)
  case (Cons m ms)
  have "kalman_ok (snd (kalman_update m k)) \<and> lo \<le> last_estimate (snd (kalman_update m k)) \<and>
      last_estimate (snd (kalman_update m k)) \<le> hi"
    using Cons.prems by (intro kalman_update_ok) simp_all
  then show ?case using Cons.IH [of "snd (kalman_update m k)"] Cons.prems(4) by (simp add: kalman_run_def)
qed (simp add: kalman_run_def)

theorem kalman_stable_witness:
  "let k = \<lparr>err_measure = 2, err_estimate = 2, noise_q = 1, current_estimate = 0, last_estimate = 10, kalman_gain = 0\<rparr>
   in kalman_ok (kalman_run [12, 8, 11] k) \<and> 8 \<le> last_estimate (kalman_run [12, 8, 11] k) \<and>
      last_estimate (kalman_run [12, 8, 11] k) \<le> 12"
  unfolding Let_def by (rule kalman_stable) (simp_all add: kalman_ok_def)

text \<open>\<open>qexpneg\<close> maps the non-negative numbers into \<open>[0, 1)\<close>, as \<open>1 - exp (- x)\<close> does.\<close>

lemma qexpneg_range: "0 \<le> x \<Longrightarrow> 0 \<le> qexpneg x \<and> qexpneg x < 1"
proof -
  assume x: "0 \<le> x"
  have "0 \<le> x * (1 + x / 2 * (1 + x / 3))" using x by simp
  then have "1 \<le> 1 + x * (1 + x / 2 * (1 + x / 3))" by simp
  then show ?thesis by (simp add: qexpneg_def)
qed

end
