(* ===== verification/Sync.thy ===== *)
theory Sync
  imports Prelude
begin

text \<open>
  The synchronisation primitives of the code base: the spin lock of src/src/zzlab/testkit.h as
  a step relation over any number of threads (the operations on the \<open>std::atomic_flag\<close> are the
  atomic steps, interleaved in any order), and the scope guards \<open>ZzScopedLock\<close> and \<open>Scoped\<close> of
  src/src/zzlab/ZzUtils.h as brackets around a computation.
\<close>

section \<open>The spin lock\<close>

text \<open>
  Where a thread is: outside, at \<open>test_and_set\<close>, at the inner \<open>test\<close> (present when the
  library has \<open>atomic_flag::test\<close>), or past \<open>spinlock_lock\<close>.
\<close>

datatype pc = Outside | At_test_and_set | At_test | Holding

record spin =
  flag :: bool
  pcs :: "nat \<Rightarrow> pc"

definition spin_init :: spin where
  "spin_init = \<lparr>flag = False, pcs = (\<lambda>_. Outside)\<rparr>"

definition at :: "nat \<Rightarrow> pc \<Rightarrow> spin \<Rightarrow> spin" where
  "at t p s = s\<lparr>pcs := (pcs s)(t := p)\<rparr>"

text \<open>
  \<open>spinlock_lock\<close>: call, the atomic exchange of the outer loop, one test of the inner loop.
  \<open>has_test\<close> says whether the inner loop is compiled in; without it the exchange is retried.
\<close>

inductive lock_step :: "bool \<Rightarrow> nat \<Rightarrow> spin \<Rightarrow> spin \<Rightarrow> bool" for has_test t where
  call_lock: "pcs s t = Outside \<Longrightarrow> lock_step has_test t s (at t At_test_and_set s)"
| acquired: "pcs s t = At_test_and_set \<Longrightarrow> \<not> flag s \<Longrightarrow>
    lock_step has_test t s (at t Holding (s\<lparr>flag := True\<rparr>))"
| busy: "pcs s t = At_test_and_set \<Longrightarrow> flag s \<Longrightarrow>
    lock_step has_test t s (at t (if has_test then At_test else At_test_and_set) (s\<lparr>flag := True\<rparr>))"
| spinning: "pcs s t = At_test \<Longrightarrow> flag s \<Longrightarrow> lock_step has_test t s s"
| retry: "pcs s t = At_test \<Longrightarrow> \<not> flag s \<Longrightarrow> lock_step has_test t s (at t At_test_and_set s)"

text \<open>\<open>spinlock_unlock\<close>, called by the thread that holds the lock.\<close>

inductive unlock_step :: "nat \<Rightarrow> spin \<Rightarrow> spin \<Rightarrow> bool" for t where
  clear: "pcs s t = Holding \<Longrightarrow> unlock_step t s (at t Outside (s\<lparr>flag := False\<rparr>))"

definition spin_step :: "bool \<Rightarrow> spin \<Rightarrow> spin \<Rightarrow> bool" where
  "spin_step has_test s s' \<longleftrightarrow> (\<exists>t. lock_step has_test t s s' \<or> unlock_step t s s')"

inductive_cases lock_stepE: "lock_step has_test t s s'"
inductive_cases unlock_stepE: "unlock_step t s s'"
inductive_simps unlock_step_simps: "unlock_step t s s'"

lemma at_simps [simp]: "flag (at t p s) = flag s" "pcs (at t p s) u = (if u = t then p else pcs s u)"
  by (simp_all add: at_def)

section \<open>Refinement of a mutex\<close>

text \<open>The abstract lock: free, or held by one thread.\<close>

inductive mutex_step :: "nat option \<Rightarrow> nat option \<Rightarrow> bool" where
  mutex_acquire: "mutex_step None (Some t)"
| mutex_release: "mutex_step (Some t) None"

text \<open>The lock word and the program counters represent the owner.\<close>

fun represents :: "spin \<Rightarrow> nat option \<Rightarrow> bool" where
  "represents s None \<longleftrightarrow> \<not> flag s \<and> (\<forall>t. pcs s t \<noteq> Holding)"
| "represents s (Some t) \<longleftrightarrow> flag s \<and> (\<forall>u. pcs s u = Holding \<longleftrightarrow> u = t)"

lemma lock_step_represents:
  assumes "lock_step has_test t s s'" and "represents s a"
  shows "represents s' a \<or> (a = None \<and> represents s' (Some t))"
  using assms(1)
proof cases
  case acquired
  then show ?thesis using assms(2) by (cases a) (auto split: if_splits)
qed (use assms(2) in \<open>cases a; auto split: if_splits; metis pc.distinct\<close>)+

lemma unlock_step_represents:
  assumes "unlock_step t s s'" and "represents s a"
  shows "a = Some t \<and> represents s' None"
  using assms by (cases a) (auto elim!: unlock_stepE split: if_splits)

lemma spin_step_simulates:
  assumes "spin_step has_test s s'" and "represents s a"
  shows "\<exists>a'. (a' = a \<or> mutex_step a a') \<and> represents s' a'"
  using assms lock_step_represents unlock_step_represents unfolding spin_step_def
  by (metis mutex_step.intros)

locale forward_simulation =
  fixes conc :: "'s \<Rightarrow> 's \<Rightarrow> bool" and abs :: "'a \<Rightarrow> 'a \<Rightarrow> bool" and R :: "'s \<Rightarrow> 'a \<Rightarrow> bool"
  assumes simulates: "conc s s' \<Longrightarrow> R s a \<Longrightarrow> \<exists>a'. (a' = a \<or> abs a a') \<and> R s' a'"
begin

lemma run_simulates:
  assumes "conc\<^sup>*\<^sup>* s s'" and "R s a"
  shows "\<exists>a'. abs\<^sup>*\<^sup>* a a' \<and> R s' a'"
  using assms
proof (induction rule: rtranclp_induct)
  case (step y z)
  then obtain b where "abs\<^sup>*\<^sup>* a b" "R y b" by blast
  with simulates [OF step.hyps(2)] show ?case by (metis rtranclp.rtrancl_into_rtrancl)
qed blast

end

interpretation spin_mutex: forward_simulation "spin_step has_test" mutex_step represents for has_test
  by unfold_locales (rule spin_step_simulates)

text \<open>
  C6: the spin lock refines a mutex: every interleaving of any number of threads that call
  \<open>spinlock_lock\<close> and \<open>spinlock_unlock\<close> corresponds to a run of the abstract lock that is free or
  held by exactly one thread; the flag is set exactly while a thread is past \<open>spinlock_lock\<close>, and
  that thread is the abstract owner.  This holds with and without the inner \<open>test\<close> loop.
\<close>

theorem spinlock_refines_mutex:
  assumes "(spin_step has_test)\<^sup>*\<^sup>* spin_init s"
  shows "\<exists>a. mutex_step\<^sup>*\<^sup>* None a \<and> represents s a"
  by (rule spin_mutex.run_simulates [OF assms]) (simp add: spin_init_def)

theorem spinlock_refines_mutex_witness:
  "\<exists>a. mutex_step\<^sup>*\<^sup>* None a \<and> represents (at 4 Holding ((at 4 At_test_and_set spin_init)\<lparr>flag := True\<rparr>)) a"
proof (rule spinlock_refines_mutex)
  have "lock_step True 4 spin_init (at 4 At_test_and_set spin_init)"
    by (rule call_lock) (simp add: spin_init_def)
  moreover have "lock_step True 4 (at 4 At_test_and_set spin_init)
      (at 4 Holding ((at 4 At_test_and_set spin_init)\<lparr>flag := True\<rparr>))"
    by (rule acquired) (simp_all add: spin_init_def)
  ultimately show "(spin_step True)\<^sup>*\<^sup>* spin_init (at 4 Holding ((at 4 At_test_and_set spin_init)\<lparr>flag := True\<rparr>))"
    by (metis spin_step_def rtranclp.rtrancl_refl rtranclp.rtrancl_into_rtrancl)
qed

text \<open>Mutual exclusion, as a direct consequence.\<close>

lemma spinlock_exclusion:
  assumes "(spin_step has_test)\<^sup>*\<^sup>* spin_init s" and "pcs s t = Holding" and "pcs s u = Holding"
  shows "t = u"
proof -
  obtain a where "represents s a"
    using spin_mutex.run_simulates [OF assms(1), of None] by (auto simp: spin_init_def)
  with assms(2,3) show ?thesis by (cases a) auto
qed

section \<open>Progress\<close>

text \<open>
  The lock is not lost: in every reachable state in which no thread is past
  \<open>spinlock_lock\<close>, any thread that is waiting obtains the lock within two steps of its own.
\<close>

theorem spinlock_progress:
  assumes "(spin_step has_test)\<^sup>*\<^sup>* spin_init s" and "\<forall>u. pcs s u \<noteq> Holding"
    and "pcs s t = At_test_and_set \<or> pcs s t = At_test"
  shows "\<exists>s1 s2. (s1 = s \<or> lock_step has_test t s s1) \<and> lock_step has_test t s1 s2 \<and> pcs s2 t = Holding"
proof -
  obtain a where "represents s a"
    using spin_mutex.run_simulates [OF assms(1), of None] by (auto simp: spin_init_def)
  with assms(2) have free: "\<not> flag s" by (cases a) auto
  have get: "lock_step has_test t r (at t Holding (r\<lparr>flag := True\<rparr>)) \<and> pcs (at t Holding (r\<lparr>flag := True\<rparr>)) t = Holding"
    if "pcs r t = At_test_and_set" "\<not> flag r" for r
    using acquired [OF that] by simp
  show ?thesis
  proof (cases "pcs s t = At_test")
    case True
    then have "lock_step has_test t s (at t At_test_and_set s)" using free by (rule retry)
    then show ?thesis using get [of "at t At_test_and_set s"] free by (metis at_simps)
  next
    case False
    then show ?thesis using get [of s] free assms(3) by metis
  qed
qed

theorem spinlock_progress_witness:
  "\<exists>s1 s2. (s1 = at 4 At_test_and_set spin_init \<or> lock_step False 4 (at 4 At_test_and_set spin_init) s1) \<and>
     lock_step False 4 s1 s2 \<and> pcs s2 4 = Holding"
proof (rule spinlock_progress)
  have "lock_step False 4 spin_init (at 4 At_test_and_set spin_init)"
    by (rule call_lock) (simp add: spin_init_def)
  then show "(spin_step False)\<^sup>*\<^sup>* spin_init (at 4 At_test_and_set spin_init)"
    by (metis spin_step_def r_into_rtranclp)
qed (simp_all add: spin_init_def)

section \<open>Scope guards\<close>

text \<open>
  \<open>ZzScopedLock\<close> locks in its constructor and unlocks in its destructor; \<open>Scoped\<close> runs its
  closure in its destructor.  \<open>body\<close> is the rest of the scope, which may stop early.
\<close>

definition ZzScopedLock :: "('s, unit) state \<Rightarrow> ('s, unit) state \<Rightarrow> ('s, 'a) state \<Rightarrow> ('s, 'a) state" where
  "ZzScopedLock Lock Unlock body = do { Lock; r \<leftarrow> body; Unlock; ret r }"

definition Scoped :: "('s, unit) state \<Rightarrow> ('s, 'a) state \<Rightarrow> ('s, 'a) state" where
  "Scoped d body = do { r \<leftarrow> body; d; ret r }"

text \<open>
  The rule for a guarded scope: with a lock that establishes \<open>held\<close> and an unlock that needs it,
  a body that keeps the lock held leaves it released, and its other effects are kept.
\<close>

lemma wp_ZzScopedLock:
  assumes "wp Lock (\<lambda>_ t. held t \<and> P t) s"
    and "\<And>t. held t \<Longrightarrow> P t \<Longrightarrow> wp body (\<lambda>r u. held u \<and> Q r u) t"
    and "\<And>r u. held u \<Longrightarrow> Q r u \<Longrightarrow> wp Unlock (\<lambda>_ v. \<not> held v \<and> Q r v) u"
  shows "wp (ZzScopedLock Lock Unlock body) (\<lambda>r v. \<not> held v \<and> Q r v) s"
  unfolding ZzScopedLock_def wp_bind wp_return
  by (rule wp_conseq [OF assms(1)]) (auto intro!: wp_conseq [OF assms(2)] assms(3))

lemma wp_Scoped:
  assumes "wp body (\<lambda>r t. wp d (\<lambda>_ u. Q r u) t) s"
  shows "wp (Scoped d body) Q s"
  using assms unfolding Scoped_def wp_bind wp_return .

end
