(* ===== verification/Ticks_Stat.thy ===== *)
theory Ticks_Stat
  imports Complex_Main Prelude
begin

text \<open>
  src/src/utils/zdev-ticks-stat.cpp: the monitor of the four 32-bit tick counters of the FPGA.
  The file system, the clock and the sleep are arguments: the readable paths and the directory
  tree for the search, the lines of the four files and the clock readings for a sample, the
  results of \<open>clock_nanosleep\<close> with the value of \<open>g_stop\<close> for a wait.  Counters and time stamps
  keep their widths, so the intended wrap-around of the counters is visible.  The statistics are
  computed in \<open>long double\<close> by the program and in rational numbers here: the rounding of the
  floating-point operations is left out, and \<open>strtod\<close> and \<open>sqrt\<close> are arguments.
\<close>

section \<open>Samples and parsing\<close>

definition kCounters :: nat where "kCounters = 4"

definition kU32Modulus :: nat where "kU32Modulus = 2 ^ 32"

record Sample =
  ticks :: "u32 list"
  timestamp_ns :: u64

text \<open>\<open>clock_gettime\<close>: its result, the seconds and the nanoseconds.\<close>

definition read_clock_ns :: "int \<times> int \<times> int \<Rightarrow> u64 option" where
  "read_clock_ns ts = (case ts of (rc, tv_sec, tv_nsec) \<Rightarrow>
     if rc \<noteq> 0 then None else Some (of_int tv_sec * 1000000000 + of_int tv_nsec))"

definition counter_path :: "string \<Rightarrow> nat \<Rightarrow> string" where
  "counter_path directory i = directory @ ''/zdev_ticks'' @ [char_of (48 + i)]"

definition counter_files_exist :: "(string \<Rightarrow> bool) \<Rightarrow> string \<Rightarrow> bool" where
  "counter_files_exist readable directory = list_all (\<lambda>i. readable (counter_path directory i)) [0 ..< kCounters]"

text \<open>
  \<open>strtoull\<close> of the C library: white space, an optional sign, for base 0 the prefix \<open>0x\<close> (only
  before a hexadecimal digit) or \<open>0\<close>, then the longest run of digits of the base.  The result is
  the value, whether it was out of range, whether anything was consumed, and the rest.
\<close>

definition c_isspace :: "char \<Rightarrow> bool" where
  "c_isspace c = (c = CHR '' '' \<or> (9 \<le> (of_char c :: nat) \<and> (of_char c :: nat) \<le> 13))"

definition digit_of :: "char \<Rightarrow> nat" where
  "digit_of c = (let n = (of_char c :: nat) in
     if 48 \<le> n \<and> n \<le> 57 then n - 48
     else if 97 \<le> n \<and> n \<le> 122 then n - 87
     else if 65 \<le> n \<and> n \<le> 90 then n - 55 else 36)"

fun base_prefix :: "nat \<Rightarrow> string \<Rightarrow> nat \<times> string" where
  "base_prefix 0 s =
     (case s of
        CHR ''0'' # x # d # r \<Rightarrow>
          if (x = CHR ''x'' \<or> x = CHR ''X'') \<and> digit_of d < 16 then (16, d # r) else (8, s)
      | CHR ''0'' # r \<Rightarrow> (8, s)
      | _ \<Rightarrow> (10, s))"
| "base_prefix b s = (b, s)"

definition value_of :: "nat \<Rightarrow> string \<Rightarrow> nat" where
  "value_of b ds = foldl (\<lambda>v c. v * b + digit_of c) 0 ds"

definition strtoull :: "nat \<Rightarrow> string \<Rightarrow> u64 \<times> bool \<times> bool \<times> string" where
  "strtoull base s =
     (let s1 = dropWhile c_isspace s;
          neg = (s1 \<noteq> [] \<and> hd s1 = CHR ''-'');
          s2 = (if s1 \<noteq> [] \<and> (hd s1 = CHR ''-'' \<or> hd s1 = CHR ''+'') then tl s1 else s1)
      in case base_prefix base s2 of (b, s3) \<Rightarrow>
        let ds = takeWhile (\<lambda>c. digit_of c < b) s3; v = value_of b ds in
        if ds = [] then (0, False, False, s)
        else if v \<ge> 2 ^ 64 then (- 1, True, True, dropWhile (\<lambda>c. digit_of c < b) s3)
        else (if neg then - of_nat v else of_nat v, False, True, dropWhile (\<lambda>c. digit_of c < b) s3))"

definition is_blank :: "char \<Rightarrow> bool" where
  "is_blank c = (c = CHR '' '' \<or> c = CHR 0x09 \<or> c = CHR 0x0d \<or> c = CHR 0x0a)"

definition parse_counter :: "string \<Rightarrow> u32 option" where
  "parse_counter text =
     (let begin = dropWhile is_blank text in
      if begin = [] \<or> hd begin = CHR ''-'' then None
      else case strtoull 0 begin of (v, erange, consumed, rest) \<Rightarrow>
        if erange \<or> \<not> consumed \<or> unat v \<ge> kU32Modulus then None
        else if dropWhile is_blank rest \<noteq> [] then None
        else Some (ucast v))"

text \<open>The lines of the four files; \<open>None\<close> when a file cannot be opened or has no line.\<close>

fun read_counters :: "string option list \<Rightarrow> u32 list option" where
  "read_counters [] = Some []"
| "read_counters (None # ls) = None"
| "read_counters (Some text # ls) =
     (case parse_counter text of
        None \<Rightarrow> None
      | Some v \<Rightarrow> (case read_counters ls of None \<Rightarrow> None | Some vs \<Rightarrow> Some (v # vs)))"

definition read_sample ::
  "int \<times> int \<times> int \<Rightarrow> string option list \<Rightarrow> int \<times> int \<times> int \<Rightarrow> Sample option" where
  "read_sample clk0 texts clk1 =
     (case read_clock_ns clk0 of
        None \<Rightarrow> None
      | Some before \<Rightarrow>
          (case read_counters (take kCounters texts) of
             None \<Rightarrow> None
           | Some values \<Rightarrow>
               (case read_clock_ns clk1 of
                  None \<Rightarrow> None
                | Some after \<Rightarrow>
                    Some \<lparr>ticks = values, timestamp_ns = before + (after - before) div 2\<rparr>)))"

section \<open>The search for the counters\<close>

text \<open>What \<open>lstat\<close> and \<open>opendir\<close> see; \<open>Gone\<close> is an entry whose \<open>lstat\<close> fails.\<close>

datatype fsnode = Regular | Symlink | Special | Gone | Closed_dir | Dir "(string \<times> fsnode) list"

fun is_dir :: "fsnode \<Rightarrow> bool" where
  "is_dir (Dir _) = True"
| "is_dir Closed_dir = True"
| "is_dir _ = False"

text \<open>
  \<open>stop n\<close> is the value of \<open>g_stop\<close> at the \<open>n\<close>-th test of the loops; the number of tests made
  so far is passed along.
\<close>

function find_in_tree ::
  "(nat \<Rightarrow> bool) \<Rightarrow> (string \<Rightarrow> bool) \<Rightarrow> string \<Rightarrow> fsnode \<Rightarrow> nat \<Rightarrow> string option \<times> nat"
and find_entries ::
  "(nat \<Rightarrow> bool) \<Rightarrow> (string \<Rightarrow> bool) \<Rightarrow> string \<Rightarrow> (string \<times> fsnode) list \<Rightarrow> nat \<Rightarrow> string option \<times> nat"
where
  "find_in_tree stop readable rt node n =
     (case node of Dir es \<Rightarrow> find_entries stop readable rt es n | _ \<Rightarrow> (None, n))"
| "find_entries stop readable rt [] n = (None, Suc n)"
| "find_entries stop readable rt ((name, nd) # es) n =
     (if stop n then (None, Suc n)
      else if name = ''.'' \<or> name = ''..'' then find_entries stop readable rt es (Suc n)
      else if nd = Gone then find_entries stop readable rt es (Suc n)
      else if nd = Regular \<and> name = ''zdev_ticks0'' \<and> counter_files_exist readable rt
        then (Some rt, Suc n)
      else if is_dir nd then
        (case find_in_tree stop readable (rt @ ''/'' @ name) nd (Suc n) of
           (Some d, m) \<Rightarrow> (Some d, m)
         | (None, m) \<Rightarrow> find_entries stop readable rt es m)
      else find_entries stop readable rt es (Suc n))"
  by pat_completeness auto
termination
  by (relation "measure (case_sum (\<lambda>(_, _, _, node, _). size node)
       (\<lambda>(_, _, _, es, _). size_list (size_prod (\<lambda>_. 0) size) es))")
     (auto split: fsnode.splits)

definition find_sysfs_directory ::
  "(nat \<Rightarrow> bool) \<Rightarrow> (string \<Rightarrow> bool) \<Rightarrow> (string \<Rightarrow> fsnode) \<Rightarrow> string \<Rightarrow> string" where
  "find_sysfs_directory stop readable fs requested =
     (if requested \<noteq> [] then (if counter_files_exist readable requested then requested else [])
      else
        let default_root = ''/sys/devices/platform/amba_pl@0'' in
        case find_in_tree stop readable default_root (fs default_root) 0 of
          (Some d, _) \<Rightarrow> d
        | (None, n) \<Rightarrow>
            (case find_in_tree stop readable ''/sys/devices'' (fs ''/sys/devices'') n of
               (Some d, _) \<Rightarrow> d | (None, _) \<Rightarrow> []))"

section \<open>Arguments and waiting\<close>

text \<open>
  \<open>strtod\<close> as an argument: the finite value or \<open>None\<close>, whether it was out of range, whether
  anything was consumed, and the rest.
\<close>

definition parse_double ::
  "(string \<Rightarrow> rat option \<times> bool \<times> bool \<times> string) \<Rightarrow> string \<Rightarrow> rat option" where
  "parse_double strtod text =
     (case strtod text of (v, erange, consumed, rest) \<Rightarrow>
        if erange \<or> \<not> consumed \<or> rest \<noteq> [] then None
        else case v of None \<Rightarrow> None | Some x \<Rightarrow> if x \<le> 0 then None else Some x)"

definition parse_count :: "string \<Rightarrow> u64 option" where
  "parse_count text =
     (case strtoull 10 text of (v, erange, consumed, rest) \<Rightarrow>
        if erange \<or> \<not> consumed \<or> rest \<noteq> [] then None else Some v)"

text \<open>
  The absolute deadline handed to \<open>clock_nanosleep\<close>, and the loop around it: each element of the
  list is the error returned and the value of \<open>g_stop\<close> then.  \<open>None\<close>: still waiting when the list
  ends.
\<close>

definition deadline_timespec :: "u64 \<Rightarrow> u64 \<times> u64" where
  "deadline_timespec deadline = (deadline div 1000000000, deadline mod 1000000000)"

fun sleep_until :: "(int \<times> bool) list \<Rightarrow> bool option" where
  "sleep_until [] = None"
| "sleep_until ((err, stop) # es) =
     (if err = 0 \<or> stop then Some (err = 0)
      else if err \<noteq> EINTR then Some False
      else sleep_until es)"

section \<open>Statistics\<close>

text \<open>The infinities the extrema start from are \<open>None\<close>.\<close>

record CounterStats =
  samples :: u64
  total_ticks :: u64
  mean :: rat
  m2 :: rat
  minimum :: "rat option"
  maximum :: "rat option"

definition CounterStats_new :: CounterStats where
  "CounterStats_new = \<lparr>samples = 0, total_ticks = 0, mean = 0, m2 = 0, minimum = None, maximum = None\<rparr>"

definition CounterStats_add :: "u32 \<Rightarrow> rat \<Rightarrow> CounterStats \<Rightarrow> CounterStats" where
  "CounterStats_add tk seconds st =
     (let rate = of_nat (unat tk) / seconds;
          n = samples st + 1;
          delta = rate - mean st;
          mean' = mean st + delta / of_nat (unat n)
      in \<lparr>samples = n, total_ticks = total_ticks st + ucast tk, mean = mean',
          m2 = m2 st + delta * (rate - mean'),
          minimum = (case minimum st of None \<Rightarrow> Some rate | Some m \<Rightarrow> if rate < m then Some rate else Some m),
          maximum = (case maximum st of None \<Rightarrow> Some rate | Some m \<Rightarrow> if rate > m then Some rate else Some m)\<rparr>)"

definition standard_deviation :: "(rat \<Rightarrow> rat) \<Rightarrow> CounterStats \<Rightarrow> rat" where
  "standard_deviation sqrt_ld st =
     (if samples st < 2 then 0 else sqrt_ld (m2 st / of_nat (unat (samples st - 1))))"

section \<open>The monitor\<close>

record monitor =
  previous :: Sample
  stats :: "CounterStats list"
  total_elapsed_ns :: u64
  deadline_ns :: u64
  sample_number :: u64

definition monitor_start :: "u64 \<Rightarrow> Sample \<Rightarrow> monitor" where
  "monitor_start interval_ns first =
     \<lparr>previous = first, stats = replicate kCounters CounterStats_new, total_elapsed_ns = 0,
      deadline_ns = timestamp_ns first + interval_ns, sample_number = 0\<rparr>"

definition tick_delta :: "Sample \<Rightarrow> Sample \<Rightarrow> nat \<Rightarrow> u32" where
  "tick_delta current prev i = ticks current ! i - ticks prev ! i"

text \<open>The body of the loop once a sample has been read.\<close>

definition take_sample :: "u64 \<Rightarrow> Sample \<Rightarrow> monitor \<Rightarrow> monitor" where
  "take_sample interval_ns current m =
     (let elapsed_ns = timestamp_ns current - timestamp_ns (previous m) in
      if elapsed_ns = 0 then
        m\<lparr>previous := current, deadline_ns := timestamp_ns current + interval_ns\<rparr>
      else
        let elapsed_seconds = of_nat (unat elapsed_ns) / 1000000000;
            next = deadline_ns m + interval_ns
        in m\<lparr>sample_number := sample_number m + 1,
             total_elapsed_ns := total_elapsed_ns m + elapsed_ns,
             stats := map (\<lambda>i. CounterStats_add (tick_delta current (previous m) i) elapsed_seconds (stats m ! i))
                        [0 ..< kCounters],
             previous := current,
             deadline_ns := (if next \<le> timestamp_ns current then timestamp_ns current + interval_ns else next)\<rparr>)"

text \<open>
  What the outside world answers in one pass: \<open>g_stop\<close> at the loop test, the results of the wait,
  and the clock and file contents of the sample.
\<close>

record pass =
  g_stop :: bool
  sleeps :: "(int \<times> bool) list"
  clk_before :: "int \<times> int \<times> int"
  texts :: "string option list"
  clk_after :: "int \<times> int \<times> int"

datatype outcome = Running | Finished | Failed

fun monitor_loop :: "u64 \<Rightarrow> u64 \<Rightarrow> pass list \<Rightarrow> monitor \<Rightarrow> outcome \<times> monitor" where
  "monitor_loop interval_ns requested [] m = (Running, m)"
| "monitor_loop interval_ns requested (p # ps) m =
     (if g_stop p \<or> \<not> (requested = 0 \<or> sample_number m < requested) then (Finished, m)
      else case sleep_until (sleeps p) of
        None \<Rightarrow> (Running, m)
      | Some False \<Rightarrow> (Finished, m)
      | Some True \<Rightarrow>
          (case read_sample (clk_before p) (texts p) (clk_after p) of
             None \<Rightarrow> (Failed, m)
           | Some current \<Rightarrow> monitor_loop interval_ns requested ps (take_sample interval_ns current m)))"

text \<open>The rows of the final report: average, minimum, maximum and deviation of each counter.\<close>

definition report :: "(rat \<Rightarrow> rat) \<Rightarrow> monitor \<Rightarrow> (rat \<times> rat option \<times> rat option \<times> rat) list" where
  "report sqrt_ld m =
     (if sample_number m \<noteq> 0 then
        let total_seconds = of_nat (unat (total_elapsed_ns m)) / 1000000000 in
        map (\<lambda>st. (of_nat (unat (total_ticks st)) / total_seconds, minimum st, maximum st,
                   standard_deviation sqrt_ld st)) (stats m)
      else [])"

text \<open>The interval in nanoseconds, rounded to the nearest; \<open>None\<close> when it is out of range.\<close>

definition interval_of :: "rat \<Rightarrow> u64 option" where
  "interval_of interval_seconds =
     (let x = interval_seconds * 1000000000 in
      if x < 1 \<or> x > of_nat (2 ^ 64 - 1) then None else Some (of_int \<lfloor>x + 1 / 2\<rfloor>))"

text \<open>
  \<open>main\<close>: the exit status, \<open>None\<close> while the monitor runs, and the report.  The arguments of the
  command are \<open>args\<close>, without the program name; \<open>first\<close> is what the first sample reads.
\<close>

definition main_args ::
  "(string \<Rightarrow> rat option \<times> bool \<times> bool \<times> string) \<Rightarrow> string list \<Rightarrow> (u64 \<times> u64 \<times> string) option" where
  "main_args strtod args =
     (let interval = (if length args > 0 then parse_double strtod (args ! 0) else Some 1);
          count = (if length args > 1 then parse_count (args ! 1) else Some 0);
          dir = (if length args > 2 then args ! 2 else [])
      in case interval of
           None \<Rightarrow> None
         | Some s \<Rightarrow>
             (case count of
                None \<Rightarrow> None
              | Some n \<Rightarrow>
                  if length args > 3 then None
                  else case interval_of s of None \<Rightarrow> None | Some iv \<Rightarrow> Some (iv, n, dir)))"

definition main_run ::
  "(string \<Rightarrow> rat option \<times> bool \<times> bool \<times> string) \<Rightarrow> (rat \<Rightarrow> rat) \<Rightarrow> (nat \<Rightarrow> bool) \<Rightarrow> (string \<Rightarrow> bool) \<Rightarrow>
   (string \<Rightarrow> fsnode) \<Rightarrow> string list \<Rightarrow> pass \<Rightarrow> pass list \<Rightarrow>
   int option \<times> (rat \<times> rat option \<times> rat option \<times> rat) list" where
  "main_run strtod sqrt_ld stop readable fs args first ps =
     (case main_args strtod args of
        None \<Rightarrow> (Some 2, [])
      | Some (interval_ns, requested, dir) \<Rightarrow>
          if find_sysfs_directory stop readable fs dir = [] then (Some 1, [])
          else case read_sample (clk_before first) (texts first) (clk_after first) of
            None \<Rightarrow> (Some 1, [])
          | Some s0 \<Rightarrow>
              (case monitor_loop interval_ns requested ps (monitor_start interval_ns s0) of
                 (Running, m) \<Rightarrow> (None, [])
               | (Failed, m) \<Rightarrow> (Some 1, [])
               | (Finished, m) \<Rightarrow> (Some 0, report sqrt_ld m)))"

section \<open>The search finds a directory exactly when there is one\<close>

inductive holds_counters :: "(string \<Rightarrow> bool) \<Rightarrow> string \<Rightarrow> (string \<times> fsnode) list \<Rightarrow> string \<Rightarrow> bool"
  for readable where
  here: "(''zdev_ticks0'', Regular) \<in> set es \<Longrightarrow> counter_files_exist readable rt \<Longrightarrow>
    holds_counters readable rt es rt"
| below: "(name, Dir ds) \<in> set es \<Longrightarrow> name \<noteq> ''.'' \<Longrightarrow> name \<noteq> ''..'' \<Longrightarrow>
    holds_counters readable (rt @ ''/'' @ name) ds d \<Longrightarrow> holds_counters readable rt es d"

inductive_simps holds_counters_Nil: "holds_counters readable rt [] d"

lemma holds_counters_Cons:
  "holds_counters readable rt ((name, nd) # es) d \<longleftrightarrow>
     (name = ''zdev_ticks0'' \<and> nd = Regular \<and> counter_files_exist readable rt \<and> d = rt) \<or>
     (\<exists>ds. nd = Dir ds \<and> name \<noteq> ''.'' \<and> name \<noteq> ''..'' \<and> holds_counters readable (rt @ ''/'' @ name) ds d) \<or>
     holds_counters readable rt es d"
  by (subst (1 2) holds_counters.simps) (auto intro: holds_counters.intros)

lemma find_sound:
  "find_in_tree stop readable rt node n = (Some d, k) \<Longrightarrow> \<exists>es. node = Dir es \<and> holds_counters readable rt es d"
  "find_entries stop readable rt es n = (Some d, k) \<Longrightarrow> holds_counters readable rt es d"
proof (induction stop readable rt node n and stop readable rt es n arbitrary: d k and d k
    rule: find_in_tree_find_entries.induct)
  case (3 stop readable rt name nd es n)
  then show ?case
    by (auto simp: holds_counters_Cons simp del: find_in_tree.simps split: if_splits option.splits prod.splits)
qed (auto split: fsnode.splits)

lemma find_complete:
  "stop = (\<lambda>_. False) \<Longrightarrow> find_in_tree stop readable rt node n = (None, k) \<Longrightarrow> node = Dir ds \<Longrightarrow>
    \<not> holds_counters readable rt ds d"
  "stop = (\<lambda>_. False) \<Longrightarrow> find_entries stop readable rt es n = (None, k) \<Longrightarrow> \<not> holds_counters readable rt es d"
proof (induction stop readable rt node n and stop readable rt es n arbitrary: ds d k and d k
    rule: find_in_tree_find_entries.induct)
  case (3 stop readable rt name nd es n)
  then show ?case
    by (auto simp: holds_counters_Cons simp del: find_in_tree.simps split: if_splits option.splits prod.splits)
qed (auto simp: holds_counters_Nil split: fsnode.splits)

text \<open>
  The recursive search of the device tree: unless the user interrupts it, it returns a
  directory exactly when some directory reached without following a symbolic link holds a regular
  file \<open>zdev_ticks0\<close> beside four readable counter files, and the directory returned is such a one.
\<close>

theorem find_in_tree_exact:
  "(fst (find_in_tree (\<lambda>_. False) readable rt (Dir es) 0) \<noteq> None \<longleftrightarrow> (\<exists>d. holds_counters readable rt es d)) \<and>
   pred_option (holds_counters readable rt es) (fst (find_in_tree stop readable rt (Dir es) 0))"
proof -
  have "\<exists>d. holds_counters readable rt es d" if "fst (find_in_tree stop readable rt (Dir es) 0) = Some e" for stop e
    using find_sound(1) [of stop readable rt "Dir es" 0 e] that by (metis prod.collapse fsnode.inject)
  moreover have "fst (find_in_tree (\<lambda>_. False) readable rt (Dir es) 0) \<noteq> None" if "holds_counters readable rt es d" for d
    using find_complete(1) [of "\<lambda>_. False" readable rt "Dir es" 0 _ es d] that by (metis prod.collapse)
  moreover have "pred_option (holds_counters readable rt es) (fst (find_in_tree stop readable rt (Dir es) 0))"
    using find_sound(1) [of stop readable rt "Dir es" 0]
    by (cases "fst (find_in_tree stop readable rt (Dir es) 0)") (auto, metis prod.collapse fsnode.inject)
  ultimately show ?thesis by blast
qed

section \<open>The statistics are those of the rates\<close>

definition rate_of_add :: "u32 \<times> rat \<Rightarrow> rat" where
  "rate_of_add x = of_nat (unat (fst x)) / snd x"

definition stats_of :: "(u32 \<times> rat) list \<Rightarrow> CounterStats" where
  "stats_of xs = fold (\<lambda>(tk, seconds). CounterStats_add tk seconds) xs CounterStats_new"

definition rates :: "(u32 \<times> rat) list \<Rightarrow> rat list" where "rates xs = map rate_of_add xs"

definition average :: "rat list \<Rightarrow> rat" where
  "average rs = sum_list rs / of_nat (length rs)"

lemma rate_of_add_fold: "unsigned (fst x) / snd x = rate_of_add x"
  by (simp add: rate_of_add_def)

lemma stats_of_snoc: "stats_of (xs @ [x]) = CounterStats_add (fst x) (snd x) (stats_of xs)"
  by (simp add: stats_of_def case_prod_beta)

lemma samples_stats_of: "length xs < 2 ^ 64 \<Longrightarrow> samples (stats_of xs) = of_nat (length xs)"
proof (induction xs rule: rev_induct)
  case (snoc x xs)
  then show ?case by (simp add: stats_of_snoc CounterStats_add_def Let_def add.commute)
qed (simp add: stats_of_def CounterStats_new_def)

text \<open>The algebra of one incremental step: \<open>s\<close> the sum, \<open>q\<close> the sum of squares of \<open>n\<close> values.\<close>

lemma welford_step:
  fixes s q x n :: rat
  assumes "n > 0"
  shows "s / n + (x - s / n) / (n + 1) = (s + x) / (n + 1)"
    and "q - s\<^sup>2 / n + (x - s / n) * (x - (s + x) / (n + 1)) = q + x\<^sup>2 - (s + x)\<^sup>2 / (n + 1)"
proof -
  define u v where "u = 1 / n" and "v = 1 / (n + 1)"
  have "n * u = 1" "(n + 1) * v = 1" using assms by (auto simp: u_def v_def)
  then have "s * u + (x - s * u) * v = (s + x) * v"
    "q - s\<^sup>2 * u + (x - s * u) * (x - (s + x) * v) = q + x\<^sup>2 - (s + x)\<^sup>2 * v" by algebra+
  then show "s / n + (x - s / n) / (n + 1) = (s + x) / (n + 1)"
    "q - s\<^sup>2 / n + (x - s / n) * (x - (s + x) / (n + 1)) = q + x\<^sup>2 - (s + x)\<^sup>2 / (n + 1)"
    by (simp_all add: u_def v_def)
qed

lemma stats_of_moments:
  assumes "length xs < 2 ^ 64" and "xs \<noteq> []"
  shows "mean (stats_of xs) = sum_list (rates xs) / of_nat (length xs) \<and>
    m2 (stats_of xs) = sum_list (map power2 (rates xs)) - (sum_list (rates xs))\<^sup>2 / of_nat (length xs)"
  using assms
proof (induction xs rule: rev_induct)
  case (snoc x xs)
  have un: "unat (samples (stats_of xs) + 1) = Suc (length xs)"
  proof -
    have eq: "samples (stats_of xs) + 1 = (of_nat (Suc (length xs)) :: u64)"
      using snoc.prems(1) by (simp add: samples_stats_of add.commute)
    show ?thesis unfolding eq by (rule unat_of_nat_bounded) (use snoc.prems(1) in simp)
  qed
  show ?case
  proof (cases "xs = []")
    case True
    then show ?thesis
      by (simp add: stats_of_def rates_def CounterStats_add_def CounterStats_new_def Let_def
          rate_of_add_def case_prod_beta)
  next
    case False
    define n :: rat where "n = of_nat (length xs)"
    have n: "n > 0" "of_nat (length (xs @ [x])) = n + 1" using False by (simp_all add: n_def)
    have ih: "mean (stats_of xs) = sum_list (rates xs) / n"
      "m2 (stats_of xs) = sum_list (map power2 (rates xs)) - (sum_list (rates xs))\<^sup>2 / n"
      using snoc.IH snoc.prems(1) False by (simp_all add: n_def)
    have un': "(unsigned (samples (stats_of xs) + 1) :: rat) = n + 1"
      using arg_cong [OF un, of "of_nat :: nat \<Rightarrow> rat"] by (simp add: n_def)
    show ?thesis
      using welford_step [OF n(1), of "sum_list (rates xs)" "rate_of_add x"]
        welford_step(2) [OF n(1), of "sum_list (map power2 (rates xs))" "sum_list (rates xs)" "rate_of_add x"]
      unfolding n(2) stats_of_snoc
      by (simp add: CounterStats_add_def Let_def un' ih rate_of_add_fold rates_def)
  qed
qed simp

lemma sum_sq_dev:
  fixes rs :: "rat list"
  assumes "rs \<noteq> []"
  shows "sum_list (map (\<lambda>r. (r - average rs)\<^sup>2) rs) =
    sum_list (map power2 rs) - (sum_list rs)\<^sup>2 / of_nat (length rs)"
proof -
  have gen: "sum_list (map (\<lambda>r. (r - a)\<^sup>2) rs) = sum_list (map power2 rs) - 2 * a * sum_list rs + of_nat (length rs) * a\<^sup>2"
    for a by (induction rs) (simp_all add: power2_eq_square algebra_simps)
  have "of_nat (length rs) \<noteq> (0 :: rat)" using assms by simp
  then show ?thesis unfolding gen average_def by (simp add: field_simps power2_eq_square)
qed

lemma add_extrema:
  assumes "minimum st = Some lo" and "maximum st = Some hi"
  shows "minimum (CounterStats_add (fst x) (snd x) st) = Some (min (rate_of_add x) lo)"
    "maximum (CounterStats_add (fst x) (snd x) st) = Some (max (rate_of_add x) hi)"
  using assms by (auto simp: CounterStats_add_def Let_def rate_of_add_fold)

lemma stats_of_extrema:
  "xs \<noteq> [] \<Longrightarrow> minimum (stats_of xs) = Some (Min (set (rates xs))) \<and>
    maximum (stats_of xs) = Some (Max (set (rates xs)))"
proof (induction xs rule: rev_induct)
  case (snoc x xs)
  show ?case
  proof (cases "xs = []")
    case True
    then show ?thesis
      by (simp add: stats_of_def rates_def CounterStats_add_def CounterStats_new_def Let_def rate_of_add_def
          case_prod_beta)
  next
    case False
    then have ne: "set (rates xs) \<noteq> {}" by (simp add: rates_def)
    have s: "set (rates (xs @ [x])) = insert (rate_of_add x) (set (rates xs))" by (simp add: rates_def)
    show ?thesis
      unfolding s stats_of_snoc Min_insert [OF finite_set ne] Max_insert [OF finite_set ne]
      using snoc.IH [OF False] by (simp add: add_extrema)
  qed
qed simp

text \<open>
  C38: the incremental statistics of a counter agree with their textbook definition (in exact
  arithmetic): the running mean is the average of the rates, the running second moment the sum of
  the squared deviations from that average, and the extrema are those of the rates.
\<close>

theorem incremental_statistics:
  assumes "xs \<noteq> []" and "length xs < 2 ^ 64"
  shows "mean (stats_of xs) = average (rates xs) \<and>
    m2 (stats_of xs) = sum_list (map (\<lambda>r. (r - average (rates xs))\<^sup>2) (rates xs)) \<and>
    minimum (stats_of xs) = Some (Min (set (rates xs))) \<and> maximum (stats_of xs) = Some (Max (set (rates xs)))"
proof -
  have "rates xs \<noteq> []" "length (rates xs) = length xs" using assms(1) by (simp_all add: rates_def)
  then show ?thesis
    using stats_of_moments [OF assms(2,1)] stats_of_extrema [OF assms(1)] sum_sq_dev [of "rates xs"]
    by (simp add: average_def)
qed

theorem incremental_statistics_witness:
  "mean (stats_of [(10, 2), (30, 2)]) = average (rates [(10, 2), (30, 2)]) \<and>
   m2 (stats_of [(10, 2), (30, 2)]) =
     sum_list (map (\<lambda>r. (r - average (rates [(10, 2), (30, 2)]))\<^sup>2) (rates [(10, 2), (30, 2)])) \<and>
   minimum (stats_of [(10, 2), (30, 2)]) = Some (Min (set (rates [(10, 2), (30, 2)]))) \<and>
   maximum (stats_of [(10, 2), (30, 2)]) = Some (Max (set (rates [(10, 2), (30, 2)])))"
  by (rule incremental_statistics) simp_all

section \<open>The reported average is exact\<close>

text \<open>
  \<open>c k i\<close> is the true number of ticks of counter \<open>i\<close> at the \<open>k\<close>-th sample and \<open>t k\<close> its time in
  nanoseconds, both unbounded; the sample holds their low 32 and 64 bits.
\<close>

definition sample_at :: "(nat \<Rightarrow> nat \<Rightarrow> nat) \<Rightarrow> (nat \<Rightarrow> nat) \<Rightarrow> nat \<Rightarrow> Sample" where
  "sample_at c t k = \<lparr>ticks = map (\<lambda>i. of_nat (c k i)) [0 ..< kCounters], timestamp_ns = of_nat (t k)\<rparr>"

definition monitor_after :: "u64 \<Rightarrow> (nat \<Rightarrow> nat \<Rightarrow> nat) \<Rightarrow> (nat \<Rightarrow> nat) \<Rightarrow> nat \<Rightarrow> monitor" where
  "monitor_after iv c t n =
     fold (take_sample iv) (map (sample_at c t) [1 ..< Suc n]) (monitor_start iv (sample_at c t 0))"

lemma monitor_after_Suc:
  "monitor_after iv c t (Suc n) = take_sample iv (sample_at c t (Suc n)) (monitor_after iv c t n)"
  by (simp add: monitor_after_def)

lemma of_nat_step:
  fixes a b :: nat
  assumes "a \<le> b"
  shows "(of_nat b - of_nat a :: 'a::len word) = of_nat (b - a)"
  using assms by (simp add: of_nat_diff)

lemma of_nat_nonzero:
  fixes n :: nat
  assumes "0 < n" and "n < 2 ^ LENGTH('a)"
  shows "(of_nat n :: 'a::len word) \<noteq> 0"
  using unat_of_nat_bounded [OF assms(2)] assms(1) by (metis unat_0 less_irrefl)

lemma ucast_of_nat_small:
  fixes n :: nat
  assumes "n < 2 ^ 32"
  shows "(ucast (of_nat n :: u32) :: u64) = of_nat n"
  using assms by (simp add: word_unat_eq_iff unat_ucast_up unat_of_nat_bounded)

lemma of_nat_telescope:
  fixes a b d :: nat
  assumes "a \<le> b" and "b \<le> d"
  shows "(of_nat (b - a) :: 'a::len word) + of_nat (d - b) = of_nat (d - a)"
proof -
  have "b - a + (d - b) = d - a" using assms by simp
  then show ?thesis by (metis of_nat_add)
qed

lemma take_sample_exact:
  fixes iv :: u64
  assumes "previous m = sample_at c t k" and t: "t k < t (Suc k)" "t (Suc k) < t k + 2 ^ 64"
    and c: "c k i \<le> c (Suc k) i" "c (Suc k) i < c k i + 2 ^ 32" and i: "i < kCounters"
  defines "m' \<equiv> take_sample iv (sample_at c t (Suc k)) m"
  shows "previous m' = sample_at c t (Suc k)" "sample_number m' = sample_number m + 1"
    "total_elapsed_ns m' = total_elapsed_ns m + of_nat (t (Suc k) - t k)"
    "total_ticks (stats m' ! i) = total_ticks (stats m ! i) + of_nat (c (Suc k) i - c k i)"
proof -
  have e: "timestamp_ns (sample_at c t (Suc k)) - timestamp_ns (previous m) = of_nat (t (Suc k) - t k)"
    unfolding assms(1) sample_at_def using t by (simp only: Sample.simps of_nat_step [OF less_imp_le])
  have nz: "(of_nat (t (Suc k) - t k) :: u64) \<noteq> 0" by (rule of_nat_nonzero) (use t in simp_all)
  show "previous m' = sample_at c t (Suc k)" "sample_number m' = sample_number m + 1"
    "total_elapsed_ns m' = total_elapsed_ns m + of_nat (t (Suc k) - t k)"
    unfolding m'_def take_sample_def Let_def e using nz by simp_all
  have "tick_delta (sample_at c t (Suc k)) (previous m) i = of_nat (c (Suc k) i) - of_nat (c k i)"
    using assms(1) i by (simp add: tick_delta_def sample_at_def)
  then have d: "tick_delta (sample_at c t (Suc k)) (previous m) i = of_nat (c (Suc k) i - c k i)"
    using c(1) by (simp only: of_nat_step)
  have "c (Suc k) i - c k i < 2 ^ 32" using c by simp
  then have up: "(ucast (of_nat (c (Suc k) i - c k i) :: u32) :: u64) = of_nat (c (Suc k) i - c k i)"
    by (metis ucast_of_nat_small)
  show "total_ticks (stats m' ! i) = total_ticks (stats m ! i) + of_nat (c (Suc k) i - c k i)"
    unfolding m'_def take_sample_def Let_def e using nz i
    by (simp add: CounterStats_add_def Let_def d up del: of_nat_diff)
qed

definition true_run :: "(nat \<Rightarrow> nat \<Rightarrow> nat) \<Rightarrow> (nat \<Rightarrow> nat) \<Rightarrow> nat \<Rightarrow> bool" where
  "true_run c t n = list_all (\<lambda>k. t k < t (Suc k) \<and> t (Suc k) < t k + 2 ^ 64 \<and>
     list_all (\<lambda>i. c k i \<le> c (Suc k) i \<and> c (Suc k) i < c k i + 2 ^ 32) [0 ..< kCounters]) [0 ..< n]"

lemma true_runD:
  assumes "true_run c t (Suc n)"
  shows "true_run c t n" "t n < t (Suc n)" "t (Suc n) < t n + 2 ^ 64"
    "i < kCounters \<Longrightarrow> c n i \<le> c (Suc n) i" "i < kCounters \<Longrightarrow> c (Suc n) i < c n i + 2 ^ 32"
  using assms by (auto simp: true_run_def list_all_iff)

lemma true_run_mono:
  assumes "i < kCounters"
  shows "true_run c t n \<Longrightarrow> t 0 \<le> t n \<and> c 0 i \<le> c n i"
proof (induction n)
  case (Suc n)
  then show ?case using true_runD [OF Suc.prems] assms by (meson less_imp_le order_trans)
qed simp

lemma monitor_after_exact:
  assumes "true_run c t n" and i: "i < kCounters"
  shows "previous (monitor_after iv c t n) = sample_at c t n \<and>
    length (stats (monitor_after iv c t n)) = kCounters \<and>
    sample_number (monitor_after iv c t n) = of_nat n \<and>
    total_elapsed_ns (monitor_after iv c t n) = of_nat (t n - t 0) \<and>
    total_ticks (stats (monitor_after iv c t n) ! i) = of_nat (c n i - c 0 i)"
  using assms(1)
proof (induction n)
  case 0
  then show ?case using i by (simp add: monitor_after_def monitor_start_def CounterStats_new_def)
next
  case (Suc n)
  note d = true_runD [OF Suc.prems]
  note ih = Suc.IH [OF d(1)] and mono = true_run_mono [OF i d(1)]
  note step = take_sample_exact [OF conjunct1 [OF ih] d(2,3) d(4) [OF i] d(5) [OF i] i, of iv]
  have len: "length (stats (take_sample iv s m)) = kCounters" if "length (stats m) = kCounters" for s m
    using that by (simp add: take_sample_def Let_def)
  have "(of_nat (t n - t 0) :: u64) + of_nat (t (Suc n) - t n) = of_nat (t (Suc n) - t 0)"
    "(of_nat (c n i - c 0 i) :: u64) + of_nat (c (Suc n) i - c n i) = of_nat (c (Suc n) i - c 0 i)"
    using mono d(2) d(4) [OF i] by (simp_all only: of_nat_telescope less_imp_le)
  then show ?case
    unfolding monitor_after_Suc using step ih len by (simp only: of_nat_Suc) simp
qed

text \<open>
  C27: the average the monitor reports for a counter is its true rate: as long as no counter
  advances by 2^32 or more between two samples, however often the 32-bit registers wrap around,
  the report after \<open>n\<close> samples shows the exact number of ticks between the first and the last
  sample per second of elapsed time.
\<close>

theorem reported_average_exact:
  assumes "true_run c t n" and "i < kCounters" and "0 < n" and "n < 2 ^ 64"
    and "t n - t 0 < 2 ^ 64" and "c n i - c 0 i < 2 ^ 64"
  shows "i < length (report sq (monitor_after iv c t n)) \<and>
    fst (report sq (monitor_after iv c t n) ! i) = of_nat (c n i - c 0 i) / (of_nat (t n - t 0) / 1000000000)"
proof -
  note inv = monitor_after_exact [OF assms(1,2), of iv]
  have "sample_number (monitor_after iv c t n) \<noteq> 0" using inv of_nat_nonzero [where 'a = 64] assms(3,4) by simp
  moreover have "unat (total_elapsed_ns (monitor_after iv c t n)) = t n - t 0"
    "unat (total_ticks (stats (monitor_after iv c t n) ! i)) = c n i - c 0 i"
    using inv unat_of_nat_bounded [where 'a = 64, of "t n - t 0"] unat_of_nat_bounded [where 'a = 64, of "c n i - c 0 i"]
      assms(5,6) by simp_all
  ultimately show ?thesis
    using inv assms(2) unfolding report_def Let_def by (simp del: of_nat_unat of_nat_diff)
qed

theorem reported_average_exact_witness:
  "0 < length (report (\<lambda>x. x) (monitor_after 5 (\<lambda>k i. 4294967290 + 10 * k) (\<lambda>k. 1000 * k) 2)) \<and>
   fst (report (\<lambda>x. x) (monitor_after 5 (\<lambda>k i. 4294967290 + 10 * k) (\<lambda>k. 1000 * k) 2) ! 0) =
     of_nat (4294967290 + 10 * 2 - (4294967290 + 10 * 0)) / (of_nat (1000 * 2 - 1000 * 0) / 1000000000)"
  by (rule reported_average_exact [where i = 0]) (simp_all add: true_run_def kCounters_def upt_rec)

section \<open>The cadence\<close>

text \<open>
  A sample taken at or after its deadline sets the next deadline after its own time, by at
  most one interval: a late sample causes no burst of immediate reads.
\<close>

theorem cadence_no_burst:
  assumes "deadline_ns m \<le> timestamp_ns s" and "0 < iv" and "unat (timestamp_ns s) + unat iv < 2 ^ 64"
  shows "timestamp_ns s < deadline_ns (take_sample iv s m) \<and>
    deadline_ns (take_sample iv s m) \<le> timestamp_ns s + iv"
proof -
  have u: "unat (timestamp_ns s + iv) = unat (timestamp_ns s) + unat iv"
    using assms(3) by (simp add: unat_add_bounded)
  have "unat (deadline_ns m) \<le> unat (timestamp_ns s)" using assms(1) by (simp add: word_le_nat_alt)
  then have v: "unat (deadline_ns m + iv) = unat (deadline_ns m) + unat iv"
    using assms(3) by (simp add: unat_add_bounded)
  have "deadline_ns (take_sample iv s m) = timestamp_ns s + iv \<or>
      (deadline_ns (take_sample iv s m) = deadline_ns m + iv \<and> timestamp_ns s < deadline_ns m + iv)"
    by (simp add: take_sample_def Let_def not_le)
  moreover have "0 < unat iv" using assms(2) by (simp add: word_less_nat_alt)
  ultimately show ?thesis using assms(1) by (auto simp: word_less_nat_alt word_le_nat_alt u v)
qed

theorem cadence_no_burst_witness:
  "(70 :: u64) < deadline_ns (take_sample 10 \<lparr>ticks = [1, 2, 3, 4], timestamp_ns = 70\<rparr>
      (monitor_start 10 \<lparr>ticks = [0, 0, 0, 0], timestamp_ns = 50\<rparr>)) \<and>
   deadline_ns (take_sample 10 \<lparr>ticks = [1, 2, 3, 4], timestamp_ns = 70\<rparr>
      (monitor_start 10 \<lparr>ticks = [0, 0, 0, 0], timestamp_ns = 50\<rparr>)) \<le> 80"
  using cadence_no_burst [of "monitor_start 10 \<lparr>ticks = [0, 0, 0, 0], timestamp_ns = 50\<rparr>"
      "\<lparr>ticks = [1, 2, 3, 4], timestamp_ns = 70\<rparr>" 10] by (simp add: monitor_start_def)

lemma base_prefix_10: "base_prefix 10 s = (10, s)"
  by (simp add: eval_nat_numeral)

lemmas parse_defs = strtoull_def Let_def base_prefix_10 c_isspace_def digit_of_def value_of_def is_blank_def
  kU32Modulus_def

text \<open>A negative sample count is accepted: \<open>strtoull\<close> negates it modulo 2^64.\<close>

lemma parse_count_negative: "parse_count ''-1'' = Some (2 ^ 64 - 1)"
  by (simp add: parse_count_def parse_defs)

text \<open>The files hold hexadecimal or decimal numbers; anything else is refused.\<close>

lemma parse_counter_examples:
  "parse_counter ''0xfFffffff'' = Some 0xffffffff"
  "parse_counter ''4294967296'' = None" "parse_counter ''-1'' = None" "parse_counter [] = None"
  by (simp_all add: parse_counter_def parse_defs)

section \<open>The monitor ends\<close>

text \<open>The successive samples have different time stamps, the first one different from \<open>t\<close>.\<close>

fun clock_moves :: "u64 \<Rightarrow> pass list \<Rightarrow> bool" where
  "clock_moves t [] = True"
| "clock_moves t (p # ps) =
     (case read_sample (clk_before p) (texts p) (clk_after p) of
        None \<Rightarrow> True
      | Some s \<Rightarrow> timestamp_ns s \<noteq> t \<and> clock_moves (timestamp_ns s) ps)"

definition wakes :: "(int \<times> bool) list \<Rightarrow> bool" where
  "wakes es = list_ex (\<lambda>(err, stop). err \<noteq> EINTR \<or> stop) es"

lemma sleep_until_returns: "sleep_until es \<noteq> None \<longleftrightarrow> wakes es"
  by (induction es) (auto simp: wakes_def errno_defs)

lemma take_sample_counts:
  "timestamp_ns s \<noteq> timestamp_ns (previous m) \<Longrightarrow>
    sample_number (take_sample iv s m) = sample_number m + 1 \<and> previous (take_sample iv s m) = s"
  by (simp add: take_sample_def Let_def)

text \<open>
  C28: the monitor ends: when a number of samples was requested, every wait is eventually
  followed by something other than an interruption, and the clock moves between samples, the
  loop is over after at most one pass more than there are samples left to take; it never takes
  more samples than requested.
\<close>

theorem monitor_terminates:
  assumes "requested \<noteq> 0" and "sample_number m \<le> requested"
    and "clock_moves (timestamp_ns (previous m)) ps"
    and "list_all (\<lambda>p. wakes (sleeps p)) ps"
    and "unat (requested - sample_number m) < length ps"
  shows "fst (monitor_loop iv requested ps m) \<noteq> Running \<and>
    sample_number (snd (monitor_loop iv requested ps m)) \<le> requested"
  using assms
proof (induction ps arbitrary: m)
  case (Cons p ps)
  have "sleep_until (sleeps p) \<noteq> None" unfolding sleep_until_returns using Cons.prems(4) by simp
  then consider "sleep_until (sleeps p) = Some False" | "sleep_until (sleeps p) = Some True" by (metis option.exhaust)
  then show ?case
  proof cases
    case 2
    show ?thesis
    proof (cases "g_stop p \<or> \<not> sample_number m < requested")
      case False
      then have lt: "sample_number m < requested" "\<not> g_stop p" by auto
      show ?thesis
      proof (cases "read_sample (clk_before p) (texts p) (clk_after p)")
        case None
        then show ?thesis using 2 lt Cons.prems(2) by simp
      next
        case (Some s)
        define m' where "m' = take_sample iv s m"
        have moved: "timestamp_ns s \<noteq> timestamp_ns (previous m)" "clock_moves (timestamp_ns s) ps"
          using Cons.prems(3) Some by auto
        then have m': "sample_number m' = sample_number m + 1" "previous m' = s"
          by (simp_all add: m'_def take_sample_counts)
        have "unat requested < 2 ^ 64" using unsigned_less [of requested] by simp
        then have un: "unat (sample_number m') = Suc (unat (sample_number m))"
          using lt(1) unfolding m'(1) word_less_nat_alt
          by (subst unat_add_bounded) simp_all
        then have le: "sample_number m' \<le> requested" using lt(1) by (simp add: word_le_nat_alt word_less_nat_alt)
        have "unat (requested - sample_number m') < length ps"
          using Cons.prems(2,5) le un lt(1) by (simp add: unat_sub_bounded word_less_nat_alt)
        then have "fst (monitor_loop iv requested ps m') \<noteq> Running \<and>
            sample_number (snd (monitor_loop iv requested ps m')) \<le> requested"
          using Cons.IH [OF Cons.prems(1) le] moved(2) m'(2) Cons.prems(4) by simp
        then show ?thesis using 2 lt Some Cons.prems(1) by (simp add: m'_def)
      qed
    qed (use Cons.prems in simp)
  qed (use Cons.prems in simp)
qed simp

definition pass_at :: "int \<Rightarrow> pass" where
  "pass_at t = \<lparr>g_stop = False, sleeps = [(EINTR, False), (0, False)], clk_before = (0, t, 0),
     texts = replicate 4 (Some ''7''), clk_after = (0, t, 0)\<rparr>"

lemma pass_at_reads:
  "read_sample (clk_before (pass_at t)) (texts (pass_at t)) (clk_after (pass_at t)) =
     Some \<lparr>ticks = [7, 7, 7, 7], timestamp_ns = of_int t * 1000000000\<rparr>"
proof -
  have "parse_counter ''7'' = Some 7" by (simp add: parse_counter_def parse_defs)
  then show ?thesis
    by (simp add: pass_at_def read_sample_def read_clock_ns_def kCounters_def numeral_eq_Suc)
qed

lemma pass_at_sleeps: "sleeps (pass_at t) = [(EINTR, False), (0, False)]"
  by (simp add: pass_at_def)

theorem monitor_terminates_witness:
  "fst (monitor_loop 9 1 [pass_at 1, pass_at 2] (monitor_start 9 \<lparr>ticks = [0, 0, 0, 0], timestamp_ns = 0\<rparr>)) \<noteq> Running \<and>
   sample_number (snd (monitor_loop 9 1 [pass_at 1, pass_at 2]
     (monitor_start 9 \<lparr>ticks = [0, 0, 0, 0], timestamp_ns = 0\<rparr>))) \<le> 1"
  by (rule monitor_terminates)
     (simp_all add: monitor_start_def pass_at_reads pass_at_sleeps wakes_def EINTR_def)

section \<open>The time of a sample\<close>

text \<open>The time attributed to a sample lies between the clock readings before and after it.\<close>

lemma midpoint_between:
  fixes before after :: u64
  assumes "before \<le> after"
  shows "before \<le> before + (after - before) div 2 \<and> before + (after - before) div 2 \<le> after"
proof -
  have d: "unat ((after - before) div 2) = (unat after - unat before) div 2"
    using assms by (simp add: unat_div unat_sub_bounded)
  have le: "unat before \<le> unat after" using assms by (simp add: word_le_nat_alt)
  moreover have "unat after < 2 ^ 64" using unsigned_less [of after] by simp
  ultimately have "unat before + unat ((after - before) div 2) < 2 ^ 64" unfolding d by linarith
  then have "unat (before + (after - before) div 2) = unat before + (unat after - unat before) div 2"
    using unat_add_bounded [of before "(after - before) div 2"] d by simp
  with le show ?thesis by (simp add: word_le_nat_alt)
qed

end
