(* ===== verification/Demo_Apps.thy ===== *)
theory Demo_Apps
  imports Testkit
begin

text \<open>
  The two demonstration programs of src/src/utils: qdemo.cpp (open a capture card, run it, stop
  it) and sc6f0-dante-box.cpp (show the rate of the four tick counters of the FPGA once per
  second).  They share the menu loop \<open>App0::Run\<close>, which takes the list of what \<open>select\<close> and
  \<open>getchar\<close> yield.  The test cases are programs over the calls of \<open>Testkit\<close>: heap objects are
  \<open>O_heap\<close>, the register window is \<open>O_usermm\<close>, the capture device is \<open>O_device\<close>.  Logging is
  left out, except that the rows of the tick report are kept.  The event thread runs the timer
  callback while the main thread waits for the end of the test; \<open>fires\<close> is the list of the times
  at which it does.
\<close>

section \<open>The menu\<close>

text \<open>
  One pass of the loop: the result of \<open>select\<close>, whether stdin is ready, and the character
  read; \<open>EOF\<close> is -1 and is stored in a \<open>char\<close>, so it is none of the cases.  \<open>case_of\<close> is the
  digit a character selects.
\<close>

type_synonym menu_input = "int \<times> bool \<times> int"

definition case_of :: "int \<Rightarrow> int option" where
  "case_of ch = (if 48 \<le> ch \<and> ch \<le> 57 then Some (ch - 48) else None)"

datatype menu_end = Waiting | Quit | Select_failed

fun menu_loop :: "(int \<Rightarrow> 's \<Rightarrow> 's) \<Rightarrow> menu_input list \<Rightarrow> 's \<Rightarrow> menu_end \<times> 's" where
  "menu_loop DoCase [] s = (Waiting, s)"
| "menu_loop DoCase ((err, isset, ch) # xs) s =
     (if err < 0 then (Select_failed, s)
      else if \<not> isset then menu_loop DoCase xs s
      else if ch = 113 then (Quit, s)
      else case case_of ch of
        Some t \<Rightarrow> menu_loop DoCase xs (DoCase t s)
      | None \<Rightarrow> menu_loop DoCase xs s)"

text \<open>\<open>TEST_CASE\<close> is the value of the environment variable, 0 when it is not set.\<close>

definition App_Run :: "(int \<Rightarrow> 's \<Rightarrow> 's) \<Rightarrow> int \<Rightarrow> menu_input list \<Rightarrow> 's \<Rightarrow> menu_end \<times> 's" where
  "App_Run DoCase TEST_CASE xs s =
     (if TEST_CASE \<noteq> 0 then (Quit, DoCase TEST_CASE s) else menu_loop DoCase xs s)"

text \<open>Both programs have one test case; the other numbers do nothing.\<close>

definition DoCase :: "('s, unit) state \<Rightarrow> int \<Rightarrow> 's \<Rightarrow> 's" where
  "DoCase DoWork t s = (if t = 1 then snd (run_state DoWork s) else s)"

section \<open>qdemo\<close>

text \<open>
  Every result is logged and none is tested.  The reply to the creation is the device stored
  through the out parameter.
\<close>

definition qdemo_DoWork :: "qcall api \<Rightarrow> ('z, unit) q" where
  "qdemo_DoWork api = do {
     r0 \<leftarrow> call api (New O_device [AS ''SC0710 PCI'', AI 0]);
     let pDevice = fst r0;
     push FS_main (Delete O_device pDevice);
     _ \<leftarrow> call api (Set O_device ''video_input'' pDevice [AS ''HDMI'']);
     _ \<leftarrow> call api (Set O_device ''audio_input'' pDevice [AS ''EMBEDDED_AUDIO'']);
     _ \<leftarrow> call api (Start O_device pDevice []);
     push FS_main (Stop O_device pDevice);
     flush_stack api FS_main }"

section \<open>sc6f0-dante-box\<close>

record box = testcase +
  pZzLabEnv :: ptr
  pAllStats :: "ptr list"
  avg_ticks :: "ptr \<Rightarrow> int \<times> int"  \<comment> \<open>\<open>last_ts\<close> and \<open>ticks\<close>\<close>
  qres_evt :: int
  tick_msgs :: "(int \<times> int) list list"

type_synonym ('z, 'a) bx = "('z box_ext testcase_ext, 'a) q"

primrec alloc_stats :: "qcall api \<Rightarrow> fsref \<Rightarrow> nat \<Rightarrow> ('z, ptr list) bx" where
  "alloc_stats api k 0 = ret []"
| "alloc_stats api k (Suc n) = do {
     r \<leftarrow> call api (New O_heap []);
     push k (Delete O_heap (fst r));
     modify (\<lambda>s. s\<lparr>avg_ticks := (avg_ticks s)(fst r := (0, 0))\<rparr>);
     ps \<leftarrow> alloc_stats api k n;
     ret (fst r # ps) }"

definition StartTimer :: "qcall api \<Rightarrow> fsref \<Rightarrow> ('z, int \<times> ptr option) bx" where
  "StartTimer api k = do {
     r0 \<leftarrow> call api (New O_heap [AI 4]);
     push k (Delete O_heap (fst r0));
     ps \<leftarrow> alloc_stats api k 4;
     modify (\<lambda>s. s\<lparr>pAllStats := ps\<rparr>);
     r1 \<leftarrow> call api (New O_timer []);
     let pTimer = fst r1;
     push k (Delete O_timer pTimer);
     _ \<leftarrow> call api (Set O_timer ''interval'' pTimer [AI 1000000]);
     r2 \<leftarrow> call api (Start O_timer pTimer []);
     if fst r2 \<noteq> QCAP_RS_SUCCESSFUL then ret (fst r2, None)
     else do {
       push k (Stop O_timer pTimer);
       qres \<leftarrow> TestCase_AddTimerHandler api k pTimer;
       if qres \<noteq> QCAP_RS_SUCCESSFUL then ret (qres, None)
       else ret (qres, Some pTimer) } }"

definition OnStart :: "qcall api \<Rightarrow> fsref \<Rightarrow> ('z, unit) bx" where
  "OnStart api k = do {
     r0 \<leftarrow> call api (New O_usermm [AI 0xB1010000, AI (0xB1010000 + 0x1000 - 1), AB True]);
     modify (\<lambda>s. s\<lparr>pZzLabEnv := fst r0\<rparr>);
     push k (Delete O_usermm (fst r0));
     res \<leftarrow> StartTimer api k;
     modify (\<lambda>s. s\<lparr>qres_evt := fst res\<rparr>) }"

text \<open>The register is read as an unsigned word and kept in an \<open>int\<close>.\<close>

definition read_ticks :: "qcall api \<Rightarrow> nat \<Rightarrow> ('z, int) bx" where
  "read_ticks api i = do {
     s \<leftarrow> State_Monad.get;
     r \<leftarrow> call api (Get O_usermm ''Read'' (pZzLabEnv s) [AI (0x0C + int i * 4)]);
     ret (to_s32 (fst r)) }"

text \<open>One row of the report (ticks and time since the last report) and the new record.\<close>

definition tick_row :: "int \<Rightarrow> int \<Rightarrow> int \<times> int \<Rightarrow> (int \<times> int) \<times> int \<times> int" where
  "tick_row now ticks st = ((ticks - snd st, now - fst st), (now, ticks))"

primrec tick_rows :: "qcall api \<Rightarrow> int \<Rightarrow> nat \<Rightarrow> ptr list \<Rightarrow> ('z, (int \<times> int) list) bx" where
  "tick_rows api now i [] = ret []"
| "tick_rows api now i (p # ps) = do {
     ticks \<leftarrow> read_ticks api i;
     s \<leftarrow> State_Monad.get;
     let (row, st) = tick_row now ticks (avg_ticks s p);
     modify (\<lambda>s. s\<lparr>avg_ticks := (avg_ticks s)(p := st)\<rparr>);
     rows \<leftarrow> tick_rows api now (Suc i) ps;
     ret (row # rows) }"

definition OnTimer :: "qcall api \<Rightarrow> ptr \<Rightarrow> int \<Rightarrow> ('z, unit) bx" where
  "OnTimer api pTimer now = do {
     r0 \<leftarrow> call api (Get O_timer ''wait'' pTimer []);
     if fst r0 \<noteq> QCAP_RS_SUCCESSFUL then ret ()
     else do {
       s \<leftarrow> State_Monad.get;
       rows \<leftarrow> tick_rows api now 0 (pAllStats s);
       modify (\<lambda>s. s\<lparr>tick_msgs := rows # tick_msgs s\<rparr>) } }"

primrec wait_events :: "qcall api \<Rightarrow> (ptr \<times> int) list \<Rightarrow> ('z, unit) bx" where
  "wait_events api [] = ret ()"
| "wait_events api (x # xs) = do { OnTimer api (fst x) (snd x); wait_events api xs }"

text \<open>
  \<open>DoWork\<close>: the guard that empties the stack of the event thread is destroyed before the main
  stack is flushed, and only exists once the event thread was started.
\<close>

definition box_event_phase :: "qcall api \<Rightarrow> (ptr \<times> int) list \<Rightarrow> ('z, unit) bx" where
  "box_event_phase api fires = do {
     modify (\<lambda>s. s\<lparr>qres_evt := QCAP_RS_SUCCESSFUL\<rparr>);
     q1 \<leftarrow> TestCase_ExecInEventHandlers api (OnStart api FS_evt);
     s \<leftarrow> State_Monad.get;
     (if q1 \<noteq> QCAP_RS_SUCCESSFUL then ret ()
      else if qres_evt s \<noteq> QCAP_RS_SUCCESSFUL then ret ()
      else wait_events api fires);
     _ \<leftarrow> OnExitEventHandlers api;
     ret () }"

definition box_DoWork :: "qcall api \<Rightarrow> (ptr \<times> int) list \<Rightarrow> ('z, unit) bx" where
  "box_DoWork api fires = do {
     q0 \<leftarrow> TestCase_StartEventHandlers api;
     (if q0 \<noteq> QCAP_RS_SUCCESSFUL then ret () else box_event_phase api fires);
     flush_stack api FS_main }"

section \<open>Every step keeps the clean-up contract\<close>

text \<open>As \<open>keeps\<close>, without the claim that the fields of the program are unchanged.\<close>

definition holds :: "fsref \<Rightarrow> resource list \<Rightarrow> (qcall, fsref, 'z) stk_scheme \<Rightarrow>
    (qcall, fsref, 'z) stk_scheme \<Rightarrow> bool" where
  "holds k base s t \<longleftrightarrow> q_owns k base t \<and> (\<forall>k'. k' \<noteq> k \<longrightarrow> fs t k' = fs s k')"

lemma keeps_holds: "keeps k base s t \<Longrightarrow> holds k base s t"
  by (simp add: keeps_def frame_of_def holds_def)

lemma holds_seq:
  assumes "wp m (\<lambda>_ t. holds k base s t) s"
    and "\<And>v t. q_owns k base t \<Longrightarrow> wp (f v) (\<lambda>_ u. holds k base t u) t"
  shows "wp (m \<bind> f) (\<lambda>_ u. holds k base s u) s"
  unfolding wp_bind
proof (rule wp_conseq [OF assms(1)])
  fix v t
  assume t: "holds k base s t"
  then have "wp (f v) (\<lambda>_ u. holds k base t u) t" by (intro assms(2)) (simp add: holds_def)
  then show "wp (f v) (\<lambda>_ u. holds k base s u) t"
    by (rule wp_conseq) (use t in \<open>simp add: holds_def\<close>)
qed

lemma holds_modify:
  assumes "\<And>s. trace (f s) = trace s" "\<And>s. fs (f s) = fs s"
  shows "q_owns k base s \<Longrightarrow> wp (modify f) (\<lambda>_ t. holds k base s t) s"
  using assms by (simp add: wp_modify holds_def owns_def)

lemma holds_ret: "q_owns k base s \<Longrightarrow> wp (ret v) (\<lambda>_ t. holds k base s t) s"
  by (simp add: wp_rules holds_def)

lemma holds_get: "q_owns k base s \<Longrightarrow> wp State_Monad.get (\<lambda>_ t. holds k base s t) s"
  by (simp add: wp_rules holds_def)

lemma holds_call:
  assumes "q_rel c = None" and "\<And>r. q_acq c r = None"
  shows "q_owns k base s \<Longrightarrow> wp (call api c) (\<lambda>_ t. holds k base s t) s"
  using assms by (auto simp: holds_def owns_def intro!: wp_callI)

text \<open>Allocate, then push the release.\<close>

lemma holds_new:
  assumes "ob \<noteq> O_shared_callback"
    and "\<And>r t. q_owns k base t \<Longrightarrow> wp (f r) (\<lambda>_ u. holds k base t u) t"
  shows "q_owns k base s \<Longrightarrow>
    wp (call api (New ob as) \<bind> (\<lambda>r. push k (Delete ob (fst r)) \<bind> (\<lambda>_. f r))) (\<lambda>_ t. holds k base s t) s"
proof -
  assume s: "q_owns k base s"
  show ?thesis
    unfolding wp_bind
  proof (rule wp_callI, unfold wp_push)
    fix r
    let ?t = "s\<lparr>trace := (New ob as, r) # trace s,
      fs := (fs (s\<lparr>trace := (New ob as, r) # trace s\<rparr>))(k := Delete ob (fst r) # fs (s\<lparr>trace := (New ob as, r) # trace s\<rparr>) k)\<rparr>"
    have "q_owns k base ?t" using s assms(1) by (simp add: owns_def)
    then have "wp (f r) (\<lambda>_ u. holds k base ?t u) ?t" by (rule assms(2))
    then show "wp (f r) (\<lambda>_ u. holds k base s u) ?t"
      by (rule wp_conseq) (simp add: holds_def)
  qed
qed

lemma alloc_stats_holds:
  fixes s :: "(qcall, fsref, 'z box_ext testcase_ext) stk_scheme"
  shows "q_owns k base s \<Longrightarrow> wp (alloc_stats api k n) (\<lambda>_ t. holds k base s t) s"
proof (induction n arbitrary: s)
  case (Suc n)
  show ?case
    unfolding alloc_stats.simps
    by (rule holds_new [OF _ _ Suc.prems])
       (auto intro!: holds_seq [OF holds_modify] holds_seq [OF Suc.IH] holds_ret)
qed (simp add: holds_ret)

lemma TestCase_AddTimerHandler_holds:
  fixes s :: "(qcall, fsref, 'z testcase_ext) stk_scheme"
  shows "q_owns k base s \<Longrightarrow> wp (TestCase_AddTimerHandler api k p) (\<lambda>_ t. holds k base s t) s"
  unfolding TestCase_AddTimerHandler_def
  by (rule holds_seq [OF holds_get])
     (auto intro: wp_conseq [OF AddTimerHandler_keeps] keeps_holds)

lemma timer_start_holds:
  fixes g :: "('z, 'a) q"
  assumes "\<And>t. q_owns k base t \<Longrightarrow> wp g (\<lambda>_ u. holds k base t u) t"
  shows "q_owns k base s \<Longrightarrow> wp (call api (Start O_timer p []) \<bind> (\<lambda>r.
    if fst r \<noteq> QCAP_RS_SUCCESSFUL then ret (v r)
    else push k (Stop O_timer p) \<bind> (\<lambda>_. g))) (\<lambda>_ t. holds k base s t) s"
  unfolding wp_bind
proof (rule wp_callI)
  fix r :: reply
  assume s: "q_owns k base s"
  let ?s = "s\<lparr>trace := (Start O_timer p [], r) # trace s\<rparr>"
  show "wp (if fst r \<noteq> QCAP_RS_SUCCESSFUL then ret (v r) else push k (Stop O_timer p) \<bind> (\<lambda>_. g))
    (\<lambda>_ t. holds k base s t) ?s"
  proof (cases "fst r = QCAP_RS_SUCCESSFUL")
    case True
    let ?t = "?s\<lparr>fs := (fs ?s)(k := Stop O_timer p # fs ?s k)\<rparr>"
    have "q_owns k base ?t" using s True by (simp add: owns_def)
    then have "wp g (\<lambda>_ u. holds k base ?t u) ?t" by (rule assms)
    then have "wp g (\<lambda>_ u. holds k base s u) ?t" by (rule wp_conseq) (simp add: holds_def)
    then show ?thesis using True by (simp add: wp_bind wp_push)
  next
    case False
    then show ?thesis using s by (simp add: wp_rules holds_def owns_def)
  qed
qed

lemma StartTimer_holds:
  fixes s :: "(qcall, fsref, 'z box_ext testcase_ext) stk_scheme"
  shows "q_owns k base s \<Longrightarrow> wp (StartTimer api k) (\<lambda>_ t. holds k base s t) s"
  unfolding StartTimer_def Let_def
  by (rule holds_new, simp, rule holds_seq [OF alloc_stats_holds], assumption,
      rule holds_seq [OF holds_modify], simp, simp, assumption,
      rule holds_new, simp, rule holds_seq [OF holds_call], simp, simp, assumption, rule timer_start_holds)
     (auto intro!: holds_seq [OF TestCase_AddTimerHandler_holds] holds_ret)

lemma OnStart_holds:
  fixes s :: "(qcall, fsref, 'z box_ext testcase_ext) stk_scheme"
  assumes "q_owns k base s"
  shows "wp (OnStart api k) (\<lambda>_ t. holds k base s t) s"
proof -
  have upd: "u\<lparr>trace := tr, pZzLabEnv := a, fs := b\<rparr> = u\<lparr>trace := tr, fs := b, pZzLabEnv := a\<rparr>"
    for u :: "(qcall, fsref, 'z box_ext testcase_ext) stk_scheme" and tr a b
    by (rule box.equality) simp_all
  have comm: "(call api (New O_usermm as) \<bind> (\<lambda>r0. modify (\<lambda>s. s\<lparr>pZzLabEnv := fst r0\<rparr>) \<bind> (\<lambda>_.
      push k (Delete O_usermm (fst r0)) \<bind> (\<lambda>_. f)))) =
    (call api (New O_usermm as) \<bind> (\<lambda>r0. push k (Delete O_usermm (fst r0)) \<bind> (\<lambda>_.
      modify (\<lambda>s. s\<lparr>pZzLabEnv := fst r0\<rparr>) \<bind> (\<lambda>_. f))))"
    for f :: "('z, unit) bx" and as
    by (rule state.expand) (auto simp: fun_eq_iff push_def upd split: prod.splits)
  show ?thesis
    unfolding OnStart_def comm
    by (rule holds_new [OF _ _ assms])
       (auto intro!: holds_seq [OF holds_modify] holds_seq [OF StartTimer_holds] holds_modify)
qed

lemma read_ticks_holds:
  fixes s :: "(qcall, fsref, 'z box_ext testcase_ext) stk_scheme"
  shows "q_owns k base s \<Longrightarrow> wp (read_ticks api i) (\<lambda>_ t. holds k base s t) s"
  unfolding read_ticks_def by (auto intro!: holds_seq [OF holds_get] holds_seq [OF holds_call] holds_ret)

lemma tick_rows_holds:
  fixes s :: "(qcall, fsref, 'z box_ext testcase_ext) stk_scheme"
  shows "q_owns k base s \<Longrightarrow> wp (tick_rows api now i ps) (\<lambda>_ t. holds k base s t) s"
proof (induction ps arbitrary: s i)
  case (Cons p ps)
  show ?case
    unfolding tick_rows.simps Let_def case_prod_beta
    by (auto intro!: holds_seq [OF read_ticks_holds] holds_seq [OF holds_get] holds_seq [OF holds_modify]
        holds_seq [OF Cons.IH] holds_ret Cons.prems)
qed (simp add: holds_ret)

lemma wait_events_holds:
  fixes s :: "(qcall, fsref, 'z box_ext testcase_ext) stk_scheme"
  shows "q_owns k base s \<Longrightarrow> wp (wait_events api xs) (\<lambda>_ t. holds k base s t) s"
proof (induction xs arbitrary: s)
  case (Cons x xs)
  have timer: "wp (OnTimer api p now) (\<lambda>_ t. holds k base u t) u" if "q_owns k base u"
    for p now and u :: "(qcall, fsref, 'z box_ext testcase_ext) stk_scheme"
    unfolding OnTimer_def using that
    by (auto intro!: holds_seq [OF holds_call] holds_seq [OF holds_get] holds_seq [OF tick_rows_holds]
        holds_ret holds_modify)
  show ?case
    unfolding wait_events.simps by (rule holds_seq [OF timer [OF Cons.prems]]) (rule Cons.IH)
qed (simp add: holds_ret)

text \<open>
  What is documented of \<open>qcap2_event_handlers_invoke\<close>: when it reports success, it has run the
  callback on the event thread.  When it reports a failure it may have run it or not.
\<close>

definition invoke_law :: "qcall api \<Rightarrow> bool" where
  "invoke_law api \<longleftrightarrow> (\<forall>tr h p. fst (api tr (Invoke h p)) = QCAP_RS_SUCCESSFUL \<longrightarrow> outp (api tr (Invoke h p)) 0 \<noteq> 0)"

definition refused :: "reply \<Rightarrow> bool" where
  "refused r \<longleftrightarrow> fst r \<noteq> QCAP_RS_SUCCESSFUL \<and> outp r 0 = 0"

lemma ExecInEventHandlers_wp:
  assumes "invoke_law api"
    and "\<And>t. live q_acq q_rel (trace t) = live q_acq q_rel (trace s) \<Longrightarrow> fs t = fs s \<Longrightarrow> stk.more t = stk.more s \<Longrightarrow>
      wp body (\<lambda>_ u. \<forall>q v r. Q q (u\<lparr>trace := (Delete O_shared_callback v, r) # trace u\<rparr>)) t"
    and "\<And>q r0 r1 r. refused r1 \<Longrightarrow> q \<noteq> QCAP_RS_SUCCESSFUL \<Longrightarrow> Q q (s\<lparr>trace := (Delete O_shared_callback (fst r0), r) #
        (Invoke h (fst r0), r1) # (New O_shared_callback [], r0) # trace s\<rparr>)"
  shows "wp (ExecInEventHandlers api h body) Q s"
  unfolding ExecInEventHandlers_def wp_bind
proof (rule wp_callI)
  fix r0 :: reply
  let ?s = "s\<lparr>trace := (New O_shared_callback [], r0) # trace s\<rparr>"
  define r where "r = api (trace ?s) (Invoke h (fst r0))"
  let ?t = "?s\<lparr>trace := (Invoke h (fst r0), r) # trace ?s\<rparr>"
  have "wp body (\<lambda>_ u. \<forall>q v r. Q q (u\<lparr>trace := (Delete O_shared_callback v, r) # trace u\<rparr>)) ?t"
    by (rule assms(2)) (simp_all split: option.splits)
  then have ran: "wp body (\<lambda>_. wp (call api (Delete O_shared_callback (fst r0))) (\<lambda>_. wp (ret (fst r)) Q)) ?t"
    by (rule wp_conseq) (auto intro!: wp_callI simp: wp_rules)
  have "refused r" if "outp r 0 = 0"
    using assms(1) that by (auto simp: invoke_law_def refused_def r_def)
  then have not_run: "wp (ret ()) (\<lambda>_. wp (call api (Delete O_shared_callback (fst r0))) (\<lambda>_. wp (ret (fst r)) Q)) ?t"
    if "outp r 0 = 0"
    using that by (auto simp: wp_return refused_def intro!: wp_callI assms(3))
  show "wp (call api (Invoke h (fst r0)))
      (\<lambda>r1. wp (if outp r1 0 \<noteq> 0 then body else ret ()) (\<lambda>_. wp (call api (Delete O_shared_callback (fst r0)))
        (\<lambda>_. wp (ret (fst r1)) Q))) ?s"
    unfolding wp_call [of api "Invoke h (fst r0)"] r_def [symmetric] using ran not_run by simp
qed

section \<open>The tick monitor releases what it acquires\<close>

text \<open>While the event thread runs, its stack owns what lies above the resources of the main stack.\<close>

definition two_stacks :: "(qcall, fsref, 'z) stk_scheme \<Rightarrow> bool" where
  "two_stacks t \<longleftrightarrow> list_all (\<lambda>c. q_rel c \<noteq> None) (fs t FS_main) \<and>
     q_owns FS_evt (map (\<lambda>c. the (q_rel c)) (fs t FS_main)) t"

definition main_only :: "(qcall, fsref, 'z) stk_scheme \<Rightarrow> bool" where
  "main_only t \<longleftrightarrow> q_owns FS_main [] t \<and> fs t FS_evt = []"

lemma main_only_two: "main_only t \<Longrightarrow> two_stacks t"
  by (auto simp: main_only_def two_stacks_def owns_def list_all_iff)

lemma two_stacks_holds:
  assumes "two_stacks t"
    and "\<And>base. q_owns FS_evt base t \<Longrightarrow> wp m (\<lambda>_ u. holds FS_evt base t u) t"
  shows "wp m (\<lambda>_ u. two_stacks u) t"
  using assms(1) by (auto simp: two_stacks_def holds_def intro: wp_conseq [OF assms(2)])

lemma two_stacks_cong:
  "live q_acq q_rel (trace u) = live q_acq q_rel (trace t) \<Longrightarrow> fs u = fs t \<Longrightarrow> two_stacks t \<Longrightarrow> two_stacks u"
  by (simp add: two_stacks_def owns_def)

lemma start_main_only:
  fixes s :: "(qcall, fsref, 'z testcase_ext) stk_scheme"
  assumes "main_only s"
  shows "wp (TestCase_StartEventHandlers api) (\<lambda>_ t. main_only t) s"
proof -
  have own: "q_owns FS_main [] s" and evt: "fs s FS_evt = []" using assms by (simp_all add: main_only_def)
  have "wp (StartEventHandlers api FS_main) (\<lambda>_ t. holds FS_main [] s t) s"
    by (rule wp_conseq [OF StartEventHandlers_keeps [OF own]]) (rule keeps_holds)
  then have "wp (TestCase_StartEventHandlers api) (\<lambda>_ t. holds FS_main [] s t) s"
    unfolding TestCase_StartEventHandlers_def
    by (rule holds_seq) (rule holds_seq, auto intro: holds_ret holds_modify split: option.splits)
  then show ?thesis by (rule wp_conseq) (simp add: holds_def main_only_def evt)
qed

text \<open>The register window is mapped by \<open>OnStart\<close>, before anything else of the event thread.\<close>

fun window_open :: "resource list \<Rightarrow> bool" where
  "window_open [] = False"
| "window_open (R_obj O_usermm p # xs) = True"
| "window_open (x # xs) = window_open xs"

text \<open>The library has refused to run a callback while the event thread held something.\<close>

fun exit_refused :: "qcall event list \<Rightarrow> bool" where
  "exit_refused [] = False"
| "exit_refused ((Invoke h p, r) # tr) =
     (refused r \<and> (case live q_acq q_rel tr of Some held \<Rightarrow> window_open held | None \<Rightarrow> False) \<or> exit_refused tr)"
| "exit_refused (e # tr) = exit_refused tr"

lemma exit_refused_Cons: "exit_refused tr \<Longrightarrow> exit_refused (e # tr)"
  by (cases "e # tr" rule: exit_refused.cases) auto

lemma window_openI: "R_obj O_usermm p \<in> set xs \<Longrightarrow> window_open xs"
  by (induction xs rule: window_open.induct) auto

text \<open>A stack of closures that only grows.\<close>

definition grows :: "fsref \<Rightarrow> (qcall, fsref, 'z) stk_scheme \<Rightarrow> (qcall, fsref, 'z) stk_scheme \<Rightarrow> bool" where
  "grows k s t \<longleftrightarrow> set (fs s k) \<subseteq> set (fs t k)"

interpretation gw: step_relation "grows k" for k
  by unfold_locales (auto simp: grows_def)

lemma grows_call: "stays (grows k) (call api c)"
  by (simp add: stays_def wp_call grows_def)

lemma grows_modify: "(\<And>s. fs (f s) = fs s) \<Longrightarrow> stays (grows k) (modify f)"
  by (simp add: stays_def wp_modify grows_def)

lemma grows_push: "stays (grows k) (push k' c)"
  by (auto simp: stays_def wp_push grows_def)

lemmas grows_intros = gw.ret gw.get gw.bind grows_call grows_modify grows_push

lemma grows_alloc: "stays (grows k) (alloc_stats api k n)"
  by (induction n) (auto intro!: grows_intros)

lemma grows_timer: "stays (grows k) (StartTimer api k)"
  unfolding StartTimer_def TestCase_AddTimerHandler_def AddTimerHandler_def Let_def
  by (auto intro!: grows_intros grows_alloc)

lemma grows_wait: "stays (grows k) (wait_events api xs)"
proof (induction xs)
  case (Cons x xs)
  have "stays (grows k) (tick_rows api now i ps)" for now i ps
    by (induction ps arbitrary: i) (auto simp: read_ticks_def Let_def case_prod_beta intro!: grows_intros)
  then show ?case unfolding wait_events.simps OnTimer_def by (auto intro!: grows_intros Cons.IH)
qed (simp add: gw.ret)

definition event_side :: "(qcall, fsref, 'z) stk_scheme \<Rightarrow> bool" where
  "event_side t \<longleftrightarrow> two_stacks t \<and> (\<exists>p. Delete O_usermm p \<in> set (fs t FS_evt))"

lemma event_side_window:
  assumes "event_side t"
  shows "\<exists>held. live q_acq q_rel (trace t) = Some held \<and> window_open held"
proof -
  obtain p where p: "Delete O_usermm p \<in> set (fs t FS_evt)" using assms by (auto simp: event_side_def)
  define held where "held = map (\<lambda>c. the (q_rel c)) (fs t FS_evt) @ map (\<lambda>c. the (q_rel c)) (fs t FS_main)"
  have "R_obj O_usermm p \<in> set held"
    unfolding held_def set_append set_map by (rule UnI1, rule image_eqI [OF _ p]) simp
  then have "window_open held" by (rule window_openI)
  moreover have "live q_acq q_rel (trace t) = Some held"
    using assms by (simp add: event_side_def two_stacks_def owns_def held_def)
  ultimately show ?thesis by blast
qed

lemma OnStart_window: "wp (OnStart api k) (\<lambda>_ t. \<exists>p. Delete O_usermm p \<in> set (fs t k)) s"
proof -
  have rest: "wp (do { res \<leftarrow> StartTimer api k; modify (\<lambda>s. s\<lparr>qres_evt := fst res\<rparr>) })
      (\<lambda>_ t. Delete O_usermm p \<in> set (fs t k)) t" if "Delete O_usermm p \<in> set (fs t k)"
    for p and t :: "(qcall, fsref, 'z box_ext testcase_ext) stk_scheme"
  proof -
    have "stays (grows k) (do { res \<leftarrow> StartTimer api k; modify (\<lambda>s. s\<lparr>qres_evt := fst res\<rparr>) })"
      by (auto intro!: grows_intros grows_timer)
    then show ?thesis unfolding stays_def by (rule allE [of _ t]) (erule wp_conseq, use that in \<open>auto simp: grows_def\<close>)
  qed
  show ?thesis
    unfolding OnStart_def wp_bind [of "call _ _"] wp_bind [of "modify _"] wp_bind [of "push _ _"] wp_call wp_modify wp_push
    by (rule wp_conseq [OF rest]) auto
qed

lemma main_only_cong:
  "live q_acq q_rel (trace u) = live q_acq q_rel (trace t) \<Longrightarrow> fs u = fs t \<Longrightarrow> main_only t \<Longrightarrow> main_only u"
  by (simp add: main_only_def owns_def)

text \<open>\<open>OnStart\<close> has run, or the library has said that it did not.\<close>

definition begun :: "int \<Rightarrow> (qcall, fsref, 'z) stk_scheme \<Rightarrow> bool" where
  "begun q t \<longleftrightarrow> event_side t \<or> main_only t \<and> q \<noteq> QCAP_RS_SUCCESSFUL"

lemma Exec_begun:
  fixes s :: "(qcall, fsref, 'z box_ext testcase_ext) stk_scheme"
  assumes law: "invoke_law api" and s: "main_only s"
  shows "wp (TestCase_ExecInEventHandlers api (OnStart api FS_evt)) begun s"
  unfolding TestCase_ExecInEventHandlers_def wp_bind wp_get
proof (rule ExecInEventHandlers_wp [OF law], goal_cases)
  case (1 t)
  then have t: "two_stacks t" by (intro main_only_two [OF main_only_cong [OF _ _ s]])
  have "wp (OnStart api FS_evt) (\<lambda>_ u. two_stacks u) t"
    by (rule two_stacks_holds [OF t]) (rule OnStart_holds)
  from wp_conj [OF this OnStart_window] show ?case
    by (rule wp_conseq) (auto simp: begun_def event_side_def two_stacks_def owns_def)
next
  case (2 q r0 r1 r)
  then show ?case by (auto simp: begun_def intro!: main_only_cong [OF _ _ s] split: option.splits)
qed

text \<open>What the end of the event side leaves: the main stack, unless the library has refused to run it.\<close>

lemma OnExit_main_only:
  fixes s :: "(qcall, fsref, 'z testcase_ext) stk_scheme"
  assumes law: "invoke_law api" and s: "main_only s \<or> event_side s"
  shows "wp (OnExitEventHandlers api) (\<lambda>_ t. main_only t \<or> exit_refused (trace t)) s"
  unfolding OnExitEventHandlers_def TestCase_ExecInEventHandlers_def wp_bind wp_get
proof (rule ExecInEventHandlers_wp [OF law], goal_cases)
  case (1 t)
  have t: "two_stacks t"
    using s by (rule disjE) (auto simp: event_side_def intro: two_stacks_cong [OF 1(1,2)] main_only_two)
  then have "q_owns FS_evt (map (\<lambda>c. the (q_rel c)) (fs t FS_main)) t" by (simp add: two_stacks_def)
  from tk.flush_releases [OF this, of api] show ?case
    by (rule wp_conseq) (use t in \<open>auto simp: main_only_def owns_def two_stacks_def list_all_iff\<close>)
next
  case (2 q r0 r1 r)
  from s show ?case
  proof
    assume "main_only s"
    then show ?thesis by (auto intro!: disjI1 main_only_cong [of _ s] split: option.splits)
  next
    assume "event_side s"
    from event_side_window [OF this] show ?thesis using 2(1) by auto
  qed
qed

text \<open>
  A library that fails the callback of \<open>OnExitEventHandlers\<close> without running it leaves the event
  stack as it was, with all that it owns; \<open>flush_stack\<close> of the main stack comes next.
\<close>

lemma OnExit_refused_keeps:
  fixes s :: "(qcall, fsref, 'z testcase_ext) stk_scheme"
  assumes "\<And>tr h p. refused (api tr (Invoke h p))"
  shows "wp (OnExitEventHandlers api) (\<lambda>_ t. fs t = fs s \<and> live q_acq q_rel (trace t) = live q_acq q_rel (trace s)) s"
  using assms
  by (simp add: OnExitEventHandlers_def TestCase_ExecInEventHandlers_def ExecInEventHandlers_def wp_bind wp_get wp_call
      wp_return refused_def split: option.split)

text \<open>Nothing is held and both stacks are empty, as before the first and after every test case.\<close>

definition idle :: "(qcall, fsref, 'z) stk_scheme \<Rightarrow> bool" where
  "idle s \<longleftrightarrow> live q_acq q_rel (trace s) = Some [] \<and> fs s FS_main = [] \<and> fs s FS_evt = []"

lemma flush_main: "main_only s \<Longrightarrow> wp (flush_stack api FS_main) (\<lambda>_. idle) s"
  by (auto simp: main_only_def idle_def intro: wp_conseq [OF tk.flush_releases])

text \<open>A refusal stays in the trace.\<close>

definition remembers :: "(qcall, fsref, 'z) stk_scheme \<Rightarrow> (qcall, fsref, 'z) stk_scheme \<Rightarrow> bool" where
  "remembers s t \<longleftrightarrow> (exit_refused (trace s) \<longrightarrow> exit_refused (trace t))"

interpretation rb: step_relation remembers
  by unfold_locales (auto simp: remembers_def)

lemma remembers_call: "stays remembers (call api c)"
  by (simp add: stays_def wp_call remembers_def exit_refused_Cons)

lemma remembers_modify: "(\<And>s. trace (f s) = trace s) \<Longrightarrow> stays remembers (modify f)"
  by (simp add: stays_def wp_modify remembers_def)

lemma remembers_push: "stays remembers (push k c)" "stays remembers (pop k)"
  by (simp_all add: stays_def wp_push wp_pop remembers_def)

lemmas remembers_intros = rb.ret rb.get rb.bind remembers_call remembers_modify remembers_push

lemma remembers_flush: "stays remembers (flush_stack api k)"
proof -
  have "stays remembers (flush_from api k cs)" for cs
    by (induction cs) (auto intro!: remembers_intros)
  then show ?thesis unfolding flush_stack_def by (auto intro!: remembers_intros)
qed

lemma remembers_exec: "stays remembers body \<Longrightarrow> stays remembers (TestCase_ExecInEventHandlers api body)"
  unfolding TestCase_ExecInEventHandlers_def ExecInEventHandlers_def by (auto intro!: remembers_intros)

lemma remembers_start: "stays remembers (OnStart api k)"
proof -
  have "stays remembers (alloc_stats api k n)" for n by (induction n) (auto intro!: remembers_intros)
  then show ?thesis
    unfolding OnStart_def StartTimer_def TestCase_AddTimerHandler_def AddTimerHandler_def Let_def
    by (auto intro!: remembers_intros)
qed

lemma remembers_wait: "stays remembers (wait_events api xs)"
proof (induction xs)
  case (Cons x xs)
  have "stays remembers (tick_rows api now i ps)" for now i ps
    by (induction ps arbitrary: i) (auto simp: read_ticks_def Let_def case_prod_beta intro!: remembers_intros)
  then show ?case unfolding wait_events.simps OnTimer_def by (auto intro!: remembers_intros Cons.IH)
qed (simp add: rb.ret)

lemma remembers_work: "stays remembers (box_DoWork api fires)"
  unfolding box_DoWork_def box_event_phase_def TestCase_StartEventHandlers_def StartEventHandlers_def OnExitEventHandlers_def Let_def
  by (auto intro!: remembers_intros remembers_flush remembers_exec remembers_start remembers_wait split: option.split)

lemma event_phase_main_only:
  fixes t :: "(qcall, fsref, 'z box_ext testcase_ext) stk_scheme"
  assumes law: "invoke_law api" and t: "main_only t"
  shows "wp (box_event_phase api fires) (\<lambda>_ u. main_only u \<or> exit_refused (trace u)) t"
  unfolding box_event_phase_def wp_bind wp_modify wp_get wp_return
proof (rule wp_conseq [OF Exec_begun [OF law]])
  show "main_only (t\<lparr>qres_evt := QCAP_RS_SUCCESSFUL\<rparr>)"
    by (rule main_only_cong [OF _ _ t]) simp_all
next
  fix q1 and u :: "(qcall, fsref, 'z box_ext testcase_ext) stk_scheme"
  assume u: "begun q1 u"
  have wait: "wp (wait_events api fires) (\<lambda>_. event_side) u" if "event_side u"
  proof -
    have "wp (wait_events api fires) (\<lambda>_ w. two_stacks w) u"
      by (rule two_stacks_holds) (use that in \<open>auto simp: event_side_def intro: wait_events_holds\<close>)
    from wp_conj [OF this grows_wait [unfolded stays_def, rule_format, where k = FS_evt]] show ?thesis
      by (rule wp_conseq) (use that in \<open>auto simp: event_side_def grows_def\<close>)
  qed
  have "wp (if q1 \<noteq> QCAP_RS_SUCCESSFUL then ret () else if qres_evt u \<noteq> QCAP_RS_SUCCESSFUL then ret ()
      else wait_events api fires) (\<lambda>_ w. main_only w \<or> event_side w) u"
    using u by (auto simp: begun_def wp_if wp_return intro: wp_conseq [OF wait])
  then show "wp (if q1 \<noteq> QCAP_RS_SUCCESSFUL then ret () else if qres_evt u \<noteq> QCAP_RS_SUCCESSFUL then ret ()
      else wait_events api fires) (\<lambda>_. wp (OnExitEventHandlers api) (\<lambda>_ u. main_only u \<or> exit_refused (trace u))) u"
    by (rule wp_conseq) (rule OnExit_main_only [OF law])
qed

text \<open>
  \<open>DoWork\<close> of the tick monitor returns every resource, however often the timer fires: the
  stack of the event thread is emptied on that thread, then the main stack; unless the library
  refuses to run the callback that empties the first.
\<close>

lemma box_DoWork_idle:
  fixes s :: "(qcall, fsref, 'z box_ext testcase_ext) stk_scheme"
  assumes "invoke_law api" and "idle s \<or> exit_refused (trace s)"
  shows "wp (box_DoWork api fires) (\<lambda>_ t. idle t \<or> exit_refused (trace t)) s"
proof (cases "exit_refused (trace s)")
  case True
  show ?thesis
    by (rule wp_conseq [OF remembers_work [unfolded stays_def, rule_format]]) (use True in \<open>simp add: remembers_def\<close>)
next
  case False
  then have s: "main_only s" using assms(2) by (simp add: idle_def main_only_def owns_def)
  have flush: "wp (flush_stack api FS_main) (\<lambda>_ t. idle t \<or> exit_refused (trace t)) u"
    if "main_only u \<or> exit_refused (trace u)" for u :: "(qcall, fsref, 'z box_ext testcase_ext) stk_scheme"
    using that
  proof
    assume "exit_refused (trace u)"
    then show ?thesis
      by (intro wp_conseq [OF remembers_flush [unfolded stays_def, rule_format]]) (simp add: remembers_def)
  qed (auto intro: wp_conseq [OF flush_main])
  show ?thesis
    unfolding box_DoWork_def wp_bind
  proof (rule wp_conseq [OF start_main_only [OF s]])
    fix q0 and t :: "(qcall, fsref, 'z box_ext testcase_ext) stk_scheme"
    assume t: "main_only t"
    have "wp (if q0 \<noteq> QCAP_RS_SUCCESSFUL then ret () else box_event_phase api fires)
        (\<lambda>_ u. main_only u \<or> exit_refused (trace u)) t"
      using t event_phase_main_only [OF assms(1) t] by (simp add: wp_if wp_return)
    then show "wp (if q0 \<noteq> QCAP_RS_SUCCESSFUL then ret () else box_event_phase api fires)
        (\<lambda>_. wp (flush_stack api FS_main) (\<lambda>_ t. idle t \<or> exit_refused (trace t))) t"
      by (rule wp_conseq) (rule flush)
  qed
qed

text \<open>Any sequence of menu choices keeps a property that \<open>DoWork\<close> keeps.\<close>

lemma App_Run_keeps:
  assumes keep: "\<And>s. P s \<Longrightarrow> wp DoWork (\<lambda>_. P) s" and "P s"
  shows "P (snd (App_Run (DoCase DoWork) TEST_CASE xs s))"
proof -
  have step: "P (DoCase DoWork t u)" if "P u" for t u
    using keep [OF that] that by (simp add: DoCase_def wp_run)
  then have "P (snd (menu_loop (DoCase DoWork) xs u))" if "P u" for u
    using that by (induction "DoCase DoWork" xs u rule: menu_loop.induct) (auto split: option.splits)
  then show ?thesis using assms(2) step by (simp add: App_Run_def)
qed

definition box0 :: box where
  "box0 = \<lparr>trace = [], fs = (\<lambda>_. []), pEventHandlers = 0, pZzLabEnv = 0, pAllStats = [],
     avg_ticks = (\<lambda>_. (0, 0)), qres_evt = 0, tick_msgs = []\<rparr>"

section \<open>What the monitor shows\<close>

text \<open>
  The difference is taken between signed values, so a counter that passes 2^31 shows a large
  negative number of ticks instead of the 11 that elapsed (compare \<open>tick_delta\<close> of the other
  monitor, which is taken modulo 2^32).
\<close>

lemma tick_row_wraps:
  "fst (tick_row 2000000 (to_s32 2147483658) (1000000, to_s32 2147483647)) = (- 4294967285, 1000000)"
  by (simp add: tick_row_def to_s32_def)

text \<open>In the range the difference is the number of ticks and the record follows the register.\<close>

lemma tick_row_exact:
  assumes "0 \<le> a" and "a \<le> b" and "b < 2 ^ 31"
  shows "tick_row now (to_s32 b) (t0, to_s32 a) = ((b - a, now - t0), (now, to_s32 b))"
  using assms by (simp add: tick_row_def)

section \<open>The menu runs the cases that were selected\<close>

definition menu_continues :: "menu_input \<Rightarrow> bool" where
  "menu_continues x = (case x of (err, isset, ch) \<Rightarrow> \<not> err < 0 \<and> \<not> (isset \<and> ch = 113))"

definition menu_case :: "menu_input \<Rightarrow> int option" where
  "menu_case x = (case x of (err, isset, ch) \<Rightarrow> if isset then case_of ch else None)"

text \<open>
  The menu runs \<open>DoCase\<close> once for every digit typed before the first \<open>q\<close> or failed \<open>select\<close>,
  in order, and ends exactly there.
\<close>

lemma menu_loop_runs:
  "menu_loop f xs s =
     (case dropWhile menu_continues xs of
        [] \<Rightarrow> Waiting | (err, _) # _ \<Rightarrow> if err < 0 then Select_failed else Quit,
      fold f (List.map_filter menu_case (takeWhile menu_continues xs)) s)"
  by (induction f xs s rule: menu_loop.induct)
     (auto simp: menu_continues_def menu_case_def case_of_def map_filter_simps split: option.splits)

text \<open>At the end of the input the loop spins: \<open>select\<close> reports stdin ready and nothing matches.\<close>

lemma menu_eof_spins: "menu_loop f (replicate n (1, True, - 1)) s = (Waiting, s)"
  by (induction n) (simp_all add: case_of_def)

section \<open>qdemo does not test its results\<close>

definition run_ok :: "qcall api \<Rightarrow> bool" where
  "run_ok api \<longleftrightarrow> (\<forall>tr p. fst (api tr (Start O_device p [])) = QCAP_RS_SUCCESSFUL)"

definition run_fails :: "qcall api \<Rightarrow> bool" where
  "run_fails api \<longleftrightarrow> (\<forall>tr p. fst (api tr (Start O_device p [])) \<noteq> QCAP_RS_SUCCESSFUL)"

text \<open>
  When the device runs, everything is released in reverse order; when \<open>QCAP_RUN\<close> fails, the
  device is stopped although it was never started.
\<close>

lemma qdemo_releases:
  assumes "trace s = []" and "fs s FS_main = []"
  shows "run_ok api \<Longrightarrow> wp (qdemo_DoWork api) (\<lambda>_ t. live q_acq q_rel (trace t) = Some []) s"
    and "run_fails api \<Longrightarrow> wp (qdemo_DoWork api) (\<lambda>_ t. live q_acq q_rel (trace t) = None) s"
  using assms by (simp_all add: qdemo_DoWork_def flush_stack_def wp_rules wp_call Let_def run_ok_def run_fails_def)

end
