(* ===== verification/Out_Modes.thy ===== *)
theory Out_Modes
  imports Complex_Main Rx_Output
begin

text \<open>
  The choice of the display mode and of the picture rectangle in sc6f0-dante-rx.cpp
  (\<open>mode_vrefresh\<close> and the parts of \<open>apply_drm_modeset\<close> before the first DRM object is made).
  A frame rate is a rational number: the arguments are integers or refresh rates of a mode, so
  \<open>std::isfinite\<close> holds of them.
\<close>

section \<open>Refresh rates\<close>

text \<open>
  \<open>mode_vrefresh\<close> computes in single precision: the operands, the product and the quotient are
  rounded to 24 significant bits, ties to even.  All values are far from the limits of the
  exponent.  \<open>round_quot n d\<close> is \<open>n / d\<close> rounded to an integer, \<open>to_float n\<close> the float next to
  \<open>n\<close>, and \<open>float_div n d\<close> the float quotient.
\<close>

fun bits :: "nat \<Rightarrow> nat" where
  "bits n = (if n = 0 then 0 else Suc (bits (n div 2)))"

declare bits.simps [simp del]

definition round_quot :: "nat \<Rightarrow> nat \<Rightarrow> nat" where
  "round_quot n d =
     (let q = n div d; r = n mod d
      in if 2 * r < d \<or> (2 * r = d \<and> even q) then q else q + 1)"

definition to_float :: "nat \<Rightarrow> nat" where
  "to_float n = round_quot n (2 ^ (bits n - 24)) * 2 ^ (bits n - 24)"

definition at_scale :: "int \<Rightarrow> nat \<Rightarrow> nat \<Rightarrow> nat \<times> nat" where
  "at_scale e n d = (if e \<ge> 0 then (n, d * 2 ^ nat e) else (n * 2 ^ nat (- e), d))"

definition scale :: "int \<Rightarrow> rat" where
  "scale e = (if e \<ge> 0 then 2 ^ nat e else 1 / 2 ^ nat (- e))"

definition quot_exponent :: "nat \<Rightarrow> nat \<Rightarrow> int" where
  "quot_exponent n d =
     (let e = int (bits n) - int (bits d) - 24; (n', d') = at_scale e n d
      in if n' \<ge> 2 ^ 24 * d' then e + 1 else e)"

definition float_div :: "nat \<Rightarrow> nat \<Rightarrow> rat" where
  "float_div n d =
     (if n = 0 then 0
      else let e = quot_exponent n d; (n', d') = at_scale e n d
           in of_nat (round_quot n' d') * scale e)"

definition mode_vrefresh :: "drmModeModeInfo \<Rightarrow> rat" where
  "mode_vrefresh mode =
     (if htotal mode = 0 \<or> vtotal mode = 0 then 0
      else float_div (to_float (to_float (clock mode) * 1000)) (to_float (htotal mode * vtotal mode)))"

lemmas float_defs = mode_vrefresh_def float_div_def quot_exponent_def at_scale_def scale_def to_float_def
  round_quot_def bits.simps Let_def

section \<open>The choice of the mode\<close>

text \<open>The candidates of the fallback loop, and the loop: \<open>None\<close> is \<open>found = false\<close>.\<close>

definition usable_mode :: "bool \<Rightarrow> drmModeModeInfo \<Rightarrow> bool" where
  "usable_mode sdi candidate =
     ((sdi \<longrightarrow> is_sdi_mode candidate) \<and>
      \<not> (hdisplay candidate = 0 \<or> vdisplay candidate = 0 \<or>
         hdisplay candidate > 3840 \<or> vdisplay candidate > 2160 \<or>
         clock candidate > 594000 \<or> mode_vrefresh candidate \<le> 0 \<or>
         mode_vrefresh candidate > 605 / 10 \<or>
         flags candidate AND DRM_MODE_FLAG_INTERLACE \<noteq> 0))"

definition area :: "drmModeModeInfo \<Rightarrow> nat" where
  "area mode = hdisplay mode * vdisplay mode"

definition better_mode :: "drmModeModeInfo \<Rightarrow> drmModeModeInfo \<Rightarrow> bool" where
  "better_mode candidate mode =
     (area candidate > area mode \<or>
      (area candidate = area mode \<and> mode_vrefresh candidate > mode_vrefresh mode))"

fun best_mode :: "bool \<Rightarrow> drmModeModeInfo list \<Rightarrow> drmModeModeInfo option \<Rightarrow> drmModeModeInfo option" where
  "best_mode sdi [] best = best"
| "best_mode sdi (candidate # modes) best =
     (if \<not> usable_mode sdi candidate then best_mode sdi modes best
      else case best of
        None \<Rightarrow> best_mode sdi modes (Some candidate)
      | Some mode \<Rightarrow> best_mode sdi modes (Some (if better_mode candidate mode then candidate else mode)))"

text \<open>The mode for an input of the given size and rate; \<open>None\<close> is the return of -1.\<close>

definition select_output_mode :: "bool \<Rightarrow> drmModeModeInfo list \<Rightarrow> nat \<Rightarrow> nat \<Rightarrow> rat \<Rightarrow> drmModeModeInfo option" where
  "select_output_mode sdi modes width height fps =
     (if sdi \<and> (\<not> sdi_size width height \<or> \<bar>fps - 60\<bar> \<ge> 5 / 1000) then None
      else
        let exact = find_matching_mode modes width height (fps \<le> 0)
                      (\<lambda>m. \<bar>mode_vrefresh m - fps\<bar> < 1 / 2) \<lfloor>fps\<rfloor> False
        in case exact of
             Some mode \<Rightarrow>
               if (sdi \<longrightarrow> is_sdi_mode mode) \<and> \<not> (clock mode > 594000 \<or> mode_vrefresh mode > 605 / 10)
               then Some mode else best_mode sdi modes None
           | None \<Rightarrow> best_mode sdi modes None)"

section \<open>The picture rectangle\<close>

text \<open>The quotients are computed in 64 bits and stored in 32; \<open>& ~1u\<close> clears the last bit.\<close>

definition letterbox :: "nat \<Rightarrow> nat \<Rightarrow> nat \<Rightarrow> nat \<Rightarrow> nat \<times> nat" where
  "letterbox width height output_w output_h =
     (let (rect_w, rect_h) =
        (if width * output_h mod 2 ^ 64 > height * output_w mod 2 ^ 64
         then (output_w, (output_w * height mod 2 ^ 64 div width) mod 2 ^ 32)
         else ((output_h * width mod 2 ^ 64 div height) mod 2 ^ 32, output_h))
      in (2 * (rect_w div 2), 2 * (rect_h div 2)))"

section \<open>The mode that is chosen\<close>

lemma better_mode_trans: "better_mode a b \<Longrightarrow> \<not> better_mode c b \<Longrightarrow> \<not> better_mode c a"
  by (auto simp: better_mode_def)

lemma better_mode_irrefl [simp]: "\<not> better_mode m m"
  by (simp add: better_mode_def)

lemma not_better_trans: "\<not> better_mode a b \<Longrightarrow> \<not> better_mode c a \<Longrightarrow> \<not> better_mode c b"
  by (auto simp: better_mode_def)

lemma best_mode_Some:
  assumes "best_mode sdi modes (Some m0) = r"
  obtains m where "r = Some m" and "m = m0 \<or> (m \<in> set modes \<and> usable_mode sdi m)"
    and "\<not> better_mode m0 m" and "\<And>c. c \<in> set modes \<Longrightarrow> usable_mode sdi c \<Longrightarrow> \<not> better_mode c m"
proof -
  have "\<exists>m. best_mode sdi modes (Some m0) = Some m \<and> (m = m0 \<or> (m \<in> set modes \<and> usable_mode sdi m)) \<and>
      \<not> better_mode m0 m \<and> (\<forall>c \<in> set modes. usable_mode sdi c \<longrightarrow> \<not> better_mode c m)"
  proof (induction modes arbitrary: m0)
    case (Cons c modes)
    let ?m1 = "if usable_mode sdi c \<and> better_mode c m0 then c else m0"
    obtain m where m: "best_mode sdi modes (Some ?m1) = Some m"
      "m = ?m1 \<or> (m \<in> set modes \<and> usable_mode sdi m)" "\<not> better_mode ?m1 m"
      "\<forall>c \<in> set modes. usable_mode sdi c \<longrightarrow> \<not> better_mode c m" using Cons.IH by blast
    have "best_mode sdi (c # modes) (Some m0) = Some m" using m(1) by (auto split: if_splits)
    moreover have "\<not> better_mode m0 m" "usable_mode sdi c \<longrightarrow> \<not> better_mode c m"
      using m(3) by (auto simp: better_mode_def split: if_splits)
    ultimately show ?case using m by (auto split: if_splits)
  qed simp
  then show ?thesis using that assms by blast
qed

lemma best_mode_spec:
  "(case best_mode sdi modes None of
      None \<Rightarrow> \<forall>c \<in> set modes. \<not> usable_mode sdi c
    | Some m \<Rightarrow> m \<in> set modes \<and> usable_mode sdi m \<and>
        (\<forall>c \<in> set modes. usable_mode sdi c \<longrightarrow> \<not> better_mode c m))"
proof (induction modes)
  case (Cons c modes)
  show ?case
  proof (cases "usable_mode sdi c")
    case True
    obtain m where "best_mode sdi modes (Some c) = Some m" "m = c \<or> (m \<in> set modes \<and> usable_mode sdi m)"
      "\<not> better_mode c m" "\<And>c. c \<in> set modes \<Longrightarrow> usable_mode sdi c \<Longrightarrow> \<not> better_mode c m"
      using best_mode_Some [of sdi modes c] by metis
    with True show ?thesis by auto
  qed (use Cons in \<open>auto split: option.splits\<close>)
qed simp

lemma find_matching_mode_sound:
  assumes "find_matching_mode modes width height any_rate near rate interlaced = Some m"
  shows "m \<in> set modes \<and> hdisplay m = width \<and> vdisplay m = height \<and> mode_interlaced m = interlaced"
  using assms
  by (auto simp: find_matching_mode_def mode_scan_spec Let_def find_Some_iff size_matched_def
      split: option.splits)

text \<open>
  C22: the mode of a modeset: it is one of the connector's modes, progressive, with a pixel
  clock of at most 594 MHz and at most 60.5 Hz, an SDI mode on SDI, and either has the size of
  the input or is, among the usable modes, one of the largest area and then of the highest rate.
  No mode is chosen only when the SDI contract refuses the input or no mode is usable.
\<close>

theorem selected_mode_valid:
  "case select_output_mode sdi modes width height fps of
     Some m \<Rightarrow> m \<in> set modes \<and> \<not> mode_interlaced m \<and> clock m \<le> 594000 \<and> mode_vrefresh m \<le> 605 / 10 \<and>
       (sdi \<longrightarrow> is_sdi_mode m \<and> sdi_size width height) \<and>
       ((hdisplay m, vdisplay m) = (width, height) \<or>
        (usable_mode sdi m \<and> (\<forall>c \<in> set modes. usable_mode sdi c \<longrightarrow> \<not> better_mode c m)))
   | None \<Rightarrow> (sdi \<and> (\<not> sdi_size width height \<or> \<bar>fps - 60\<bar> \<ge> 5 / 1000)) \<or>
       (\<forall>c \<in> set modes. \<not> usable_mode sdi c)"
proof (cases "sdi \<and> (\<not> sdi_size width height \<or> \<bar>fps - 60\<bar> \<ge> 5 / 1000)")
  case True
  then show ?thesis by (simp add: select_output_mode_def)
next
  case False
  let ?exact = "find_matching_mode modes width height (fps \<le> 0) (\<lambda>m. \<bar>mode_vrefresh m - fps\<bar> < 1 / 2) \<lfloor>fps\<rfloor> False"
  have best: ?thesis if "select_output_mode sdi modes width height fps = best_mode sdi modes None"
    using that best_mode_spec [where sdi = sdi and modes = modes] False
    by (auto simp: usable_mode_def mode_interlaced_def split: option.splits)
  show ?thesis
  proof (cases ?exact)
    case None
    then show ?thesis using False by (intro best) (auto simp: select_output_mode_def Let_def)
  next
    case (Some m)
    show ?thesis
    proof (cases "(sdi \<longrightarrow> is_sdi_mode m) \<and> \<not> (clock m > 594000 \<or> mode_vrefresh m > 605 / 10)")
      case True
      then have "select_output_mode sdi modes width height fps = Some m"
        using Some False by (simp add: select_output_mode_def Let_def)
      then show ?thesis using find_matching_mode_sound [OF Some] True False by auto
    next
      case no: False
      then have "select_output_mode sdi modes width height fps = best_mode sdi modes None"
        using Some False by (auto simp: select_output_mode_def Let_def)
      then show ?thesis by (rule best)
    qed
  qed
qed

text \<open>A monitor with two modes: the input of 1600x900 is scaled to the larger one.\<close>

definition hd60 :: drmModeModeInfo where
  "hd60 = \<lparr>clock = 148500, hdisplay = 1920, htotal = 2200, vdisplay = 1080, vtotal = 1125, vrefresh = 60,
     flags = 0, mode_rest = []\<rparr>"

definition sd720 :: drmModeModeInfo where
  "sd720 = \<lparr>clock = 74250, hdisplay = 1280, htotal = 1650, vdisplay = 720, vtotal = 750, vrefresh = 60,
     flags = 0, mode_rest = []\<rparr>"

lemma mode_vrefresh_60 [simp]: "mode_vrefresh hd60 = 60" "mode_vrefresh sd720 = 60"
  by (simp_all add: hd60_def sd720_def float_defs)

lemma usable_60: "usable_mode False hd60" "usable_mode False sd720"
  by (simp_all add: usable_mode_def DRM_MODE_FLAG_INTERLACE_def) (simp_all add: hd60_def sd720_def)

lemma better_60: "better_mode hd60 sd720"
  by (simp add: better_mode_def area_def hd60_def sd720_def)

lemma select_60: "select_output_mode False [sd720, hd60] 1600 900 60 = Some hd60"
proof -
  have "find_matching_mode [sd720, hd60] 1600 900 any near rate False = None" for any near rate
    by (simp add: find_matching_mode_def Let_def size_matched_def) (simp add: hd60_def sd720_def)
  then show ?thesis by (simp add: select_output_mode_def usable_60 better_60)
qed

theorem selected_mode_valid_witness:
  "select_output_mode False [sd720, hd60] 1600 900 60 = Some hd60 \<and> hd60 \<in> set [sd720, hd60] \<and>
   usable_mode False hd60 \<and> \<not> better_mode sd720 hd60"
  using selected_mode_valid [where sdi = False and modes = "[sd720, hd60]" and width = 1600 and height = 900 and fps = 60] select_60
  by (auto simp: usable_60) (simp add: hd60_def)

section \<open>The rectangle\<close>

lemma letterbox_exact:
  assumes "0 < w" "w \<le> 3840" "0 < h" "h \<le> 2160" and "ow \<le> 3840" "oh \<le> 2160"
  shows "letterbox w h ow oh =
    (if w * oh > h * ow then (2 * (ow div 2), 2 * (ow * h div w div 2))
     else (2 * (oh * w div h div 2), 2 * (oh div 2)))"
proof -
  have le: "a * b \<le> 3840 * 2160" if "a \<le> 3840" "b \<le> 2160" for a b :: nat
    using that by (rule mult_le_mono)
  have small: "w * oh mod 2 ^ 64 = w * oh" "h * ow mod 2 ^ 64 = h * ow"
    "ow * h mod 2 ^ 64 = ow * h" "oh * w mod 2 ^ 64 = oh * w"
    using le [OF assms(2,6)] le [OF assms(5,4)]
    by (auto simp: mult.commute [of h] mult.commute [of oh] intro!: mod_less)
  have q: "(ow * h div w) mod 2 ^ 32 = ow * h div w" "(oh * w div h) mod 2 ^ 32 = oh * w div h"
    using le [OF assms(2,6)] le [OF assms(5,4)]
    by (auto simp: mult.commute [of oh] intro!: mod_less le_less_trans [OF div_le_dividend])
  show ?thesis by (simp only: letterbox_def small q Let_def split: if_split prod.split) simp
qed

text \<open>
  The picture of an input of any size up to 3840x2160 on an output of at most that size: its
  sides are even and inside the output, the borders on the two sides differ by at most one
  pixel, one side is that of the output (made even), and the other keeps the aspect ratio of
  the input to the largest even number; an input of the size of the output fills it.  No
  product or quotient wraps.
\<close>

theorem letterbox_fits:
  assumes "0 < w" "w \<le> 3840" "0 < h" "h \<le> 2160" and "ow \<le> 3840" "oh \<le> 2160"
    and "letterbox w h ow oh = (rw, rh)"
  shows "even rw \<and> even rh \<and> rw \<le> ow \<and> rh \<le> oh \<and>
    ow - rw - 2 * ((ow - rw) div 2) \<le> 1 \<and> oh - rh - 2 * ((oh - rh) div 2) \<le> 1 \<and>
    (if w * oh > h * ow
     then ow \<le> rw + 1 \<and> rh * w \<le> h * ow \<and> h * ow < (rh + 2) * w
     else oh \<le> rh + 1 \<and> rw * h \<le> w * oh \<and> w * oh < (rw + 2) * h) \<and>
    (w = ow \<and> h = oh \<longrightarrow> rw = 2 * (w div 2) \<and> rh = 2 * (h div 2))"
proof -
  have d: "2 * (x div y div 2) * y \<le> x \<and> x < (2 * (x div y div 2) + 2) * y" if "0 < y" for x y :: nat
  proof -
    have "2 * (x div y div 2) \<le> x div y" "x div y < 2 * (x div y div 2) + 2" by simp_all
    then have "2 * (x div y div 2) * y \<le> x div y * y" "(x div y + 1) * y \<le> (2 * (x div y div 2) + 2) * y"
      by (intro mult_le_mono1; simp)+
    moreover have "x div y * y \<le> x" "x < (x div y + 1) * y"
      using that by (simp_all add: div_times_less_eq_dividend dividend_less_div_times)
    ultimately show ?thesis by (meson le_trans less_le_trans)
  qed
  have e: "2 * (x div 2) \<le> x" "x \<le> 2 * (x div 2) + 1" for x :: nat by simp_all
  show ?thesis
  proof (cases "w * oh > h * ow")
    case True
    then have r: "rw = 2 * (ow div 2)" "rh = 2 * (ow * h div w div 2)"
      using assms(7) letterbox_exact [OF assms(1-6)] by simp_all
    have "rh * w \<le> h * ow \<and> h * ow < (rh + 2) * w" using d [OF assms(1), of "ow * h"] by (simp add: r mult.commute)
    moreover have "rh \<le> oh"
    proof -
      from calculation True have "rh * w < oh * w" by (metis le_less_trans mult.commute)
      then show ?thesis by (simp add: mult_less_cancel2)
    qed
    ultimately show ?thesis using True e [of ow] by (auto simp: r)
  next
    case False
    then have r: "rh = 2 * (oh div 2)" "rw = 2 * (oh * w div h div 2)"
      using assms(7) letterbox_exact [OF assms(1-6)] by simp_all
    have a: "rw * h \<le> w * oh \<and> w * oh < (rw + 2) * h" using d [OF assms(3), of "oh * w"] by (simp add: r mult.commute)
    with False have "rw * h \<le> ow * h" by (metis leI le_trans mult.commute)
    then have "rw \<le> ow" using assms(3) by simp
    then show ?thesis using False a e [of oh] assms(3) by (auto simp: r)
  qed
qed

theorem letterbox_fits_witness:
  "letterbox 1024 768 1920 1080 = (1440, 1080) \<and> even (1440 :: nat) \<and> 1440 * 768 \<le> 1024 * (1080 :: nat)"
  using letterbox_fits [of 1024 768 1920 1080 1440 1080] by (simp add: letterbox_def)

end
