(* ===== verification/Drm_Ledger.thy ===== *)
theory Drm_Ledger
  imports Drm_Ops Rx_Audio
begin

text \<open>
  What the programs on the DRM library share: the environment of the output, the pieces of an
  atomic request, and the proof rules: which kernel objects are alive after a trace
  (\<open>drm_ledger\<close>), programs that neither acquire nor release (\<open>quiet\<close>), and programs that only
  make calls and return a value of a given kind (\<open>yields\<close>).
\<close>

section \<open>The environment of the output\<close>

text \<open>
  What the process knows besides the context: the output and its card, the registry of property
  names, the memory image of a mode and of a connector, the format constants of the
  kernel headers, the directories of sysfs (\<open>None\<close>: \<open>opendir\<close> fails), and the options.
\<close>

record out_env =
  card_env :: rx_env
  e_pname :: pnames
  e_enc :: "drmModeModeInfo \<Rightarrow> int list"
  e_dec :: "int list \<Rightarrow> drmModeModeInfo list"
  e_conn :: "int list \<Rightarrow> drmModeConnector"
  e_encoders :: "int list \<Rightarrow> int \<times> int list"   \<comment> \<open>\<open>encoder_id\<close> and \<open>encoders\<close>\<close>
  e_rgb888 :: int
  e_uyvy10 :: int
  e_yuyv :: int            \<comment> \<open>\<open>DRM_FORMAT_YUYV\<close>\<close>
  e_bgr888 :: int          \<comment> \<open>\<open>DRM_FORMAT_BGR888\<close>\<close>
  e_nv12 :: int            \<comment> \<open>\<open>DRM_FORMAT_NV12\<close>\<close>
  e_dirs :: "string \<Rightarrow> string list option"
  g_sdi_audio_optional :: bool
  g_sdi_audio_disabled :: bool
  g_tpg_pattern :: nat
  g_sdi_output_width :: nat
  g_sdi_output_height :: nat

definition DRM_MODE_CONNECTED :: int where "DRM_MODE_CONNECTED = 1"

abbreviation is_sdi :: "out_env \<Rightarrow> bool" where "is_sdi e \<equiv> output_is_sdi (card_env e)"

definition backend_of :: "out_env \<Rightarrow> Backend" where
  "backend_of e = (if is_sdi e then SDI else HDMI)"

definition passthrough :: "drm_call api \<Rightarrow> out_env \<Rightarrow> bool \<Rightarrow> ('z, int) drm" where
  "passthrough api e enable = embed Alsa api (\<lambda>a. set_sdi_fpga_passthrough a (card_env e) enable)"

section \<open>Pieces of a request\<close>

primrec property_ids :: "drm_call api \<Rightarrow> pnames \<Rightarrow> int \<Rightarrow> string \<Rightarrow> string list \<Rightarrow> ('z, int list) drm" where
  "property_ids api pname obj kind [] = ret []"
| "property_ids api pname obj kind (n # ns) = do {
     i \<leftarrow> drm_property_id api pname obj kind n;
     is \<leftarrow> property_ids api pname obj kind ns;
     ret (i # is) }"

text \<open>The results of \<open>drmModeAtomicAddProperty\<close> are ignored here.\<close>

primrec atomic_adds :: "drm_call api \<Rightarrow> int \<Rightarrow> int \<Rightarrow> (int \<times> int) list \<Rightarrow> ('z, unit) drm" where
  "atomic_adds api req obj [] = ret ()"
| "atomic_adds api req obj (iv # ivs) = do {
     call api (AtomicAdd req obj (fst iv) (snd iv));
     atomic_adds api req obj ivs }"

definition plane_properties :: "string list" where
  "plane_properties = [''CRTC_ID'', ''FB_ID'', ''CRTC_X'', ''CRTC_Y'', ''CRTC_W'', ''CRTC_H'',
     ''SRC_X'', ''SRC_Y'', ''SRC_W'', ''SRC_H'', ''alpha'']"

text \<open>The values of a visible plane; \<open>alpha\<close> only where the plane has it, and source sizes in 16.16.\<close>

definition plane_values :: "int list \<Rightarrow> int \<Rightarrow> int \<Rightarrow> nat \<Rightarrow> nat \<Rightarrow> nat \<Rightarrow> nat \<Rightarrow> nat \<Rightarrow> nat \<Rightarrow> (int \<times> int) list" where
  "plane_values ids crtc fb x y w h sw sh =
     zip (take 10 ids)
       [crtc, fb, int x, int y, int w, int h, 0, 0, int (sw * 2 ^ 16 mod 2 ^ 32), int (sh * 2 ^ 16 mod 2 ^ 32)] @
     (if ids ! 10 \<noteq> 0 then [(ids ! 10, 0xffff)] else [])"

section \<open>Kernel objects\<close>

abbreviation drm_ledger :: "drm_call event list \<Rightarrow> drm_res multiset option" where
  "drm_ledger \<equiv> ledger drm_acq drm_rel"

definition fb_res :: "int \<times> int \<Rightarrow> drm_res multiset" where
  "fb_res p = (if fst p = 0 then {#} else {#D_fb (fst p)#}) + (if snd p = 0 then {#} else {#D_bo (snd p)#})"

definition blob_res :: "int \<Rightarrow> drm_res multiset" where
  "blob_res b = (if b = 0 then {#} else {#D_blob b#})"

definition dev_res :: "int \<Rightarrow> drm_res multiset" where
  "dev_res fd = (if fd < 0 then {#} else {#D_dev fd#})"

lemma fb_res_none [simp]: "fb_res (0, 0) = {#}"
  by (simp add: fb_res_def)

text \<open>The kernel's identifiers are never 0.\<close>

definition kernel_ids :: "drm_call api \<Rightarrow> bool" where
  "kernel_ids api \<longleftrightarrow> nonzero_ids api \<and>
     (\<forall>tr xs. fst (api tr (CreateBlob xs)) = 0 \<longrightarrow> outp (api tr (CreateBlob xs)) 0 \<noteq> 0)"

lemma trace_again: "(c :: (drm_call, 'z) io_scheme)\<lparr>trace := a, trace := b\<rparr> = c\<lparr>trace := b\<rparr>"
  by simp

text \<open>Programs that only make calls which neither acquire nor release.\<close>

definition quiet_rel :: "(drm_call, 'z) io_scheme \<Rightarrow> (drm_call, 'z) io_scheme \<Rightarrow> bool" where
  "quiet_rel s t \<longleftrightarrow> t = s\<lparr>trace := trace t\<rparr> \<and> drm_ledger (trace t) = drm_ledger (trace s)"

abbreviation quiet :: "('z, 'a) drm \<Rightarrow> bool" where "quiet \<equiv> stays quiet_rel"

lemma quiet_def: "quiet m \<longleftrightarrow> (\<forall>s. wp m (\<lambda>_ t. t = s\<lparr>trace := trace t\<rparr> \<and> drm_ledger (trace t) = drm_ledger (trace s)) s)"
  by (simp add: stays_def quiet_rel_def)

interpretation quiet: step_relation quiet_rel
proof unfold_locales
  show "quiet_rel s u" if "quiet_rel s t" "quiet_rel t u" for s t u
  proof -
    have "u = t\<lparr>trace := trace u\<rparr>" "t = s\<lparr>trace := trace t\<rparr>" using that by (simp_all add: quiet_rel_def)
    then have "u = s\<lparr>trace := trace u\<rparr>" by (metis trace_again)
    then show ?thesis using that by (simp add: quiet_rel_def)
  qed
qed (simp add: quiet_rel_def)

lemmas quiet_ret = quiet.ret
lemmas quiet_get = quiet.get
lemmas quiet_bind = quiet.bind

lemma quiet_call:
  "drm_rel q = None \<Longrightarrow> (\<And>r. drm_acq q r = None) \<Longrightarrow> quiet (call api q)"
  by (auto simp: quiet_def wp_call split: option.split)

lemma quiet_step:
  assumes "quiet m" and "\<And>x tr. drm_ledger tr = drm_ledger (trace s) \<Longrightarrow> wp (f x) Q (s\<lparr>trace := tr\<rparr>)"
  shows "wp (State_Monad.bind m f) Q s"
  unfolding wp_bind
  by (rule wp_conseq [where P = "\<lambda>_ t. t = s\<lparr>trace := trace t\<rparr> \<and> drm_ledger (trace t) = drm_ledger (trace s)"])
    (use assms in \<open>auto simp: quiet_def, metis\<close>)

lemma ledger_alsa: "drm_ledger (map (\<lambda>(c, r). (Alsa c, r)) new @ tr) = drm_ledger tr"
  by (induction new) (auto split: option.split)

lemma quiet_passthrough: "quiet (passthrough api e enable)"
  by (auto simp: quiet_def passthrough_def ledger_alsa intro!: wp_embed)

lemma quiet_property_id: "quiet (drm_property_id api pname obj kind name)"
  unfolding drm_property_id_def by (intro quiet_bind quiet_call quiet_ret) simp_all

lemmas quiet_intros = quiet_ret quiet_get quiet_bind quiet_call quiet_passthrough quiet_property_id

lemma quiet_property_value: "quiet (drm_property_value api pname obj kind name)"
  unfolding drm_property_value_def by (intro quiet_intros) simp_all

lemma quiet_property_ids: "quiet (property_ids api pname obj kind ns)"
  by (induction ns) (auto intro!: quiet_intros)

lemma quiet_atomic_adds: "quiet (atomic_adds api req obj ivs)"
  by (induction ivs) (auto intro!: quiet_intros)

lemma quiet_add_properties: "quiet (add_properties api pname obj req ps)"
  by (induction ps) (auto intro!: quiet_intros)

lemma quiet_fill: "quiet (fill_yuyv_dumb_fb api bo w h pitch m)"
  unfolding fill_yuyv_dumb_fb_def by (auto intro!: quiet_intros)

text \<open>The operations that acquire and release.\<close>

lemma wp_create_dumb_fb:
  assumes "kernel_ids api" and "drm_ledger (trace s) = Some M"
    and "\<And>tr. drm_ledger tr = Some M \<Longrightarrow> Q None (s\<lparr>trace := tr\<rparr>)"
    and "\<And>fb bo p tr. drm_ledger tr = Some (M + fb_res (fb, bo)) \<Longrightarrow> Q (Some (fb, bo, p)) (s\<lparr>trace := tr\<rparr>)"
  shows "wp (create_dumb_fb api w h f b) Q s"
  using assms unfolding create_dumb_fb_def
  by (auto simp: wp_rules wp_call kernel_ids_def nonzero_ids_def fb_res_def)

lemma wp_destroy_dumb_fb:
  assumes "0 \<le> fd" and "drm_ledger (trace s) = Some (M + fb_res (fb, bo))"
    and "\<And>tr. drm_ledger tr = Some M \<Longrightarrow> Q (0, 0) (s\<lparr>trace := tr\<rparr>)"
  shows "wp (destroy_dumb_fb api fd fb bo) Q s"
  using assms assms(3) [of "trace s"] unfolding destroy_dumb_fb_def
  by (auto simp: wp_rules wp_call fb_res_def)

lemma wp_destroy_blob:
  assumes "drm_ledger (trace s) = Some (M + {#D_blob b#})"
    and "\<And>tr r. drm_ledger tr = Some M \<Longrightarrow> Q r (s\<lparr>trace := tr\<rparr>)"
  shows "wp (call api (DestroyBlob b)) Q s"
  using assms by (auto simp: wp_call)

section \<open>Results\<close>

text \<open>A driver that grants every request, and programs that only make calls and return a value in \<open>P\<close>.\<close>

definition cooperative :: "drm_call api \<Rightarrow> bool" where
  "cooperative api \<longleftrightarrow>
     (\<forall>tr. (\<forall>w h b. \<not> fst (api tr (CreateDumb w h b)) < 0) \<and> (\<forall>w h f hn p. \<not> fst (api tr (AddFB2 w h f hn p)) < 0) \<and>
        (\<forall>xs. fst (api tr (CreateBlob xs)) = 0) \<and> fst (api tr AtomicAlloc) \<noteq> 0 \<and>
        (\<forall>q. fst (api tr (AtomicCommit q False)) = 0))"

definition yields :: "('z, 'a) drm \<Rightarrow> ('a \<Rightarrow> bool) \<Rightarrow> bool" where
  "yields m P \<longleftrightarrow> (\<forall>s. wp m (\<lambda>r t. P r \<and> t = s\<lparr>trace := trace t\<rparr>) s)"

lemma yields_quiet: "quiet m \<Longrightarrow> yields m (\<lambda>_. True)"
  unfolding quiet_def yields_def by (auto elim: wp_conseq)

lemma yields_step:
  assumes "yields m P" and "\<And>x tr. P x \<Longrightarrow> wp (f x) Q (s\<lparr>trace := tr\<rparr>)"
  shows "wp (State_Monad.bind m f) Q s"
  unfolding wp_bind
  by (rule wp_conseq [where P = "\<lambda>r t. P r \<and> t = s\<lparr>trace := trace t\<rparr>"]) (use assms in \<open>auto simp: yields_def, metis\<close>)

lemma wp_yields:
  assumes "yields m P" and "\<And>x tr. P x \<Longrightarrow> Q x (s\<lparr>trace := tr\<rparr>)"
  shows "wp m Q s"
  by (rule wp_conseq [where P = "\<lambda>r t. P r \<and> t = s\<lparr>trace := trace t\<rparr>"]) (use assms in \<open>auto simp: yields_def, metis\<close>)

lemma yields_ret: "P x \<Longrightarrow> yields (ret x) P"
  by (simp add: yields_def wp_rules)

lemma yields_bind: "yields m P \<Longrightarrow> (\<And>x. P x \<Longrightarrow> yields (f x) Q) \<Longrightarrow> yields (State_Monad.bind m f) Q"
  unfolding yields_def [of "State_Monad.bind m f"]
  by (intro allI, rule yields_step, assumption) (fastforce simp: yields_def elim!: wp_conseq)

lemma yields_call: "(\<And>tr. P (api tr q)) \<Longrightarrow> yields (call api q) P"
  by (simp add: yields_def wp_call)

lemma yields_any: "yields (call api q) (\<lambda>_. True)"
  by (rule yields_call) simp

lemma yields_if: "(b \<Longrightarrow> yields m P) \<Longrightarrow> (\<not> b \<Longrightarrow> yields n P) \<Longrightarrow> yields (if b then m else n) P"
  by simp

lemma yields_get: "yields State_Monad.get (\<lambda>_. True)"
  by (simp add: yields_def wp_rules)

lemma yields_create: "cooperative api \<Longrightarrow> yields (create_dumb_fb api w h f b) (\<lambda>r. r \<noteq> None)"
  unfolding create_dumb_fb_def
  by (rule yields_bind [OF yields_call [where P = "\<lambda>r. \<not> fst r < 0"]], simp add: cooperative_def, simp only: if_False,
      rule yields_bind [OF yields_call [where P = "\<lambda>r. \<not> fst r < 0"]]) (simp_all add: cooperative_def yields_ret)

lemma yields_destroy: "yields (destroy_dumb_fb api fd fb bo) (\<lambda>_. True)"
  unfolding destroy_dumb_fb_def
  by (intro yields_if yields_ret yields_bind [where P = "\<lambda>_. True"] yields_any TrueI)

lemma yields_passthrough: "\<not> is_sdi e \<Longrightarrow> yields (passthrough api e enable) (\<lambda>r. r = 0)"
  by (auto simp: yields_def passthrough_def set_sdi_fpga_passthrough_def intro!: wp_embed)

end
