(* ===== verification/Modeset.thy ===== *)
theory Modeset
  imports Out_Modes Drm_Ledger Sdi_Resync
begin

text \<open>
  The direct output of src/src/tests/sc6f0-dante-rx.cpp: the pattern generator, \<open>apply_drm_modeset\<close>,
  the release of the context, and the requests of the Dante service that change the output
  (\<open>dau_set_video_format\<close>, \<open>restore_ultra_output\<close>) or only answer.  The state is the context
  \<open>ultra\<close> of Sdi_Resync; the DRM library, the mixer controls, sysfs and the service are calls.
\<close>

section \<open>Pattern generator and mixer\<close>

text \<open>\<open>strstr\<close> of a directory entry; entries that start with a dot are skipped.\<close>

fun first_entry :: "string \<Rightarrow> string list \<Rightarrow> string option" where
  "first_entry driver_sub [] = None"
| "first_entry driver_sub (d_name # ents) =
     (if take 1 d_name = ''.'' then first_entry driver_sub ents
      else if sublist driver_sub d_name then Some d_name
      else first_entry driver_sub ents)"

definition base_paths :: "string list" where
  "base_paths = [''/sys/bus/platform/drivers/zzlab-embeddedsw'', ''/sys/devices/platform/amba_pl'',
     ''/sys/devices/platform'']"

fun find_driver_in :: "(string \<Rightarrow> string list option) \<Rightarrow> string \<Rightarrow> string list \<Rightarrow> string" where
  "find_driver_in dirs driver_sub [] = []"
| "find_driver_in dirs driver_sub (base # bases) =
     (case dirs base of
        None \<Rightarrow> find_driver_in dirs driver_sub bases
      | Some ents \<Rightarrow>
          (case first_entry driver_sub ents of
             Some d_name \<Rightarrow> base @ ''/'' @ d_name
           | None \<Rightarrow> find_driver_in dirs driver_sub bases))"

definition find_platform_driver_dir :: "(string \<Rightarrow> string list option) \<Rightarrow> string \<Rightarrow> string" where
  "find_platform_driver_dir dirs driver_sub = find_driver_in dirs driver_sub base_paths"

primrec write_attrs :: "drm_call api \<Rightarrow> string \<Rightarrow> (string \<times> nat) list \<Rightarrow> unit ud" where
  "write_attrs api dir [] = ret ()"
| "write_attrs api dir (av # avs) = do {
     call api (WriteAttr (dir @ ''/'' @ fst av) (snd av));
     write_attrs api dir avs }"

definition configure_vtpg :: "drm_call api \<Rightarrow> out_env \<Rightarrow> nat \<Rightarrow> nat \<Rightarrow> nat \<Rightarrow> bool ud" where
  "configure_vtpg api e width height bckgnd_id =
     (let d1 = find_platform_driver_dir (e_dirs e) ''v-tpg'';
          dir = (if d1 = [] then find_platform_driver_dir (e_dirs e) ''tpg'' else d1)
      in if dir = [] then ret False
         else do {
           write_attrs api dir
             [(''width'', width), (''height'', height), (''color_format'', 0), (''bckgnd_id'', bckgnd_id),
              (''ovrlay_id'', 0), (''mask_id'', 0), (''enable_input'', 0), (''auto_restart'', 1), (''start'', 1)];
           ret True })"

definition set_vmix_layer1_opaque :: "drm_call api \<Rightarrow> out_env \<Rightarrow> bool ud" where
  "set_vmix_layer1_opaque api e =
     (let d1 = find_platform_driver_dir (e_dirs e) ''v-mix'';
          dir = (if d1 = [] then find_platform_driver_dir (e_dirs e) ''mix'' else d1)
      in if dir = [] then ret False
         else do {
           write_attrs api dir [(''selected_layer'', 1), (''layer_alpha'', 255)];
           ret True })"

section \<open>The modeset\<close>

definition primary_request :: "drm_call api \<Rightarrow> out_env \<Rightarrow> int \<Rightarrow> int \<Rightarrow> int \<Rightarrow> nat \<Rightarrow> nat \<Rightarrow> unit ud" where
  "primary_request api e req blob fb output_w output_h = do {
     c \<leftarrow> State_Monad.get;
     connector_crtc \<leftarrow> drm_property_id api (e_pname e) (connector c) ''connector'' ''CRTC_ID'';
     crtc_mode \<leftarrow> drm_property_id api (e_pname e) (crtc_id c) ''crtc'' ''MODE_ID'';
     crtc_active \<leftarrow> drm_property_id api (e_pname e) (crtc_id c) ''crtc'' ''ACTIVE'';
     p \<leftarrow> property_ids api (e_pname e) (primary_plane_id c) ''plane'' plane_properties;
     atomic_adds api req (connector c) [(connector_crtc, crtc_id c)];
     atomic_adds api req (crtc_id c) [(crtc_mode, blob), (crtc_active, 1)];
     atomic_adds api req (primary_plane_id c)
       (plane_values p (crtc_id c) fb 0 0 output_w output_h output_w output_h) }"

text \<open>\<open>False\<close> when the plane has no source property.\<close>

definition overlay_request :: "drm_call api \<Rightarrow> out_env \<Rightarrow> int \<Rightarrow> bool \<Rightarrow> int \<Rightarrow> nat \<Rightarrow> nat \<Rightarrow> nat \<times> nat \<Rightarrow>
    nat \<times> nat \<Rightarrow> bool ud" where
  "overlay_request api e req enable_overlay fb width height out rect = do {
     c \<leftarrow> State_Monad.get;
     o_source \<leftarrow> drm_property_id api (e_pname e) (overlay_plane_id c) ''plane'' ''SC6F0_OVERLAY_SOURCE'';
     if o_source = 0 then ret False
     else do {
       atomic_adds api req (overlay_plane_id c) [(o_source, of_bool enable_overlay)];
       p \<leftarrow> property_ids api (e_pname e) (overlay_plane_id c) ''plane'' plane_properties;
       atomic_adds api req (overlay_plane_id c)
         (if enable_overlay \<and> fb \<noteq> 0
          then plane_values p (crtc_id c) fb ((fst out - fst rect) div 2) ((snd out - snd rect) div 2)
                 (fst rect) (snd rect) width height
          else [(p ! 0, 0), (p ! 1, 0)]);
       ret True } }"

text \<open>The release of the new objects on the error paths.\<close>

definition discard :: "drm_call api \<Rightarrow> int \<Rightarrow> int \<times> int \<Rightarrow> int \<times> int \<Rightarrow> int \<Rightarrow> int ud" where
  "discard api fd primary overlay blob = do {
     destroy_dumb_fb api fd (fst primary) (snd primary);
     destroy_dumb_fb api fd (fst overlay) (snd overlay);
     call api (DestroyBlob blob);
     ret (- 1) }"

text \<open>The overlay frame buffer (0, 0: none) and whether the overlay stays enabled.\<close>

definition new_overlay :: "drm_call api \<Rightarrow> out_env \<Rightarrow> nat \<Rightarrow> nat \<Rightarrow> bool \<Rightarrow> int \<Rightarrow> ((int \<times> int) \<times> bool) ud" where
  "new_overlay api e width height enable_overlay overlay_format = do {
     c \<leftarrow> State_Monad.get;
     if enable_overlay \<and> overlay_plane_id c \<noteq> 0 then do {
       r \<leftarrow> create_dumb_fb api width height overlay_format (if overlay_format = e_yuyv e then 16 else 24);
       case r of
         Some (fb, bo, pitch) \<Rightarrow> do {
           (if overlay_format = e_yuyv e
            then do { fill_yuyv_dumb_fb api bo width height (nat pitch) (replicate (nat pitch * height) 0); ret () }
            else ret ());
           ret ((fb, bo), True) }
       | None \<Rightarrow> ret ((0, 0), False) }
     else ret ((0, 0), enable_overlay) }"

text \<open>After the commit: the old objects are released and the context takes the new ones.\<close>

definition take_over :: "drm_call api \<Rightarrow> int \<times> int \<Rightarrow> int \<times> int \<Rightarrow> int \<Rightarrow> bool \<Rightarrow> drmModeModeInfo \<Rightarrow> unit ud" where
  "take_over api primary overlay blob enable_overlay mode = do {
     c \<leftarrow> State_Monad.get;
     destroy_dumb_fb api (drm_fd c) (primary_fb_id c) (primary_bo_handle c);
     destroy_dumb_fb api (drm_fd c) (overlay_fb_id c) (overlay_bo_handle c);
     (if mode_blob_id c \<noteq> 0 then do { call api (DestroyBlob (mode_blob_id c)); ret () } else ret ());
     modify (\<lambda>c. c\<lparr>primary_fb_id := fst primary, primary_bo_handle := snd primary,
       overlay_fb_id := fst overlay, overlay_bo_handle := snd overlay, mode_blob_id := blob,
       modeset_active := True, overlay_active := enable_overlay, current_mode := mode\<rparr>) }"

definition finish_modeset :: "drm_call api \<Rightarrow> out_env \<Rightarrow> bool \<Rightarrow> drmModeModeInfo \<Rightarrow> int ud" where
  "finish_modeset api e enable_overlay mode = do {
     refused \<leftarrow> (if is_sdi e \<and> enable_overlay \<and> \<not> g_sdi_audio_disabled e
                 then do { r \<leftarrow> passthrough api e True; ret (r \<noteq> 0) } else ret False);
     if refused \<and> \<not> g_sdi_audio_optional e then ret (- 1)
     else do {
       configure_vtpg api e (hdisplay mode) (vdisplay mode) (g_tpg_pattern e);
       (if enable_overlay then do { set_vmix_layer1_opaque api e; ret () } else ret ());
       ret 0 } }"

text \<open>The commit; the mixer control is switched off first.\<close>

definition commit_output :: "drm_call api \<Rightarrow> out_env \<Rightarrow> int \<Rightarrow> drmModeModeInfo \<Rightarrow> int ud" where
  "commit_output api e req mode = do {
     c \<leftarrow> State_Monad.get;
     off \<leftarrow> passthrough api e False;
     if off \<noteq> 0 then ret (- EINVAL)
     else do {
       ok \<leftarrow> add_output_properties api (e_pname e) (e_rgb888 e) (e_uyvy10 e) (backend_of e) (connector c) req mode;
       if \<not> ok then ret (- EINVAL)
       else do { r \<leftarrow> call api (AtomicCommit req False); ret (fst r) } } }"

text \<open>The part after the choice of the mode.\<close>

definition program_mode :: "drm_call api \<Rightarrow> out_env \<Rightarrow> nat \<Rightarrow> nat \<Rightarrow> bool \<Rightarrow> int \<Rightarrow> drmModeModeInfo \<Rightarrow> int ud" where
  "program_mode api e width height enable_overlay overlay_format mode = do {
     c \<leftarrow> State_Monad.get;
     let rect = letterbox width height (hdisplay mode) (vdisplay mode);
     if fst rect = 0 \<or> snd rect = 0 then ret (- 1) else do {
     b \<leftarrow> call api (CreateBlob (e_enc e mode));
     if fst b \<noteq> 0 then ret (- 1) else do {
     p \<leftarrow> create_dumb_fb api (hdisplay mode) (vdisplay mode) (e_bgr888 e) 24;
     case p of
       None \<Rightarrow> do { call api (DestroyBlob (outp b 0)); ret (- 1) }
     | Some (fb, bo, pitch) \<Rightarrow> do {
         ov \<leftarrow> new_overlay api e width height enable_overlay overlay_format;
         req \<leftarrow> call api AtomicAlloc;
         if fst req = 0 then discard api (drm_fd c) (fb, bo) (fst ov) (outp b 0) else do {
         primary_request api e (fst req) (outp b 0) fb (hdisplay mode) (vdisplay mode);
         ok \<leftarrow> (if overlay_plane_id c \<noteq> 0
                then overlay_request api e (fst req) (snd ov) (fst (fst ov)) width height
                       (hdisplay mode, vdisplay mode) rect
                else ret True);
         if \<not> ok then discard api (drm_fd c) (fb, bo) (fst ov) (outp b 0) else do {
         err \<leftarrow> commit_output api e (fst req) mode;
         if err \<noteq> 0 then discard api (drm_fd c) (fb, bo) (fst ov) (outp b 0) else do {
         take_over api (fb, bo) (fst ov) (outp b 0) (snd ov) mode;
         finish_modeset api e (snd ov) mode } } } } } } }"

definition apply_drm_modeset :: "drm_call api \<Rightarrow> out_env \<Rightarrow> nat \<Rightarrow> nat \<Rightarrow> rat \<Rightarrow> bool \<Rightarrow> int \<Rightarrow> int ud" where
  "apply_drm_modeset api e width height fps enable_overlay overlay_format = do {
     c \<leftarrow> State_Monad.get;
     if drm_fd c < 0 \<or> connector c = 0 \<or> crtc_id c = 0 then ret (- 1)
     else if width = 0 \<or> height = 0 \<or> width > 3840 \<or> height > 2160 then ret (- 1)
     else do {
       r \<leftarrow> call api (GetConnector (connector c));
       if fst r = 0 \<or> outp r 0 \<noteq> DRM_MODE_CONNECTED then ret (- 1)
       else case select_output_mode (is_sdi e) (e_dec e (tl (snd r))) width height fps of
         None \<Rightarrow> ret (- 1)
       | Some mode \<Rightarrow> program_mode api e width height enable_overlay overlay_format mode } }"

section \<open>The end of the output\<close>

definition close_output :: "drm_call api \<Rightarrow> unit ud" where
  "close_output api = do {
     c \<leftarrow> State_Monad.get;
     p \<leftarrow> destroy_dumb_fb api (drm_fd c) (primary_fb_id c) (primary_bo_handle c);
     ov \<leftarrow> destroy_dumb_fb api (drm_fd c) (overlay_fb_id c) (overlay_bo_handle c);
     (if mode_blob_id c \<noteq> 0 then do { call api (DestroyBlob (mode_blob_id c)); ret () } else ret ());
     call api (DrmClose (drm_fd c));
     modify (\<lambda>c. c\<lparr>primary_fb_id := fst p, primary_bo_handle := snd p, overlay_fb_id := fst ov,
       overlay_bo_handle := snd ov, mode_blob_id := 0, drm_fd := - 1, modeset_active := False\<rparr>) }"

definition cleanup_ultra_direct_drm :: "drm_call api \<Rightarrow> out_env \<Rightarrow> unit ud" where
  "cleanup_ultra_direct_drm api e = do {
     cleanup_sdi_resync api;
     c \<leftarrow> State_Monad.get;
     if drm_fd c < 0 then ret ()
     else do {
       passthrough api e False;
       close_output api } }"

section \<open>The requests of the Dante service\<close>

definition dau_answer :: "drm_call api \<Rightarrow> dau_reply \<Rightarrow> unit ud" where
  "dau_answer api r = do { call api (Dau r); ret () }"

definition dau_get_cable_status :: "drm_call api \<Rightarrow> unit ud" where
  "dau_get_cable_status api = do {
     c \<leftarrow> State_Monad.get;
     connected \<leftarrow> (if drm_fd c \<ge> 0 \<and> connector c \<noteq> 0
                   then do { r \<leftarrow> call api (GetConnector (connector c));
                             ret (fst r \<noteq> 0 \<and> outp r 0 = DRM_MODE_CONNECTED) }
                   else ret False);
     dau_answer api (Dau_cable_status connected) }"

definition dau_get_hdcp :: "drm_call api \<Rightarrow> out_env \<Rightarrow> unit ud" where
  "dau_get_hdcp api e = dau_answer api (Dau_hdcp (\<not> is_sdi e))"

text \<open>\<open>none\<close>: the version is \<open>HDCP_VERSION_NONE\<close>.\<close>

definition dau_set_hdcp :: "drm_call api \<Rightarrow> out_env \<Rightarrow> bool \<Rightarrow> unit ud" where
  "dau_set_hdcp api e none =
     (if is_sdi e \<and> \<not> none then dau_answer api (Dau_error ''SDI has no HDCP support'')
      else dau_answer api Dau_success)"

text \<open>
  \<open>edid\<close> is what \<open>read_connector_edid\<close> of Rx_Output yields for the connector, read only when the
  device is open.
\<close>

definition dau_get_edid :: "drm_call api \<Rightarrow> out_env \<Rightarrow> (int \<Rightarrow> int \<Rightarrow> u8 list option) \<Rightarrow> unit ud" where
  "dau_get_edid api e edid = do {
     c \<leftarrow> State_Monad.get;
     if is_sdi e then
       (let (ok, capabilities) = sdi_capabilities (fixed_width c) (fixed_height c) (fixed_fps c)
        in if \<not> fixed_mode_override c \<or> \<not> ok
           then dau_answer api (Dau_error ''SDI requires a supported explicit --mode'')
           else dau_answer api (Dau_edid capabilities))
     else
       (case (if drm_fd c \<ge> 0 \<and> connector c \<noteq> 0 then edid (drm_fd c) (connector c) else None) of
          Some bytes \<Rightarrow> dau_answer api (Dau_edid bytes)
        | None \<Rightarrow> dau_answer api (Dau_edid g_fallback_edid)) }"

definition unchanged_format :: "out_env \<Rightarrow> video_format \<Rightarrow> int \<Rightarrow> nat \<Rightarrow> nat \<Rightarrow> nat \<Rightarrow> ultra \<Rightarrow> bool" where
  "unchanged_format e fmt previous_overlay_format target_w target_h target_fps c =
     (is_sdi e \<and> locked fmt \<and> modeset_active c \<and> overlay_active c \<and>
      previous_overlay_format = ultra_overlay_format c \<and>
      hdisplay (current_mode c) = target_w \<and> vdisplay (current_mode c) = target_h \<and>
      \<bar>mode_vrefresh (current_mode c) - of_nat target_fps\<bar> < 5 / 1000)"

definition outside_sdi_contract :: "out_env \<Rightarrow> video_format \<Rightarrow> ultra \<Rightarrow> bool" where
  "outside_sdi_contract e fmt c =
     (is_sdi e \<and> locked fmt \<and>
      (vf_width fmt \<noteq> fixed_width c \<or> vf_height fmt \<noteq> fixed_height c \<or> vf_framerate fmt \<noteq> fixed_fps c \<or>
       vf_interlaced fmt \<or> colorformat fmt \<noteq> RGB))"

text \<open>The last part of \<open>dau_set_video_format\<close>: the modeset for the format and its answer.\<close>

definition switch_format :: "drm_call api \<Rightarrow> out_env \<Rightarrow> video_format \<Rightarrow> nat \<Rightarrow> nat \<Rightarrow> nat \<Rightarrow> unit ud" where
  "switch_format api e fmt target_w target_h target_fps = do {
     c \<leftarrow> State_Monad.get;
     result \<leftarrow> (if locked fmt
                then apply_drm_modeset api e target_w target_h (of_nat target_fps) True (ultra_overlay_format c)
                else apply_drm_modeset api e target_w target_h (of_nat target_fps) False (e_yuyv e));
     if result = 0 then dau_answer api Dau_success
     else do {
       c \<leftarrow> State_Monad.get;
       (if locked fmt \<and> hdisplay (current_mode c) \<noteq> 0
        then do { apply_drm_modeset api e (hdisplay (current_mode c)) (vdisplay (current_mode c))
                    (mode_vrefresh (current_mode c)) False (e_yuyv e); ret () }
        else ret ());
       dau_answer api (Dau_error ''DRM overlay modeset failed'') } }"

definition dau_set_video_format :: "drm_call api \<Rightarrow> out_env \<Rightarrow> video_format option \<Rightarrow> unit ud" where
  "dau_set_video_format api e new_format =
     (case new_format of
        None \<Rightarrow> dau_answer api (Dau_error ''NULL format'')
      | Some fmt \<Rightarrow> do {
          modify (\<lambda>c. c\<lparr>current_video_format := fmt, format_changes := format_changes c + 1\<rparr>);
          c0 \<leftarrow> State_Monad.get;
          if outside_sdi_contract e fmt c0 then do {
            apply_drm_modeset api e (fixed_width c0) (fixed_height c0) (of_nat (fixed_fps c0)) False (e_yuyv e);
            dau_answer api (Dau_error ''Stream does not match SDI timing/RGB contract'') }
          else do {
            (if locked fmt \<and> vf_width fmt \<noteq> 0 \<and> vf_height fmt \<noteq> 0 \<and> vf_framerate fmt \<noteq> 0
             then modify (\<lambda>c. c\<lparr>last_locked_video_format := fmt,
               ultra_overlay_format := (if colorformat fmt = RGB then e_bgr888 e else e_yuyv e)\<rparr>)
             else ret ());
            c \<leftarrow> State_Monad.get;
            if avh_active c then dau_answer api Dau_success
            else if force_dante_source c \<and> \<not> locked fmt then dau_answer api Dau_success
            else
              (let target_w = (if fixed_mode_override c then fixed_width c else vf_width fmt);
                   target_h = (if fixed_mode_override c then fixed_height c else vf_height fmt);
                   target_fps = (if fixed_mode_override c then fixed_fps c else vf_framerate fmt)
               in if unchanged_format e fmt (ultra_overlay_format c0) target_w target_h target_fps c
                  then dau_answer api Dau_success
                  else switch_format api e fmt target_w target_h target_fps) } })"

definition restore_ultra_output :: "drm_call api \<Rightarrow> out_env \<Rightarrow> int ud" where
  "restore_ultra_output api e = do {
     c \<leftarrow> State_Monad.get;
     let fmt = last_locked_video_format c;
     let width = (if fixed_mode_override c then fixed_width c
                  else if locked fmt then vf_width fmt else fixed_width c);
     let height = (if fixed_mode_override c then fixed_height c
                   else if locked fmt then vf_height fmt else fixed_height c);
     let fps = (if fixed_mode_override c then fixed_fps c
                else if locked fmt then vf_framerate fmt else fixed_fps c);
     apply_drm_modeset api e width height (of_nat fps) True (ultra_overlay_format c) }"

definition dau_set_audio_info :: "drm_call api \<Rightarrow> audio_info option \<Rightarrow> unit ud" where
  "dau_set_audio_info api info = do {
     (case info of
        None \<Rightarrow> ret ()
      | Some i \<Rightarrow> do {
          c \<leftarrow> State_Monad.get;
          let previous = last_audio_info c;
          let changed = (\<not> have_last_audio_info c \<or>
            ai_channel_count i \<noteq> ai_channel_count previous \<or> ai_speaker_map i \<noteq> ai_speaker_map previous \<or>
            ai_level_shift_value i \<noteq> ai_level_shift_value previous \<or>
            ai_downmix_inhibit i \<noteq> ai_downmix_inhibit previous \<or>
            ai_lfe_playback_level i \<noteq> ai_lfe_playback_level previous \<or>
            ai_sample_rate i \<noteq> ai_sample_rate previous \<or> ai_encoding i \<noteq> ai_encoding previous \<or>
            ai_sample_bits i \<noteq> ai_sample_bits previous);
          if changed then modify (\<lambda>c. c\<lparr>last_audio_info := i, have_last_audio_info := True\<rparr>) else ret () });
     dau_answer api Dau_success }"

definition dau_set_hdr :: "drm_call api \<Rightarrow> unit ud" where
  "dau_set_hdr api = dau_answer api Dau_success"

definition dau_toggle_hpd :: "drm_call api \<Rightarrow> unit ud" where
  "dau_toggle_hpd api = dau_answer api Dau_success"

section \<open>Kernel objects of the context\<close>

text \<open>The device and the mapped status register, and all that the context names.\<close>

definition ctx_dev :: "ultra \<Rightarrow> drm_res multiset" where
  "ctx_dev c = dev_res (drm_fd c) + (if sdi_status_map c then {#D_status#} else {#})"

definition ctx_res :: "ultra \<Rightarrow> drm_res multiset" where
  "ctx_res c = fb_res (primary_fb_id c, primary_bo_handle c) + fb_res (overlay_fb_id c, overlay_bo_handle c) +
     blob_res (mode_blob_id c) + ctx_dev c"

lemma ctx_dev_simps [simp]:
  "ctx_dev (c\<lparr>trace := tr\<rparr>) = ctx_dev c" "ctx_dev (c\<lparr>mode_blob_id := b\<rparr>) = ctx_dev c"
  "ctx_dev (c\<lparr>primary_fb_id := i\<rparr>) = ctx_dev c" "ctx_dev (c\<lparr>primary_bo_handle := i\<rparr>) = ctx_dev c"
  "ctx_dev (c\<lparr>overlay_fb_id := i\<rparr>) = ctx_dev c" "ctx_dev (c\<lparr>overlay_bo_handle := i\<rparr>) = ctx_dev c"
  "ctx_dev (c\<lparr>modeset_active := v\<rparr>) = ctx_dev c" "ctx_dev (c\<lparr>overlay_active := v\<rparr>) = ctx_dev c"
  "ctx_dev (c\<lparr>current_mode := m\<rparr>) = ctx_dev c" "ctx_dev (c\<lparr>sdi_resync := p\<rparr>) = ctx_dev c"
  "ctx_dev (c\<lparr>sdi_last_status := u\<rparr>) = ctx_dev c" "ctx_dev (c\<lparr>format_changes := n\<rparr>) = ctx_dev c"
  "ctx_dev (c\<lparr>current_video_format := f\<rparr>) = ctx_dev c" "ctx_dev (c\<lparr>last_locked_video_format := f\<rparr>) = ctx_dev c"
  "ctx_dev (c\<lparr>ultra_overlay_format := i\<rparr>) = ctx_dev c" "ctx_dev (c\<lparr>last_audio_info := a\<rparr>) = ctx_dev c"
  "ctx_dev (c\<lparr>have_last_audio_info := v\<rparr>) = ctx_dev c" "ctx_dev (c\<lparr>avh_active := v\<rparr>) = ctx_dev c"
  by (simp_all add: ctx_dev_def)

lemma ctx_res_trace [simp]: "ctx_res (c\<lparr>trace := tr\<rparr>) = ctx_res c"
  by (simp add: ctx_res_def)

lemma quiet_write_attrs: "quiet (write_attrs api dir avs)"
  by (induction avs) (auto intro!: quiet_intros)

lemma quiet_primary: "quiet (primary_request api e req blob fb w h)"
  unfolding primary_request_def by (auto intro!: quiet_intros quiet_property_ids quiet_atomic_adds)

lemma quiet_overlay: "quiet (overlay_request api e req en fb w h out rect)"
  unfolding overlay_request_def by (auto intro!: quiet_intros quiet_property_ids quiet_atomic_adds)

lemma quiet_commit: "quiet (commit_output api e req mode)"
  unfolding commit_output_def add_output_properties_def
  by (auto intro!: quiet_intros quiet_add_properties)

lemma quiet_vtpg: "quiet (configure_vtpg api e w h b)"
  unfolding configure_vtpg_def Let_def by (auto intro!: quiet_intros quiet_write_attrs)

lemma quiet_vmix: "quiet (set_vmix_layer1_opaque api e)"
  unfolding set_vmix_layer1_opaque_def Let_def by (auto intro!: quiet_intros quiet_write_attrs)

lemma quiet_finish: "quiet (finish_modeset api e en mode)"
  unfolding finish_modeset_def by (auto intro!: quiet_intros quiet_vtpg quiet_vmix)

lemma quiet_answer: "quiet (dau_answer api r)"
  unfolding dau_answer_def by (auto intro!: quiet_intros)

lemma wp_discard:
  assumes "0 \<le> fd" and "drm_ledger (trace s) = Some (M + {#D_blob b#} + fb_res p + fb_res v)"
    and "\<And>tr. drm_ledger tr = Some M \<Longrightarrow> Q (- 1) (s\<lparr>trace := tr\<rparr>)"
  shows "wp (discard api fd p v b) Q s"
  unfolding discard_def wp_bind
proof (rule wp_destroy_dumb_fb [OF assms(1), where M = "M + {#D_blob b#} + fb_res v"])
  fix tr
  assume "drm_ledger tr = Some (M + {#D_blob b#} + fb_res v)"
  then show "wp (destroy_dumb_fb api fd (fst v) (snd v))
      (\<lambda>_. wp (call api (DestroyBlob b)) (\<lambda>_. wp (ret (- 1)) Q)) (s\<lparr>trace := tr\<rparr>)"
    by (intro wp_destroy_dumb_fb [OF assms(1), where M = "M + {#D_blob b#}"] wp_destroy_blob [where M = M])
      (use assms(3) in \<open>auto simp: wp_return\<close>)
qed (use assms(2) in \<open>simp add: ac_simps\<close>)

lemma wp_new_overlay:
  assumes "kernel_ids api" and "drm_ledger (trace s) = Some M"
    and "\<And>v en tr. (en \<Longrightarrow> enable) \<Longrightarrow> drm_ledger tr = Some (M + fb_res v) \<Longrightarrow> Q (v, en) (s\<lparr>trace := tr\<rparr>)"
  shows "wp (new_overlay api e w h enable fmt) Q s"
proof -
  have filled: "wp (do { (if b then do { fill_yuyv_dumb_fb api bo w h n m; ret () } else ret ()); ret ((fb, bo), True) })
      Q (s\<lparr>trace := tr\<rparr>)" if "enable" "drm_ledger tr = Some (M + fb_res (fb, bo))" for b fb bo n m tr
    by (rule quiet_step) (use that assms(3) in \<open>auto simp: wp_return intro!: quiet_intros quiet_fill\<close>)
  have "wp (create_dumb_fb api w h fmt d) (\<lambda>r. wp (case r of
         Some (fb, bo, pitch) \<Rightarrow> do {
           (if fmt = e_yuyv e
            then do { fill_yuyv_dumb_fb api bo w h (nat pitch) (replicate (nat pitch * h) 0); ret () }
            else ret ());
           ret ((fb, bo), True) }
       | None \<Rightarrow> ret ((0, 0), False)) Q) s" if "enable" for d
    by (rule wp_create_dumb_fb [OF assms(1,2)]) (use that filled assms(3) in \<open>auto simp: wp_return\<close>)
  then show ?thesis
    unfolding new_overlay_def wp_bind [of "State_Monad.get"] wp_get wp_if
    using assms(2) assms(3) [of enable "trace s" "(0, 0)"] by (simp add: wp_return wp_bind [of "create_dumb_fb _ _ _ _ _"])
qed

section \<open>What a modeset does\<close>

text \<open>
  The context after the commit of a mode.  \<open>r\<close> is the result: 0, or -1 when the card refused to
  embed the audio and video alone is not accepted.
\<close>

definition committed :: "out_env \<Rightarrow> bool \<Rightarrow> drmModeModeInfo \<Rightarrow> ultra \<Rightarrow> int \<Rightarrow> ultra \<Rightarrow> bool" where
  "committed e enable mode s r t \<longleftrightarrow>
     (\<exists>p v b en tr. (en \<longrightarrow> enable) \<and>
        t = s\<lparr>trace := tr, primary_fb_id := fst p, primary_bo_handle := snd p, overlay_fb_id := fst v,
              overlay_bo_handle := snd v, mode_blob_id := b, modeset_active := True, overlay_active := en,
              current_mode := mode\<rparr> \<and>
        (r = 0 \<or> (r = - 1 \<and> is_sdi e \<and> en \<and> \<not> g_sdi_audio_disabled e \<and> \<not> g_sdi_audio_optional e)))"

definition modeset_post :: "out_env \<Rightarrow> bool \<Rightarrow> (drmModeModeInfo \<Rightarrow> bool) \<Rightarrow> drm_res multiset \<Rightarrow> ultra \<Rightarrow> int \<Rightarrow> ultra \<Rightarrow> bool" where
  "modeset_post e enable ok base s r t \<longleftrightarrow> drm_ledger (trace t) = Some (base + ctx_res t) \<and>
     (r = - 1 \<and> t = s\<lparr>trace := trace t\<rparr> \<or> (\<exists>mode. ok mode \<and> committed e enable mode s r t))"

lemma modeset_post_refused:
  "drm_ledger tr = Some (base + ctx_res s) \<Longrightarrow> modeset_post e enable ok base s (- 1) (s\<lparr>trace := tr\<rparr>)"
  by (simp add: modeset_post_def)

lemma wp_take_over:
  assumes "0 \<le> drm_fd s" and "b \<noteq> 0"
    and "drm_ledger (trace s) = Some (base + ctx_res s + fb_res p + fb_res v + {#D_blob b#})"
    and "\<And>tr. drm_ledger tr = Some (base + (fb_res p + fb_res v + blob_res b + ctx_dev s)) \<Longrightarrow>
      Q () (s\<lparr>trace := tr, primary_fb_id := fst p, primary_bo_handle := snd p, overlay_fb_id := fst v,
              overlay_bo_handle := snd v, mode_blob_id := b, modeset_active := True, overlay_active := en,
              current_mode := mode\<rparr>)"
  shows "wp (take_over api p v b en mode) Q s"
  unfolding take_over_def wp_bind wp_get
proof (rule wp_destroy_dumb_fb [OF assms(1), where M = "base + fb_res p + fb_res v + ctx_dev s + {#D_blob b#} +
      blob_res (mode_blob_id s) + fb_res (overlay_fb_id s, overlay_bo_handle s)"], goal_cases)
  case 1
  then show ?case using assms(3) unfolding ctx_res_def by (simp add: ac_simps)
next
  case (2 tr)
  let ?M = "base + fb_res p + fb_res v + ctx_dev s + {#D_blob b#} + blob_res (mode_blob_id s)"
  show ?case
    by (rule wp_destroy_dumb_fb [OF assms(1), where M = ?M])
      (use 2 assms(2,4) in \<open>auto simp: ac_simps wp_rules blob_res_def intro!: wp_destroy_blob\<close>)
qed

lemma wp_finish:
  assumes "drm_ledger (trace s) = Some M"
    and "\<And>r tr. drm_ledger tr = Some M \<Longrightarrow>
      r = 0 \<or> (r = - 1 \<and> is_sdi e \<and> en \<and> \<not> g_sdi_audio_disabled e \<and> \<not> g_sdi_audio_optional e) \<Longrightarrow>
      Q r (s\<lparr>trace := tr\<rparr>)"
  shows "wp (finish_modeset api e en mode) Q s"
proof -
  have r: "wp (finish_modeset api e en mode) (\<lambda>r _. r = 0 \<or>
      (r = - 1 \<and> is_sdi e \<and> en \<and> \<not> g_sdi_audio_disabled e \<and> \<not> g_sdi_audio_optional e)) s"
    by (auto simp: finish_modeset_def wp_rules wp_run split_beta)
  have "wp (finish_modeset api e en mode) (\<lambda>_ t. t = s\<lparr>trace := trace t\<rparr> \<and> drm_ledger (trace t) = drm_ledger (trace s)) s"
    using quiet_finish by (simp add: quiet_def)
  from wp_conj [OF r this] show ?thesis
    by (rule wp_conseq) (use assms in metis)
qed

lemma modeset_post_trace: "modeset_post e en ok base (s\<lparr>trace := tr\<rparr>) = modeset_post e en ok base s"
  by (simp add: fun_eq_iff modeset_post_def committed_def)

lemma wp_committed:
  assumes "0 \<le> drm_fd s" and "b \<noteq> 0" and "en \<longrightarrow> enable" and "ok mode"
    and "drm_ledger tr = Some (base + ctx_res s + {#D_blob b#} + fb_res p + fb_res v)"
  shows "wp (do { take_over api p v b en mode; finish_modeset api e en mode })
    (modeset_post e enable ok base s) (s\<lparr>trace := tr\<rparr>)"
  unfolding wp_bind
proof (rule wp_take_over [where base = base])
  fix tr'
  assume l: "drm_ledger tr' = Some (base + (fb_res p + fb_res v + blob_res b + ctx_dev (s\<lparr>trace := tr\<rparr>)))"
  let ?t = "s\<lparr>trace := tr, trace := tr', primary_fb_id := fst p, primary_bo_handle := snd p, overlay_fb_id := fst v,
     overlay_bo_handle := snd v, mode_blob_id := b, modeset_active := True, overlay_active := en, current_mode := mode\<rparr>"
  show "wp (finish_modeset api e en mode) (modeset_post e enable ok base s) ?t"
  proof (rule wp_finish)
    fix r :: int and tr2
    assume l2: "drm_ledger tr2 = Some (base + (fb_res p + fb_res v + blob_res b + ctx_dev (s\<lparr>trace := tr\<rparr>)))"
      and r: "r = 0 \<or> (r = - 1 \<and> is_sdi e \<and> en \<and> \<not> g_sdi_audio_disabled e \<and> \<not> g_sdi_audio_optional e)"
    have "committed e enable mode s r (?t\<lparr>trace := tr2\<rparr>)"
      unfolding committed_def
      by (rule exI [of _ p], rule exI [of _ v], rule exI [of _ b], rule exI [of _ en], rule exI [of _ tr2])
        (use r assms(3) in simp)
    moreover have "drm_ledger (trace (?t\<lparr>trace := tr2\<rparr>)) = Some (base + ctx_res (?t\<lparr>trace := tr2\<rparr>))"
      using l2 by (simp add: ctx_res_def)
    ultimately show "modeset_post e enable ok base s r (?t\<lparr>trace := tr2\<rparr>)"
      using assms(4) unfolding modeset_post_def by blast
  qed (simp add: l)
qed (use assms in \<open>simp_all add: ac_simps\<close>)

lemma wp_program_tail:
  assumes "0 \<le> drm_fd s" and "b \<noteq> 0" and "en \<longrightarrow> enable" and "ok mode"
    and "drm_ledger tr = Some (base + ctx_res s + {#D_blob b#} + fb_res p + fb_res v)"
  shows "wp (do {
         req \<leftarrow> call api AtomicAlloc;
         if fst req = 0 then discard api (drm_fd s) p v b else do {
         primary_request api e (fst req) b (fst p) ow oh;
         ok \<leftarrow> (if overlay_plane_id s \<noteq> 0
                then overlay_request api e (fst req) en (fst v) width height (ow, oh) rect
                else ret True);
         if \<not> ok then discard api (drm_fd s) p v b else do {
         err \<leftarrow> commit_output api e (fst req) mode;
         if err \<noteq> 0 then discard api (drm_fd s) p v b else do {
         take_over api p v b en mode;
         finish_modeset api e en mode } } } })
    (modeset_post e enable ok base s) (s\<lparr>trace := tr\<rparr>)"
proof -
  have dis: "wp (discard api (drm_fd s) p v b) (modeset_post e enable ok base s) (s\<lparr>trace := tr'\<rparr>)"
    if "drm_ledger tr' = drm_ledger tr" for tr'
    by (rule wp_discard [OF assms(1), where M = "base + ctx_res s"])
      (use that assms(5) in \<open>simp_all add: modeset_post_refused\<close>)
  have fin: "wp (do { take_over api p v b en mode; finish_modeset api e en mode })
      (modeset_post e enable ok base s) (s\<lparr>trace := tr'\<rparr>)" if "drm_ledger tr' = drm_ledger tr" for tr'
    by (rule wp_committed) (use that assms in simp_all)
  have alloc: "quiet (call api AtomicAlloc)" by (rule quiet_call) simp_all
  have ov: "quiet (if x then overlay_request api e req en (fst v) width height (ow, oh) rect else ret True)" for x req
    by (auto intro!: quiet_intros quiet_overlay)
  show ?thesis
    by (rule quiet_step [OF alloc]; auto simp: wp_if intro!: dis fin quiet_step [OF quiet_primary]
        quiet_step [OF ov] quiet_step [OF quiet_overlay] quiet_step [OF quiet_ret] quiet_step [OF quiet_commit])
qed

lemma wp_program_mode:
  assumes ids: "kernel_ids api" and fd: "0 \<le> drm_fd s" and l: "drm_ledger (trace s) = Some (base + ctx_res s)"
    and ok: "ok mode"
  shows "wp (program_mode api e width height enable fmt mode) (modeset_post e enable ok base s) s"
proof -
  have refuse: "modeset_post e enable ok base s (- 1) s" using l by (simp add: modeset_post_def)
  have buffers: "wp (do {
     p \<leftarrow> create_dumb_fb api (hdisplay mode) (vdisplay mode) (e_bgr888 e) 24;
     case p of
       None \<Rightarrow> do { call api (DestroyBlob b); ret (- 1) }
     | Some (fb, bo, pitch) \<Rightarrow> do {
         ov \<leftarrow> new_overlay api e width height enable fmt;
         req \<leftarrow> call api AtomicAlloc;
         if fst req = 0 then discard api (drm_fd s) (fb, bo) (fst ov) b else do {
         primary_request api e (fst req) b fb (hdisplay mode) (vdisplay mode);
         ok \<leftarrow> (if overlay_plane_id s \<noteq> 0
                then overlay_request api e (fst req) (snd ov) (fst (fst ov)) width height
                       (hdisplay mode, vdisplay mode) rect
                else ret True);
         if \<not> ok then discard api (drm_fd s) (fb, bo) (fst ov) b else do {
         err \<leftarrow> commit_output api e (fst req) mode;
         if err \<noteq> 0 then discard api (drm_fd s) (fb, bo) (fst ov) b else do {
         take_over api (fb, bo) (fst ov) b (snd ov) mode;
         finish_modeset api e (snd ov) mode } } } } }) (modeset_post e enable ok base s) (s\<lparr>trace := tr\<rparr>)"
    if "b \<noteq> 0" "drm_ledger tr = Some (base + ctx_res s + {#D_blob b#})" for b tr rect
    unfolding wp_bind [of "create_dumb_fb _ _ _ _ _"]
  proof (rule wp_create_dumb_fb [OF ids, where M = "base + ctx_res s + {#D_blob b#}"], goal_cases)
    case 1
    then show ?case using that(2) by simp
  next
    case (2 tr1)
    then show ?case
      by (auto simp: wp_rules intro!: wp_destroy_blob [where M = "base + ctx_res s"] modeset_post_refused)
  next
    case (3 fb bo pitch tr1)
    show ?case
      unfolding option.case prod.case wp_bind [of "new_overlay _ _ _ _ _ _"]
    proof (rule wp_new_overlay [OF ids, where M = "base + ctx_res s + {#D_blob b#} + fb_res (fb, bo)"], goal_cases)
      case 1
      show ?case using 3 by simp
    next
      case (2 v en tr2)
      show ?case
        unfolding fst_conv snd_conv trace_again
        by (rule wp_program_tail [OF fd that(1), where p = "(fb, bo)", unfolded fst_conv]) (use 2 ok in simp_all)
    qed
  qed
  show ?thesis
    unfolding program_mode_def Let_def
    using refuse buffers ids l
    by (auto simp: wp_bind [of "State_Monad.get"] wp_get wp_if wp_return wp_bind [of "call api (CreateBlob _)"]
        wp_call kernel_ids_def modeset_post_refused)
qed

lemma wp_apply_drm_modeset:
  assumes ids: "kernel_ids api" and l: "drm_ledger (trace s) = Some (base + ctx_res s)"
  shows "wp (apply_drm_modeset api e width height fps enable fmt)
    (modeset_post e enable
       (\<lambda>m. select_output_mode (is_sdi e) (e_dec e (tl (snd (api (trace s) (GetConnector (connector s))))))
          width height fps = Some m) base s) s"
proof -
  define r where "r = api (trace s) (GetConnector (connector s))"
  define ok where "ok m \<longleftrightarrow> select_output_mode (is_sdi e) (e_dec e (tl (snd r))) width height fps = Some m" for m
  have refuse: "modeset_post e enable ok base s (- 1) s" using l by (simp add: modeset_post_def)
  have go: "wp (case select_output_mode (is_sdi e) (e_dec e (tl (snd r))) width height fps of
        None \<Rightarrow> ret (- 1) | Some mode \<Rightarrow> program_mode api e width height enable fmt mode)
      (modeset_post e enable ok base s) (s\<lparr>trace := tr\<rparr>)"
    if "0 \<le> drm_fd s" "drm_ledger tr = drm_ledger (trace s)" for tr
  proof (cases "select_output_mode (is_sdi e) (e_dec e (tl (snd r))) width height fps")
    case None
    then show ?thesis using that l by (simp add: wp_return modeset_post_refused)
  next
    case (Some mode)
    have "wp (program_mode api e width height enable fmt mode)
        (modeset_post e enable ok base (s\<lparr>trace := tr\<rparr>)) (s\<lparr>trace := tr\<rparr>)"
      by (rule wp_program_mode [OF ids]) (use that l Some in \<open>auto simp: ok_def\<close>)
    then show ?thesis using Some by (simp add: modeset_post_trace)
  qed
  have "wp (apply_drm_modeset api e width height fps enable fmt) (modeset_post e enable ok base s) s"
    unfolding apply_drm_modeset_def wp_bind [of "State_Monad.get"] wp_get wp_if wp_bind [of "call api (GetConnector _)"]
      wp_call r_def [symmetric]
    using refuse by (auto simp: wp_return l modeset_post_refused intro!: go)
  then show ?thesis unfolding ok_def r_def .
qed

section \<open>Sessions\<close>

text \<open>The context holds exactly the live objects above \<open>base\<close>; \<open>keeps\<close>: an operation leaves it so.\<close>

definition owns_ctx :: "drm_res multiset \<Rightarrow> ultra \<Rightarrow> bool" where
  "owns_ctx base c \<longleftrightarrow> drm_ledger (trace c) = Some (base + ctx_res c)"

definition keeps_rel :: "drm_res multiset \<Rightarrow> ultra \<Rightarrow> ultra \<Rightarrow> bool" where
  "keeps_rel base s t \<longleftrightarrow> (owns_ctx base s \<longrightarrow> owns_ctx base t \<and> drm_fd t = drm_fd s)"

abbreviation keeps :: "drm_res multiset \<Rightarrow> 'a ud \<Rightarrow> bool" where "keeps base \<equiv> stays (keeps_rel base)"

interpretation keeps: step_relation "keeps_rel base" for base
  by unfold_locales (auto simp: keeps_rel_def)

lemma keeps_def: "keeps base m \<longleftrightarrow> (\<forall>s. owns_ctx base s \<longrightarrow> wp m (\<lambda>_ t. owns_ctx base t \<and> drm_fd t = drm_fd s) s)"
  by (auto simp: stays_def keeps_rel_def wp_run)

lemmas keeps_bind = keeps.bind

lemma trace_only:
  assumes "t = s\<lparr>trace := trace t\<rparr>"
  shows "ctx_res t = ctx_res s" and "drm_fd t = drm_fd s"
  using arg_cong [OF assms, of ctx_res] arg_cong [OF assms, of drm_fd] by simp_all

lemma keeps_quiet: "quiet m \<Longrightarrow> keeps base m"
  unfolding keeps_def quiet_def owns_ctx_def
  by (intro allI impI, rule wp_conseq, blast) (auto dest: trace_only)

lemma keeps_modify:
  "(\<And>c. trace (f c) = trace c \<and> ctx_res (f c) = ctx_res c \<and> drm_fd (f c) = drm_fd c) \<Longrightarrow> keeps base (modify f)"
  by (simp add: keeps_def wp_rules owns_ctx_def)

lemma committed_fd: "committed e en mode s r t \<Longrightarrow> drm_fd t = drm_fd s"
  by (auto simp: committed_def)

lemma keeps_modeset: "kernel_ids api \<Longrightarrow> keeps base (apply_drm_modeset api e w h fps en fmt)"
  unfolding keeps_def owns_ctx_def
  by (intro allI impI, rule wp_conseq [OF wp_apply_drm_modeset], assumption, assumption)
    (auto simp: modeset_post_def dest: trace_only committed_fd)

lemmas keeps_intros = keeps_bind keeps_modeset keeps_modify

lemma quiet_all_ok: "(\<And>x. x \<in> set xs \<Longrightarrow> quiet (act x)) \<Longrightarrow> quiet (all_ok xs act)"
  by (induction xs) (auto intro!: quiet_intros)

lemma quiet_reset: "quiet (reset_output api pname mode_id blob)"
  unfolding reset_output_def commit_pair_def Let_def
  by (auto intro!: quiet_intros quiet_all_ok)

lemma quiet_expected: "quiet (output_as_expected api pname)"
  unfolding output_as_expected_def by (auto intro!: quiet_intros quiet_property_value)

lemma quiet_new_blob:
  "quiet (do {
      b \<leftarrow> call api (CreateBlob bytes);
      if fst b \<noteq> 0 then ret False
      else do {
        ok \<leftarrow> reset_output api pname mode_id (outp b 0);
        call api (DestroyBlob (outp b 0));
        ret ok } })"
  unfolding quiet_def
proof
  fix s :: ultra
  define b where "b = api (trace s) (CreateBlob bytes)"
  have "wp (do {
        ok \<leftarrow> reset_output api pname mode_id (outp b 0);
        call api (DestroyBlob (outp b 0));
        ret ok }) (\<lambda>_ t. t = s\<lparr>trace := trace t\<rparr> \<and> drm_ledger (trace t) = drm_ledger (trace s))
      (s\<lparr>trace := (CreateBlob bytes, b) # trace s\<rparr>)" if "fst b = 0"
    by (rule quiet_step [OF quiet_reset]) (use that in \<open>auto simp: wp_rules wp_call split: option.split\<close>)
  then show "wp (do {
      b \<leftarrow> call api (CreateBlob bytes);
      if fst b \<noteq> 0 then ret False
      else do {
        ok \<leftarrow> reset_output api pname mode_id (outp b 0);
        call api (DestroyBlob (outp b 0));
        ret ok } }) (\<lambda>_ t. t = s\<lparr>trace := trace t\<rparr> \<and> drm_ledger (trace t) = drm_ledger (trace s)) s"
    by (auto simp: wp_bind [of "call api (CreateBlob bytes)"] wp_call wp_if wp_return b_def [symmetric]
        split: option.split)
qed

lemma quiet_reinitialize: "quiet (reinitialize_sdi_output api pname enc)"
  unfolding reinitialize_sdi_output_def
  by (auto intro!: quiet_intros quiet_expected quiet_new_blob split: option.split)

lemma quiet_status: "quiet (read_sdi_resync_status api)"
  unfolding read_sdi_resync_status_def by (auto intro!: quiet_intros)

lemma keeps_poll: "keeps base (poll_sdi_resync api pname enc now)"
  unfolding poll_sdi_resync_def on_sdi_resync_requested_def Let_def
  by (auto intro!: keeps_bind keeps_modify keeps_quiet [OF quiet_get] keeps_quiet [OF quiet_ret]
      keeps_quiet [OF quiet_status] keeps_quiet [OF quiet_reinitialize]
      simp: ctx_res_def split: prod.split)

lemma keeps_switch: "kernel_ids api \<Longrightarrow> keeps base (switch_format api e fmt w h fps)"
  unfolding switch_format_def
  by (auto intro!: keeps_intros keeps_quiet [OF quiet_get] keeps_quiet [OF quiet_ret] keeps_quiet [OF quiet_answer])

lemma keeps_set_format: "kernel_ids api \<Longrightarrow> keeps base (dau_set_video_format api e fmt)"
  unfolding dau_set_video_format_def Let_def
  by (auto intro!: keeps_intros keeps_switch keeps_quiet [OF quiet_get] keeps_quiet [OF quiet_ret]
      keeps_quiet [OF quiet_answer] simp: ctx_res_def split: option.split)

lemma keeps_restore: "kernel_ids api \<Longrightarrow> keeps base (restore_ultra_output api e)"
  unfolding restore_ultra_output_def Let_def by (auto intro!: keeps_intros keeps_quiet [OF quiet_get])

lemma keeps_audio_info: "keeps base (dau_set_audio_info api info)"
  unfolding dau_set_audio_info_def Let_def
  by (auto intro!: keeps_bind keeps_modify keeps_quiet [OF quiet_get] keeps_quiet [OF quiet_ret]
      keeps_quiet [OF quiet_answer] simp: ctx_res_def split: option.split)

text \<open>What reaches the context while the output runs, in any order.\<close>

datatype ctx_op =
    Set_video_format "video_format option"
  | Restore_output
  | Apply_modeset nat nat rat bool int
  | Poll_resync u64
  | Set_audio_info "audio_info option"
  | Get_cable_status

definition ctx_step :: "drm_call api \<Rightarrow> out_env \<Rightarrow> ctx_op \<Rightarrow> unit ud" where
  "ctx_step api e q =
     (case q of
        Set_video_format fmt \<Rightarrow> dau_set_video_format api e fmt
      | Restore_output \<Rightarrow> do { restore_ultra_output api e; ret () }
      | Apply_modeset w h fps en fmt \<Rightarrow> do { apply_drm_modeset api e w h fps en fmt; ret () }
      | Poll_resync now \<Rightarrow> poll_sdi_resync api (e_pname e) (e_enc e) now
      | Set_audio_info info \<Rightarrow> dau_set_audio_info api info
      | Get_cable_status \<Rightarrow> dau_get_cable_status api)"

primrec ctx_session :: "drm_call api \<Rightarrow> out_env \<Rightarrow> ctx_op list \<Rightarrow> unit ud" where
  "ctx_session api e [] = ret ()"
| "ctx_session api e (q # qs) = do { ctx_step api e q; ctx_session api e qs }"

lemma keeps_step: "kernel_ids api \<Longrightarrow> keeps base (ctx_step api e q)"
  unfolding ctx_step_def dau_get_cable_status_def
  by (auto intro!: keeps_intros keeps_set_format keeps_restore keeps_poll keeps_audio_info keeps_quiet [OF quiet_get]
      keeps_quiet [OF quiet_ret] keeps_quiet [OF quiet_answer] keeps_quiet [OF quiet_call] split: ctx_op.split)

lemma keeps_session: "kernel_ids api \<Longrightarrow> keeps base (ctx_session api e qs)"
  by (induction qs) (auto intro!: keeps_bind keeps_step keeps_quiet [OF quiet_ret])

lemma wp_cleanup_sdi:
  assumes "owns_ctx base s"
    and "\<And>tr. owns_ctx base (s\<lparr>trace := tr, sdi_status_map := False\<rparr>) \<Longrightarrow> Q () (s\<lparr>trace := tr, sdi_status_map := False\<rparr>)"
  shows "wp (cleanup_sdi_resync api) Q s"
proof -
  have "s = s\<lparr>trace := trace s, sdi_status_map := False\<rparr>" if "\<not> sdi_status_map s" using that by simp
  then have "\<not> sdi_status_map s \<Longrightarrow> Q () s" using assms(1) assms(2) [of "trace s"] by metis
  moreover have "owns_ctx base (s\<lparr>trace := (UnmapStatus, r) # trace s, sdi_status_map := False\<rparr>)" if "sdi_status_map s" for r
    using assms(1) that by (simp add: owns_ctx_def ctx_res_def ctx_dev_def)
  ultimately show ?thesis
    using assms(2) by (auto simp: cleanup_sdi_resync_def wp_rules wp_call)
qed

lemma wp_close_output:
  assumes "0 \<le> drm_fd c" and "owns_ctx base c" and "\<not> sdi_status_map c"
  shows "wp (close_output api) (\<lambda>_ t. drm_ledger (trace t) = Some base \<and> ctx_res t = {#} \<and> drm_fd t = - 1) c"
  unfolding close_output_def wp_bind wp_get
proof (rule wp_destroy_dumb_fb [OF assms(1), where M = "base + ctx_dev c + blob_res (mode_blob_id c) +
      fb_res (overlay_fb_id c, overlay_bo_handle c)"], goal_cases)
  case 1
  then show ?case using assms(2) by (simp add: owns_ctx_def ctx_res_def ac_simps)
next
  case (2 tr)
  show ?case
    by (rule wp_destroy_dumb_fb [OF assms(1), where M = "base + ctx_dev c + blob_res (mode_blob_id c)"])
      (use 2 assms(1,3) in \<open>auto simp: wp_rules wp_call blob_res_def ctx_res_def ctx_dev_def dev_res_def\<close>)
qed

lemma cleanup_releases:
  assumes "owns_ctx base s" and "0 \<le> drm_fd s"
  shows "wp (cleanup_ultra_direct_drm api e)
    (\<lambda>_ t. drm_ledger (trace t) = Some base \<and> ctx_res t = {#} \<and> drm_fd t = - 1) s"
  unfolding cleanup_ultra_direct_drm_def wp_bind [of "cleanup_sdi_resync api"]
proof (rule wp_cleanup_sdi [OF assms(1)])
  fix tr
  let ?c = "s\<lparr>trace := tr, sdi_status_map := False\<rparr>"
  assume own: "owns_ctx base ?c"
  have "wp (do { passthrough api e False; close_output api })
      (\<lambda>_ t. drm_ledger (trace t) = Some base \<and> ctx_res t = {#} \<and> drm_fd t = - 1) ?c"
    by (rule quiet_step [OF quiet_passthrough], rule wp_close_output)
      (use own assms(2) in \<open>simp_all add: owns_ctx_def ctx_res_def ctx_dev_def\<close>)
  then show "wp (State_Monad.get \<bind> (\<lambda>c. if drm_fd c < 0 then ret () else do { passthrough api e False; close_output api }))
      (\<lambda>_ t. drm_ledger (trace t) = Some base \<and> ctx_res t = {#} \<and> drm_fd t = - 1) ?c"
    using assms(2) by (simp add: wp_bind [of State_Monad.get] wp_get)
qed

text \<open>The watchdog maps its register at most once.\<close>

lemma wp_init_resync:
  assumes "owns_ctx base c" and "\<not> sdi_status_map c"
  shows "wp (init_sdi_resync api backend enabled version product) (\<lambda>_ t. owns_ctx base t \<and> drm_fd t = drm_fd c) c"
  using assms
  by (auto simp: init_sdi_resync_def wp_rules wp_call owns_ctx_def ctx_res_def ctx_dev_def)

text \<open>
  C5: kernel objects over the life of the direct output: whatever the DRM driver, the mixer and
  sysfs answer, and in whatever order formats, modesets, watchdog polls and queries arrive after
  the start of the watchdog, the device, the frame buffers, buffer objects, mode blobs and the
  status mapping alive are exactly those the context names, on success and on every error path,
  and none is released twice.  The final clean-up releases them all and clears the context.
\<close>

theorem ultra_session_no_leak:
  assumes "kernel_ids api" and "0 \<le> drm_fd c" and "\<not> sdi_status_map c" and "drm_ledger (trace c) = Some (base + ctx_res c)"
  shows "wp (do { init_sdi_resync api backend enabled version product; ctx_session api e qs })
    (\<lambda>_ t. drm_ledger (trace t) = Some (base + ctx_res t) \<and>
      wp (cleanup_ultra_direct_drm api e)
        (\<lambda>_ u. drm_ledger (trace u) = Some base \<and> ctx_res u = {#} \<and> drm_fd u = - 1) t) c"
  unfolding wp_bind
proof (rule wp_conseq [OF wp_init_resync [where base = base]])
  fix s
  assume s: "owns_ctx base s \<and> drm_fd s = drm_fd c"
  have "wp (ctx_session api e qs) (\<lambda>_ t. owns_ctx base t \<and> drm_fd t = drm_fd s) s"
    using keeps_session [OF assms(1), of base e qs] s unfolding keeps_def by blast
  then show "wp (ctx_session api e qs) (\<lambda>_ t. drm_ledger (trace t) = Some (base + ctx_res t) \<and>
      wp (cleanup_ultra_direct_drm api e)
        (\<lambda>_ u. drm_ledger (trace u) = Some base \<and> ctx_res u = {#} \<and> drm_fd u = - 1) t) s"
    by (rule wp_conseq) (use s assms(2) in \<open>auto simp: owns_ctx_def intro!: cleanup_releases\<close>)
qed (use assms in \<open>simp_all add: owns_ctx_def\<close>)

text \<open>A driver with one monitor that accepts every request, and an HDMI output on it.\<close>

definition demo_api :: "drm_call api" where
  "demo_api tr q = (case q of AtomicAlloc \<Rightarrow> (1, []) | GetConnector i \<Rightarrow> (1, [1]) | _ \<Rightarrow> (0, [7, 7680]))"

definition demo_env :: out_env where
  "demo_env = \<lparr>card_env = \<lparr>output_is_sdi = False, output_audio_card = [], drm_modeset_active = False\<rparr>,
     e_pname = (\<lambda>_. None), e_enc = (\<lambda>_. []), e_dec = (\<lambda>_. [sd720, hd60]),
     e_conn = (\<lambda>_. \<lparr>connector_id = 2, connector_hdmia = True, connector_unknown = False\<rparr>),
     e_encoders = (\<lambda>_. (1, [])), e_rgb888 = 1, e_uyvy10 = 2,
     e_yuyv = 0x56595559, e_bgr888 = 0x34324742, e_nv12 = 0x3231564e, e_dirs = (\<lambda>_. None), g_sdi_audio_optional = False,
     g_sdi_audio_disabled = False, g_tpg_pattern = 7, g_sdi_output_width = 1920, g_sdi_output_height = 1080\<rparr>"

definition demo_ctx :: ultra where
  "demo_ctx = ultra_init\<lparr>trace := [(DrmOpen, (3, []))], sdi_status_map := False, primary_fb_id := 0, primary_bo_handle := 0, overlay_plane_id := 0, overlay_fb_id := 0,
     overlay_bo_handle := 0, mode_blob_id := 0, modeset_active := False, overlay_active := False\<rparr>"

lemma demo_ids: "kernel_ids demo_api"
  by (simp add: kernel_ids_def nonzero_ids_def demo_api_def outp_def)

lemma demo_ctx_empty: "0 \<le> drm_fd demo_ctx" "\<not> sdi_status_map demo_ctx"
  "drm_ledger (trace demo_ctx) = Some ({#} + ctx_res demo_ctx)"
  by (simp_all add: demo_ctx_def ultra_init_def ctx_res_def ctx_dev_def dev_res_def fb_res_def blob_res_def)

theorem ultra_session_no_leak_witness:
  "wp (do { init_sdi_resync demo_api SDI (Some ''1'') [] [];
            ctx_session demo_api demo_env [Apply_modeset 1600 900 60 False 0, Poll_resync 1000, Restore_output] })
    (\<lambda>_ t. drm_ledger (trace t) = Some ({#} + ctx_res t) \<and>
      wp (cleanup_ultra_direct_drm demo_api demo_env)
        (\<lambda>_ u. drm_ledger (trace u) = Some {#} \<and> ctx_res u = {#} \<and> drm_fd u = - 1) t) demo_ctx"
  by (rule ultra_session_no_leak) (rule demo_ids demo_ctx_empty)+

text \<open>
  C9: a modeset is all or nothing: it fails with -1 and leaves the whole context as it was, or the
  context shows a mode that the selection admits, with the overlay on only if it was asked for.
  The one failure after the commit is an SDI output whose card refuses the embedded audio of an
  enabled overlay while neither option that renounces the audio is set.
\<close>

theorem modeset_all_or_nothing:
  assumes "kernel_ids api" and "drm_ledger (trace s) = Some (base + ctx_res s)"
  shows "wp (apply_drm_modeset api e width height fps enable fmt) (\<lambda>r t.
    (r = - 1 \<and> t = s\<lparr>trace := trace t\<rparr>) \<or>
    (modeset_active t \<and> (overlay_active t \<longrightarrow> enable) \<and>
     select_output_mode (is_sdi e) (e_dec e (tl (snd (api (trace s) (GetConnector (connector s))))))
       width height fps = Some (current_mode t) \<and>
     (r = 0 \<or> (r = - 1 \<and> is_sdi e \<and> overlay_active t \<and> \<not> g_sdi_audio_disabled e \<and> \<not> g_sdi_audio_optional e)))) s"
proof (rule wp_conseq [OF wp_apply_drm_modeset [OF assms]])
  fix r t
  assume p: "modeset_post e enable (\<lambda>m. select_output_mode (is_sdi e)
    (e_dec e (tl (snd (api (trace s) (GetConnector (connector s)))))) width height fps = Some m) base s r t"
  show "(r = - 1 \<and> t = s\<lparr>trace := trace t\<rparr>) \<or>
    (modeset_active t \<and> (overlay_active t \<longrightarrow> enable) \<and>
     select_output_mode (is_sdi e) (e_dec e (tl (snd (api (trace s) (GetConnector (connector s))))))
       width height fps = Some (current_mode t) \<and>
     (r = 0 \<or> (r = - 1 \<and> is_sdi e \<and> overlay_active t \<and> \<not> g_sdi_audio_disabled e \<and> \<not> g_sdi_audio_optional e)))"
  proof (cases "r = - 1 \<and> t = s\<lparr>trace := trace t\<rparr>")
    case False
    then obtain mode where "select_output_mode (is_sdi e)
        (e_dec e (tl (snd (api (trace s) (GetConnector (connector s)))))) width height fps = Some mode"
      and "committed e enable mode s r t" using p by (auto simp: modeset_post_def)
    then show ?thesis by (auto simp: committed_def)
  qed simp
qed

section \<open>A modeset succeeds\<close>

lemma yields_overlay:
  "cooperative api \<Longrightarrow> yields (new_overlay api e w h enable fmt) (\<lambda>r. snd r = enable)"
  unfolding new_overlay_def
  by (auto intro!: yields_bind [OF yields_get] yields_bind [OF yields_create] yields_ret
      yields_bind [OF yields_quiet [OF quiet_fill]] split: option.split)

lemma yields_commit:
  "cooperative api \<Longrightarrow> \<not> is_sdi e \<Longrightarrow> yields (commit_output api e req mode) (\<lambda>r. r = 0)"
  unfolding commit_output_def add_output_properties_def backend_of_def
  by (auto intro!: yields_bind [OF yields_get] yields_bind [OF yields_passthrough] yields_ret
      yields_bind [OF yields_call [where P = "\<lambda>r. fst r = 0"]] simp: cooperative_def)

lemma yields_finish: "\<not> is_sdi e \<Longrightarrow> yields (finish_modeset api e en mode) (\<lambda>r. r = 0)"
  unfolding finish_modeset_def
  by (auto intro!: yields_bind [OF yields_ret [where P = Not]] yields_bind [OF yields_quiet [OF quiet_vtpg]]
      yields_bind [OF yields_quiet [OF quiet_vmix]] yields_ret yields_bind [OF yields_ret [where P = "\<lambda>_. True"]])

text \<open>The plane has the property that selects its source.\<close>

definition has_source :: "drm_call api \<Rightarrow> out_env \<Rightarrow> int \<Rightarrow> bool" where
  "has_source api e pl \<longleftrightarrow> (\<forall>tr. fst (api tr (GetProps pl ''plane'')) = 0 \<and>
     prop_lookup (e_pname e) ''SC6F0_OVERLAY_SOURCE'' (map fst (pairs_of (snd (api tr (GetProps pl ''plane''))))) \<noteq> 0)"

lemma wp_overlay_request:
  assumes "has_source api e (overlay_plane_id s)" and "\<And>tr. Q True (s\<lparr>trace := tr\<rparr>)"
  shows "wp (overlay_request api e req en fb w h out rect) Q s"
proof -
  have "yields (drm_property_id api (e_pname e) (overlay_plane_id s) ''plane'' ''SC6F0_OVERLAY_SOURCE'') (\<lambda>i. i \<noteq> 0)"
    unfolding drm_property_id_def
    by (rule yields_bind [OF yields_call [where P = "\<lambda>r. fst r = 0 \<and>
          prop_lookup (e_pname e) ''SC6F0_OVERLAY_SOURCE'' (map fst (pairs_of (snd r))) \<noteq> 0"]])
      (use assms(1) in \<open>auto simp: has_source_def intro!: yields_ret\<close>)
  note src = this
  have adds: "yields (atomic_adds api req (overlay_plane_id s) xs) (\<lambda>_. True)" for xs
    by (rule yields_quiet [OF quiet_atomic_adds])
  have ids: "yields (property_ids api (e_pname e) (overlay_plane_id s) ''plane'' plane_properties) (\<lambda>_. True)"
    by (rule yields_quiet [OF quiet_property_ids])
  show ?thesis
    unfolding overlay_request_def wp_bind [of State_Monad.get] wp_get
    by (rule yields_step [OF src], simp only: if_False, rule yields_step [OF adds], rule yields_step [OF ids],
        rule yields_step [OF adds]) (simp add: wp_return assms(2))
qed

lemma wp_take_over_any:
  assumes "\<And>tr. Q () (s\<lparr>trace := tr, primary_fb_id := fst p, primary_bo_handle := snd p, overlay_fb_id := fst v,
      overlay_bo_handle := snd v, mode_blob_id := b, modeset_active := True, overlay_active := en, current_mode := mode\<rparr>)"
  shows "wp (take_over api p v b en mode) Q s"
proof -
  have blob: "yields (if x \<noteq> 0 then do { call api (DestroyBlob x); ret () } else ret ()) (\<lambda>_. True)" for x
    by (intro yields_if yields_bind [OF yields_any] yields_ret TrueI)
  show ?thesis
    unfolding take_over_def wp_bind [of State_Monad.get] wp_get
    by (rule yields_step [OF yields_destroy], rule yields_step [OF yields_destroy], rule yields_step [OF blob])
      (use assms in \<open>simp add: wp_modify\<close>)
qed

text \<open>
  C10: a modeset that can succeed does: on HDMI, with a connected monitor for which a mode is
  selected, a rectangle that is not empty and a driver that grants the requests, the result is
  0, the selected mode is the current one and the overlay is on exactly if it was asked for.
\<close>

theorem modeset_succeeds:
  assumes "cooperative api" and "\<not> is_sdi e" and "0 \<le> drm_fd s" "connector s \<noteq> 0" "crtc_id s \<noteq> 0"
    and "0 < width" "width \<le> 3840" "0 < height" "height \<le> 2160"
    and "\<And>tr. fst (api tr (GetConnector (connector s))) \<noteq> 0 \<and>
      outp (api tr (GetConnector (connector s))) 0 = DRM_MODE_CONNECTED \<and>
      e_dec e (tl (snd (api tr (GetConnector (connector s))))) = modes"
    and "select_output_mode False modes width height fps = Some mode"
    and "letterbox width height (hdisplay mode) (vdisplay mode) = (rw, rh)" "rw \<noteq> 0" "rh \<noteq> 0"
    and "overlay_plane_id s \<noteq> 0 \<longrightarrow> has_source api e (overlay_plane_id s)"
  shows "wp (apply_drm_modeset api e width height fps enable fmt)
    (\<lambda>r t. r = 0 \<and> modeset_active t \<and> current_mode t = mode \<and> overlay_active t = enable) s"
proof -
  let ?Q = "\<lambda>r t. r = 0 \<and> modeset_active t \<and> current_mode t = mode \<and> overlay_active t = enable"
  have fin: "wp (do { take_over api p v b enable mode; finish_modeset api e enable mode }) ?Q (s\<lparr>trace := tr\<rparr>)" for p v b tr
    unfolding wp_bind
    by (rule wp_take_over_any, rule wp_yields [OF yields_finish [OF assms(2)]]) simp
  have alloc: "yields (call api AtomicAlloc) (\<lambda>r. fst r \<noteq> 0)"
    by (rule yields_call) (use assms(1) in \<open>simp add: cooperative_def\<close>)
  have blob: "yields (call api (CreateBlob xs)) (\<lambda>r. fst r = 0)" for xs
    by (rule yields_call) (use assms(1) in \<open>simp add: cooperative_def\<close>)
  have conn: "yields (call api (GetConnector (connector s)))
      (\<lambda>r. fst r \<noteq> 0 \<and> outp r 0 = DRM_MODE_CONNECTED \<and> e_dec e (tl (snd r)) = modes)"
    by (rule yields_call) (use assms(10) in simp)
  have prim: "yields (primary_request api e req b fb w h) (\<lambda>_. True)" for req b fb w h
    by (rule yields_quiet [OF quiet_primary])
  have ov: "wp (State_Monad.bind (if overlay_plane_id s \<noteq> 0 then overlay_request api e req en fb w h out rect else ret True) f)
      Q (s\<lparr>trace := tr\<rparr>)" if "\<And>tr. wp (f True) Q (s\<lparr>trace := tr\<rparr>)" for req en fb w h out rect f Q tr
    using that assms(15) by (auto simp: wp_bind wp_return intro!: wp_overlay_request)
  have tail: "wp (do {
         ov \<leftarrow> new_overlay api e width height enable fmt;
         req \<leftarrow> call api AtomicAlloc;
         if fst req = 0 then discard api (drm_fd s) (fb, bo) (fst ov) b else do {
         primary_request api e (fst req) b fb (hdisplay mode) (vdisplay mode);
         ok \<leftarrow> (if overlay_plane_id s \<noteq> 0
                then overlay_request api e (fst req) (snd ov) (fst (fst ov)) width height
                       (hdisplay mode, vdisplay mode) (rw, rh)
                else ret True);
         if \<not> ok then discard api (drm_fd s) (fb, bo) (fst ov) b else do {
         err \<leftarrow> commit_output api e (fst req) mode;
         if err \<noteq> 0 then discard api (drm_fd s) (fb, bo) (fst ov) b else do {
         take_over api (fb, bo) (fst ov) b (snd ov) mode;
         finish_modeset api e (snd ov) mode } } } }) ?Q (s\<lparr>trace := tr\<rparr>)" for fb bo b tr
    by (rule yields_step [OF yields_overlay [OF assms(1)]], rule yields_step [OF alloc], simp only: if_False trace_again,
        rule yields_step [OF prim], unfold trace_again, rule ov, simp only: not_True_eq_False if_False,
        rule yields_step [OF yields_commit [OF assms(1,2)]], simp only: trace_again not_True_eq_False if_False simp_thms)
      (rule fin)
  have prog: "wp (program_mode api e width height enable fmt mode) ?Q (s\<lparr>trace := tr\<rparr>)" for tr
  proof -
    have "wp (do {
        b \<leftarrow> call api (CreateBlob (e_enc e mode));
        if fst b \<noteq> 0 then ret (- 1) else do {
        p \<leftarrow> create_dumb_fb api (hdisplay mode) (vdisplay mode) (e_bgr888 e) 24;
        f p b } }) ?Q (s\<lparr>trace := tr\<rparr>)"
      if "\<And>fb bo pitch b tr. wp (f (Some (fb, bo, pitch)) b) ?Q (s\<lparr>trace := tr\<rparr>)" for f
      by (rule yields_step [OF blob], simp only: not_True_eq_False if_False simp_thms,
          rule yields_step [OF yields_create [OF assms(1)]]) (use that in auto)
    note go = this
    have sel: "drm_fd (s\<lparr>trace := tr\<rparr>) = drm_fd s" "overlay_plane_id (s\<lparr>trace := tr\<rparr>) = overlay_plane_id s"
      by simp_all
    show ?thesis
      unfolding program_mode_def wp_bind [of State_Monad.get] wp_get Let_def assms(12) sel
      using assms(13,14)
      by (simp only: fst_conv snd_conv simp_thms if_False) (rule go, simp only: option.case prod.case, rule tail)
  qed
  have "wp (do {
       r \<leftarrow> call api (GetConnector (connector s));
       if fst r = 0 \<or> outp r 0 \<noteq> DRM_MODE_CONNECTED then ret (- 1)
       else case select_output_mode (is_sdi e) (e_dec e (tl (snd r))) width height fps of
         None \<Rightarrow> ret (- 1)
       | Some mode \<Rightarrow> program_mode api e width height enable fmt mode }) ?Q s"
    by (rule yields_step [OF conn]) (use assms(2,11) prog in auto)
  then show ?thesis
    unfolding apply_drm_modeset_def wp_bind [of State_Monad.get] wp_get using assms(3-9) by (auto simp: wp_return)
qed

theorem modeset_succeeds_witness:
  "wp (apply_drm_modeset demo_api demo_env 1600 900 60 True 0)
    (\<lambda>r t. r = 0 \<and> modeset_active t \<and> current_mode t = hd60 \<and> overlay_active t = True) demo_ctx"
  by (rule modeset_succeeds [where modes = "[sd720, hd60]" and rw = 1920 and rh = 1080, OF _ _ _ _ _ _ _ _ _ _ select_60])
    (simp_all add: cooperative_def demo_api_def demo_env_def demo_ctx_def ultra_init_def outp_def DRM_MODE_CONNECTED_def
      letterbox_def hd60_def)

theorem modeset_all_or_nothing_witness:
  "wp (apply_drm_modeset demo_api demo_env 1600 900 60 False 0) (\<lambda>r t.
    (r = - 1 \<and> t = demo_ctx\<lparr>trace := trace t\<rparr>) \<or>
    (modeset_active t \<and> (overlay_active t \<longrightarrow> False) \<and>
     select_output_mode (is_sdi demo_env) (e_dec demo_env (tl (snd (demo_api (trace demo_ctx) (GetConnector (connector demo_ctx))))))
       1600 900 60 = Some (current_mode t) \<and>
     (r = 0 \<or> (r = - 1 \<and> is_sdi demo_env \<and> overlay_active t \<and> \<not> g_sdi_audio_disabled demo_env \<and>
        \<not> g_sdi_audio_optional demo_env)))) demo_ctx"
  by (rule modeset_all_or_nothing [OF demo_ids, where base = "{#}"]) (simp add: demo_ctx_empty)

section \<open>Answers to the Dante service\<close>

text \<open>The table of methods the service calls; the edid argument is as in \<open>dau_get_edid\<close>.\<close>

datatype dau_request =
    Get_cable
  | Get_hdcp
  | Set_hdcp bool
  | Toggle_hpd
  | Set_format "video_format option"
  | Set_audio "audio_info option"
  | Set_hdr
  | Get_edid

definition dau_dispatch :: "drm_call api \<Rightarrow> out_env \<Rightarrow> (int \<Rightarrow> int \<Rightarrow> u8 list option) \<Rightarrow> dau_request \<Rightarrow> unit ud" where
  "dau_dispatch api e edid q =
     (case q of
        Get_cable \<Rightarrow> dau_get_cable_status api
      | Get_hdcp \<Rightarrow> dau_get_hdcp api e
      | Set_hdcp none \<Rightarrow> dau_set_hdcp api e none
      | Toggle_hpd \<Rightarrow> dau_toggle_hpd api
      | Set_format fmt \<Rightarrow> dau_set_video_format api e fmt
      | Set_audio info \<Rightarrow> dau_set_audio_info api info
      | Set_hdr \<Rightarrow> dau_set_hdr api
      | Get_edid \<Rightarrow> dau_get_edid api e edid)"

fun answers :: "drm_call event list \<Rightarrow> dau_reply list" where
  "answers [] = []"
| "answers ((Dau a, r) # tr) = a # answers tr"
| "answers (ev # tr) = answers tr"

abbreviation mute :: "'a ud \<Rightarrow> bool" where
  "mute \<equiv> stays (\<lambda>s t. answers (trace t) = answers (trace s))"

interpretation mute: step_relation "\<lambda>s t. answers (trace t) = answers (trace s)"
  by unfold_locales simp_all

lemmas mute_ret = mute.ret
lemmas mute_get = mute.get
lemmas mute_bind = mute.bind
lemmas mute_def = stays_def

lemma answers_other: "(\<And>a. q \<noteq> Dau a) \<Longrightarrow> answers ((q, r) # tr) = answers tr"
  by (cases q) auto

lemma mute_call: "(\<And>a. q \<noteq> Dau a) \<Longrightarrow> mute (call api q)"
  by (simp add: mute_def wp_call answers_other)

lemma mute_modify: "(\<And>c. trace (f c) = trace c) \<Longrightarrow> mute (modify f)"
  by (simp add: mute_def wp_rules)

lemma answers_alsa: "answers (map (\<lambda>(c, r). (Alsa c, r)) new @ tr) = answers tr"
  by (induction new) auto

lemma mute_passthrough: "mute (passthrough api e enable)"
  by (auto simp: mute_def passthrough_def answers_alsa intro!: wp_embed)

lemmas mute_intros = mute_ret mute_get mute_bind mute_call mute_modify mute_passthrough

lemma mute_property_id: "mute (drm_property_id api pname obj kind name)"
  unfolding drm_property_id_def by (auto intro!: mute_intros)

lemma mute_property_ids: "mute (property_ids api pname obj kind ns)"
  by (induction ns) (auto intro!: mute_intros mute_property_id)

lemma mute_atomic_adds: "mute (atomic_adds api req obj ivs)"
  by (induction ivs) (auto intro!: mute_intros)

lemma mute_write_attrs: "mute (write_attrs api dir avs)"
  by (induction avs) (auto intro!: mute_intros)

lemma mute_add_properties: "mute (add_properties api pname obj req ps)"
  by (induction ps) (auto intro!: mute_intros mute_property_id)

lemma mute_create: "mute (create_dumb_fb api w h f b)"
  unfolding create_dumb_fb_def by (auto intro!: mute_intros)

lemma mute_destroy: "mute (destroy_dumb_fb api fd fb bo)"
  unfolding destroy_dumb_fb_def by (auto intro!: mute_intros)

lemma mute_requests: "mute (primary_request api e req blob fb w h)" "mute (overlay_request api e req en fb w h out rect)"
  unfolding primary_request_def overlay_request_def
  by (auto intro!: mute_intros mute_property_id mute_property_ids mute_atomic_adds)

lemma mute_commit: "mute (commit_output api e req mode)"
  unfolding commit_output_def add_output_properties_def by (auto intro!: mute_intros mute_add_properties)

lemma mute_fill: "mute (fill_yuyv_dumb_fb api bo w h pitch m)"
  unfolding fill_yuyv_dumb_fb_def by (auto intro!: mute_intros)

lemma mute_overlay: "mute (new_overlay api e w h enable fmt)"
  unfolding new_overlay_def by (auto intro!: mute_intros mute_create mute_fill split: option.split)

lemma mute_sysfs: "mute (configure_vtpg api e w h b)" "mute (set_vmix_layer1_opaque api e)"
  unfolding configure_vtpg_def set_vmix_layer1_opaque_def Let_def
  by (auto intro!: mute_intros mute_write_attrs simp del: write_attrs.simps)

lemma mute_finish: "mute (finish_modeset api e en mode)"
  unfolding finish_modeset_def by (auto intro!: mute_intros mute_sysfs)

lemma mute_release: "mute (discard api fd p v b)" "mute (take_over api p v b en mode)"
  unfolding discard_def take_over_def by (auto intro!: mute_intros mute_destroy)

lemma mute_modeset: "mute (apply_drm_modeset api e w h fps en fmt)"
  unfolding apply_drm_modeset_def program_mode_def Let_def
  by (auto intro!: mute_intros mute_create mute_overlay mute_requests mute_commit mute_finish mute_release
      split: option.split)

text \<open>Programs that answer exactly once.\<close>

definition answers_once :: "'a ud \<Rightarrow> bool" where
  "answers_once m \<longleftrightarrow> (\<forall>s. wp m (\<lambda>_ t. \<exists>a. answers (trace t) = a # answers (trace s)) s)"

lemma once_answer: "answers_once (dau_answer api a)"
  by (simp add: answers_once_def dau_answer_def wp_rules wp_call)

lemma once_bind: "mute m \<Longrightarrow> (\<And>x. answers_once (f x)) \<Longrightarrow> answers_once (State_Monad.bind m f)"
  unfolding mute_def answers_once_def wp_bind by (intro allI, rule wp_conseq, blast, rule wp_conseq, blast, simp)

lemmas once_intros = once_answer once_bind mute_intros mute_modeset

lemma once_switch: "answers_once (switch_format api e fmt w h fps)"
  unfolding switch_format_def by (auto intro!: once_intros)

lemma once_set_format: "answers_once (dau_set_video_format api e fmt)"
  unfolding dau_set_video_format_def Let_def by (auto intro!: once_intros once_switch split: option.split)

lemma once_queries: "answers_once (dau_get_cable_status api)" "answers_once (dau_get_edid api e edid)"
  "answers_once (dau_set_audio_info api info)"
  unfolding dau_get_cable_status_def dau_get_edid_def dau_set_audio_info_def Let_def
  by (auto intro!: once_intros split: option.split prod.split)

text \<open>
  C12: every request of the Dante service is answered exactly once, on every path: with whatever
  modesets it causes, successful or not, one answer is sent and no other.
\<close>

theorem dau_answered_once:
  "wp (dau_dispatch api e edid q) (\<lambda>_ t. \<exists>a. answers (trace t) = a # answers (trace s)) s"
proof -
  have "answers_once (dau_dispatch api e edid q)"
    unfolding dau_dispatch_def dau_get_hdcp_def dau_set_hdcp_def dau_toggle_hpd_def dau_set_hdr_def
    by (auto intro!: once_answer once_set_format once_queries split: dau_request.split)
  then show ?thesis by (simp add: answers_once_def)
qed

text \<open>
  C11: the SDI contract: a locked stream of another size, rate, scan or colour format than the
  configured one is answered with an error, is not remembered as the format to restore, and never
  switches the overlay on: afterwards the overlay is off, or the output is still exactly what it
  was because the driver refused the change.
\<close>

theorem sdi_contract_enforced:
  assumes "kernel_ids api" and "drm_ledger (trace c) = Some (base + ctx_res c)" and "outside_sdi_contract e fmt c"
  shows "wp (dau_set_video_format api e (Some fmt)) (\<lambda>_ t.
    answers (trace t) = Dau_error ''Stream does not match SDI timing/RGB contract'' # answers (trace c) \<and>
    last_locked_video_format t = last_locked_video_format c \<and> ultra_overlay_format t = ultra_overlay_format c \<and>
    (overlay_active t \<longrightarrow>
       t = c\<lparr>trace := trace t, current_video_format := fmt, format_changes := format_changes c + 1\<rparr>)) c"
proof -
  let ?c = "c\<lparr>current_video_format := fmt, format_changes := format_changes c + 1\<rparr>"
  have out: "outside_sdi_contract e fmt ?c" using assms(3) by (simp add: outside_sdi_contract_def)
  have l: "drm_ledger (trace ?c) = Some (base + ctx_res ?c)" using assms(2) by (simp add: ctx_res_def)
  have step: "wp (apply_drm_modeset api e (fixed_width ?c) (fixed_height ?c) (of_nat (fixed_fps ?c)) False (e_yuyv e))
      (\<lambda>_ t. answers (trace t) = answers (trace c) \<and>
         last_locked_video_format t = last_locked_video_format c \<and> ultra_overlay_format t = ultra_overlay_format c \<and>
         (overlay_active t \<longrightarrow> t = ?c\<lparr>trace := trace t\<rparr>)) ?c"
  proof (rule wp_conseq [OF wp_conj [OF wp_apply_drm_modeset [OF assms(1) l] mute_modeset [unfolded mute_def, rule_format]]])
    fix r t
    assume a: "modeset_post e False (\<lambda>m. select_output_mode (is_sdi e)
        (e_dec e (tl (snd (api (trace ?c) (GetConnector (connector ?c)))))) (fixed_width ?c) (fixed_height ?c)
        (of_nat (fixed_fps ?c)) = Some m) base ?c r t \<and> answers (trace t) = answers (trace ?c)"
    then consider "t = ?c\<lparr>trace := trace t\<rparr>" | mode where "committed e False mode ?c r t"
      by (auto simp: modeset_post_def)
    then show "answers (trace t) = answers (trace c) \<and>
         last_locked_video_format t = last_locked_video_format c \<and> ultra_overlay_format t = ultra_overlay_format c \<and>
         (overlay_active t \<longrightarrow> t = ?c\<lparr>trace := trace t\<rparr>)"
    proof cases
      case 1
      have "last_locked_video_format t = last_locked_video_format c" "ultra_overlay_format t = ultra_overlay_format c"
        using arg_cong [OF 1, of last_locked_video_format] arg_cong [OF 1, of ultra_overlay_format] by simp_all
      with 1 a show ?thesis by simp
    next
      case 2
      then show ?thesis using a by (auto simp: committed_def)
    qed
  qed
  show ?thesis
    unfolding dau_set_video_format_def option.case wp_bind [of "modify _"] wp_modify wp_bind [of State_Monad.get] wp_get
      if_P [OF out] wp_bind [of "apply_drm_modeset _ _ _ _ _ _ _"]
  proof (rule wp_conseq [OF step])
    fix r :: int and t
    assume a: "answers (trace t) = answers (trace c) \<and>
         last_locked_video_format t = last_locked_video_format c \<and> ultra_overlay_format t = ultra_overlay_format c \<and>
         (overlay_active t \<longrightarrow> t = ?c\<lparr>trace := trace t\<rparr>)"
    have same: "t\<lparr>trace := tr\<rparr> = c\<lparr>trace := tr, current_video_format := fmt, format_changes := format_changes c + 1\<rparr>"
      if "overlay_active t" for tr
      using arg_cong [OF a [THEN conjunct2, THEN conjunct2, THEN conjunct2, rule_format, OF that], of "\<lambda>t. t\<lparr>trace := tr\<rparr>"]
      by simp
    show "wp (dau_answer api (Dau_error ''Stream does not match SDI timing/RGB contract'')) (\<lambda>_ t.
        answers (trace t) = Dau_error ''Stream does not match SDI timing/RGB contract'' # answers (trace c) \<and>
        last_locked_video_format t = last_locked_video_format c \<and> ultra_overlay_format t = ultra_overlay_format c \<and>
        (overlay_active t \<longrightarrow>
           t = c\<lparr>trace := trace t, current_video_format := fmt, format_changes := format_changes c + 1\<rparr>)) t"
      using a by (simp add: dau_answer_def wp_rules wp_call same del: ultra.update_convs)
  qed
qed

text \<open>The same output on SDI, configured for 1080p60, meets a 720p stream.\<close>

definition sdi_env :: out_env where
  "sdi_env = demo_env\<lparr>card_env := \<lparr>output_is_sdi = True, output_audio_card = ''hw:x'', drm_modeset_active = False\<rparr>\<rparr>"

theorem sdi_contract_enforced_witness:
  "wp (dau_set_video_format demo_api sdi_env (Some (no_format\<lparr>vf_width := 1280, locked := True\<rparr>))) (\<lambda>_ t.
    answers (trace t) = Dau_error ''Stream does not match SDI timing/RGB contract'' # answers (trace demo_ctx) \<and>
    last_locked_video_format t = last_locked_video_format demo_ctx \<and>
    ultra_overlay_format t = ultra_overlay_format demo_ctx \<and>
    (overlay_active t \<longrightarrow> t = demo_ctx\<lparr>trace := trace t,
       current_video_format := no_format\<lparr>vf_width := 1280, locked := True\<rparr>,
       format_changes := format_changes demo_ctx + 1\<rparr>)) demo_ctx"
  by (rule sdi_contract_enforced [OF demo_ids, where base = "{#}"])
    (simp add: demo_ctx_empty, simp add: outside_sdi_contract_def sdi_env_def demo_ctx_def ultra_init_def no_format_def)

end
