(* ===== verification/Drm_Output.thy ===== *)
theory Drm_Output
  imports Out_Modes Drm_Ledger
begin

text \<open>
  The display output of the decoded stream in src/src/tests/sc6f0-dante-rx.cpp:
  \<open>start_drm_output\<close> finds a plane, a connector with a mode and a CRTC, and programs them on a
  device of its own; \<open>stop_drm_output\<close> undoes it.  The fields of \<open>zst_dante_rx_t\<close> for the display
  are the record \<open>disp\<close>, with the prefix \<open>rx_\<close>; the audio sink is the state of Rx_Audio.  The
  difference of two rates, a double in the code, is exact here.
\<close>

section \<open>State\<close>

text \<open>The state of the audio sink, behind a constructor.\<close>

datatype sound = Sound (sink_of: rx_audio)

record disp = "drm_call io" +
  rx_drm_fd :: int
  rx_drm_connector_id :: int
  rx_drm_crtc_id :: int
  rx_drm_primary_plane_id :: int
  rx_drm_video_plane_id :: int
  rx_drm_primary_fb_id :: int
  rx_drm_primary_bo_handle :: int
  rx_drm_mode_blob_id :: int
  rx_drm_output_mode :: drmModeModeInfo
  rx_drm_modeset_active :: bool
  dec_width :: nat
  dec_height :: nat
  dec_fps :: rat
  rx_sound :: sound

type_synonym 'a dp = "(disp, 'a) state"

definition no_mode :: drmModeModeInfo where
  "no_mode = \<lparr>clock = 0, hdisplay = 0, htotal = 0, vdisplay = 0, vtotal = 0, vrefresh = 0, flags = 0, mode_rest = []\<rparr>"

definition rx_card :: "out_env \<Rightarrow> disp \<Rightarrow> rx_env" where
  "rx_card e d = (card_env e)\<lparr>drm_modeset_active := rx_drm_modeset_active d\<rparr>"

definition on_sound :: "drm_call api \<Rightarrow> (alsa_call api \<Rightarrow> 'a rx) \<Rightarrow> 'a dp" where
  "on_sound = embed_at Alsa (\<lambda>d. sink_of (rx_sound d)) (\<lambda>a d. d\<lparr>rx_sound := Sound a\<rparr>)"

definition start_sound :: "drm_call api \<Rightarrow> out_env \<Rightarrow> int dp" where
  "start_sound api e = do {
     d \<leftarrow> State_Monad.get;
     on_sound api (\<lambda>a. start_hdmi_audio_sink a (rx_card e d)) }"

definition stop_sound :: "drm_call api \<Rightarrow> unit dp" where
  "stop_sound api = on_sound api stop_hdmi_audio_sink"

section \<open>The end of the output\<close>

definition add_if :: "drm_call api \<Rightarrow> int \<Rightarrow> int \<Rightarrow> int \<Rightarrow> int \<Rightarrow> unit dp" where
  "add_if api req obj pid v = (if pid \<noteq> 0 then do { call api (AtomicAdd req obj pid v); ret () } else ret ())"

definition disable_output :: "drm_call api \<Rightarrow> out_env \<Rightarrow> unit dp" where
  "disable_output api e = do {
     d \<leftarrow> State_Monad.get;
     q \<leftarrow> call api AtomicAlloc;
     if fst q = 0 then ret () else do {
     plane_crtc \<leftarrow> drm_property_id api (e_pname e) (rx_drm_primary_plane_id d) ''plane'' ''CRTC_ID'';
     plane_fb \<leftarrow> drm_property_id api (e_pname e) (rx_drm_primary_plane_id d) ''plane'' ''FB_ID'';
     crtc_active \<leftarrow> drm_property_id api (e_pname e) (rx_drm_crtc_id d) ''crtc'' ''ACTIVE'';
     connector_crtc \<leftarrow> drm_property_id api (e_pname e) (rx_drm_connector_id d) ''connector'' ''CRTC_ID'';
     add_if api (fst q) (rx_drm_primary_plane_id d) plane_crtc 0;
     add_if api (fst q) (rx_drm_primary_plane_id d) plane_fb 0;
     add_if api (fst q) (rx_drm_crtc_id d) crtc_active 0;
     add_if api (fst q) (rx_drm_connector_id d) connector_crtc 0;
     call api (AtomicCommit (fst q) False);
     ret () } }"

definition cleared :: "disp \<Rightarrow> disp" where
  "cleared d = d\<lparr>rx_drm_fd := - 1, rx_drm_connector_id := 0, rx_drm_crtc_id := 0, rx_drm_primary_plane_id := 0,
     rx_drm_video_plane_id := 0, rx_drm_primary_fb_id := 0, rx_drm_primary_bo_handle := 0, rx_drm_mode_blob_id := 0,
     rx_drm_output_mode := no_mode, rx_drm_modeset_active := False\<rparr>"

definition close_device :: "drm_call api \<Rightarrow> out_env \<Rightarrow> unit dp" where
  "close_device api e = do {
     d \<leftarrow> State_Monad.get;
     (if rx_drm_modeset_active d then disable_output api e else ret ());
     (if rx_drm_primary_fb_id d \<noteq> 0 then do { call api (RmFB (rx_drm_primary_fb_id d)); ret () } else ret ());
     (if rx_drm_primary_bo_handle d \<noteq> 0 then do { call api (DestroyDumb (rx_drm_primary_bo_handle d)); ret () } else ret ());
     (if rx_drm_mode_blob_id d \<noteq> 0 then do { call api (DestroyBlob (rx_drm_mode_blob_id d)); ret () } else ret ());
     call api (DrmClose (rx_drm_fd d));
     modify cleared }"

definition stop_drm_output :: "drm_call api \<Rightarrow> out_env \<Rightarrow> unit dp" where
  "stop_drm_output api e = do {
     (if is_sdi e then stop_sound api else ret ());
     d \<leftarrow> State_Monad.get;
     if rx_drm_fd d < 0 then ret () else close_device api e }"

text \<open>\<open>stop_drm_output(rx); return -1;\<close>\<close>

definition fail_output :: "drm_call api \<Rightarrow> out_env \<Rightarrow> int dp" where
  "fail_output api e = do { stop_drm_output api e; ret (- 1) }"

section \<open>The choice of plane, connector and mode\<close>

text \<open>The first plane with the source property and the format NV12, with its CRTC mask.\<close>

primrec find_video_plane :: "drm_call api \<Rightarrow> out_env \<Rightarrow> int list \<Rightarrow> (int \<times> int) option dp" where
  "find_video_plane api e [] = ret None"
| "find_video_plane api e (pl # pls) = do {
     r \<leftarrow> call api (GetPlane pl);
     if fst r \<noteq> 0 then find_video_plane api e pls
     else do {
       src \<leftarrow> drm_property_id api (e_pname e) (outp r 0) ''plane'' ''SC6F0_OVERLAY_SOURCE'';
       if src \<noteq> 0 \<and> e_nv12 e \<in> set (drop 2 (snd r)) then ret (Some (outp r 0, outp r 1))
       else find_video_plane api e pls } }"

text \<open>
  The loop over the modes of a connector: \<open>exact\<close> says whether a candidate has the size and rate of
  the input, \<open>uhd\<close> that the input is 3840x2160 at 60; the second component is \<open>exact_mode\<close>.
\<close>

fun pick_mode :: "bool \<Rightarrow> (drmModeModeInfo \<Rightarrow> bool) \<Rightarrow> bool \<Rightarrow> drmModeModeInfo list \<Rightarrow>
    (drmModeModeInfo \<times> bool) option \<Rightarrow> (drmModeModeInfo \<times> bool) option" where
  "pick_mode sdi exact uhd [] best = best"
| "pick_mode sdi exact uhd (candidate # modes) best =
     (if \<not> usable_mode sdi candidate then pick_mode sdi exact uhd modes best
      else pick_mode sdi exact uhd modes
        (case best of
           None \<Rightarrow> Some (candidate, exact candidate)
         | Some (mode, ex) \<Rightarrow>
             if (exact candidate \<and> \<not> ex) \<or>
                (exact candidate = ex \<and>
                 (area candidate > area mode \<or>
                  (area candidate = area mode \<and>
                   (mode_vrefresh candidate > mode_vrefresh mode + 5 / 1000 \<or>
                    (uhd \<and> clock candidate = 594000 \<and> clock mode \<noteq> 594000)))))
             then Some (candidate, exact candidate) else Some (mode, ex)))"

definition target_width :: "out_env \<Rightarrow> disp \<Rightarrow> nat" where
  "target_width e d = (if is_sdi e then g_sdi_output_width e else dec_width d)"

definition target_height :: "out_env \<Rightarrow> disp \<Rightarrow> nat" where
  "target_height e d = (if is_sdi e then g_sdi_output_height e else dec_height d)"

definition target_fps :: "out_env \<Rightarrow> disp \<Rightarrow> int" where
  "target_fps e d = (if is_sdi e then 60 else \<lfloor>dec_fps d + 1 / 2\<rfloor>)"

definition candidate_exact :: "out_env \<Rightarrow> disp \<Rightarrow> drmModeModeInfo \<Rightarrow> bool" where
  "candidate_exact e d m \<longleftrightarrow> hdisplay m = target_width e d \<and> vdisplay m = target_height e d \<and>
     \<bar>mode_vrefresh m - dec_fps d\<bar> < 1 / 2"

definition source_mode :: "out_env \<Rightarrow> disp \<Rightarrow> drmModeModeInfo list \<Rightarrow> (drmModeModeInfo \<times> bool) option" where
  "source_mode e d modes = pick_mode (is_sdi e) (candidate_exact e d)
     (target_width e d = 3840 \<and> target_height e d = 2160 \<and> target_fps e d = 60) modes None"

text \<open>The first CRTC, by index, that the encoder and the video plane both allow.\<close>

definition common_crtc :: "int \<Rightarrow> int \<Rightarrow> nat \<Rightarrow> nat option" where
  "common_crtc encoder_crtcs plane_crtcs n = find (\<lambda>c. bit encoder_crtcs c \<and> bit plane_crtcs c) [0 ..< n]"

record path =
  p_connector :: int
  p_crtc :: int
  p_index :: nat
  p_mode :: drmModeModeInfo

primrec find_path :: "drm_call api \<Rightarrow> out_env \<Rightarrow> disp \<Rightarrow> int \<Rightarrow> int list \<Rightarrow> int list \<Rightarrow> path option dp" where
  "find_path api e d plane_crtcs crtcs [] = ret None"
| "find_path api e d plane_crtcs crtcs (cn # cns) = do {
     r \<leftarrow> call api (GetConnector cn);
     ok \<leftarrow> is_output_connector api (e_pname e) (backend_of e)
            (if fst r = 0 then None else Some (e_conn e (tl (snd r))));
     if \<not> ok \<or> outp r 0 \<noteq> DRM_MODE_CONNECTED then find_path api e d plane_crtcs crtcs cns
     else case source_mode e d (e_dec e (tl (snd r))) of
       None \<Rightarrow> find_path api e d plane_crtcs crtcs cns
     | Some (mode, ex) \<Rightarrow> do {
         let (enc, encs) = e_encoders e (tl (snd r));
         er \<leftarrow> call api (GetEncoder (if enc = 0 \<and> encs \<noteq> [] then encs ! 0 else enc));
         case common_crtc (if fst er = 0 then 0 else outp er 0) plane_crtcs (length crtcs) of
           None \<Rightarrow> find_path api e d plane_crtcs crtcs cns
         | Some c \<Rightarrow> ret (Some \<lparr>p_connector = connector_id (e_conn e (tl (snd r))), p_crtc = crtcs ! c,
             p_index = c, p_mode = mode\<rparr>) } }"

definition DRM_PLANE_TYPE_PRIMARY :: int where "DRM_PLANE_TYPE_PRIMARY = 1"

primrec find_primary_plane :: "drm_call api \<Rightarrow> out_env \<Rightarrow> nat \<Rightarrow> int list \<Rightarrow> int dp" where
  "find_primary_plane api e crtc_index [] = ret 0"
| "find_primary_plane api e crtc_index (pl # pls) = do {
     p \<leftarrow> plane_of_type api (e_pname e) crtc_index DRM_PLANE_TYPE_PRIMARY pl;
     case p of
       Some (i, fmts) \<Rightarrow> if i \<noteq> 0 then ret i else find_primary_plane api e crtc_index pls
     | None \<Rightarrow> find_primary_plane api e crtc_index pls }"

section \<open>The start of the output\<close>

text \<open>The request for the found path; \<open>False\<close> when a property is missing or the commit fails.\<close>

definition commit_path :: "drm_call api \<Rightarrow> out_env \<Rightarrow> drmModeModeInfo \<Rightarrow> bool dp" where
  "commit_path api e mode = do {
     d \<leftarrow> State_Monad.get;
     q \<leftarrow> call api AtomicAlloc;
     connector_crtc \<leftarrow> drm_property_id api (e_pname e) (rx_drm_connector_id d) ''connector'' ''CRTC_ID'';
     crtc_mode \<leftarrow> drm_property_id api (e_pname e) (rx_drm_crtc_id d) ''crtc'' ''MODE_ID'';
     crtc_active \<leftarrow> drm_property_id api (e_pname e) (rx_drm_crtc_id d) ''crtc'' ''ACTIVE'';
     p \<leftarrow> property_ids api (e_pname e) (rx_drm_primary_plane_id d) ''plane'' (take 10 plane_properties);
     if fst q = 0 \<or> connector_crtc = 0 \<or> crtc_mode = 0 \<or> crtc_active = 0 \<or> 0 \<in> set p then ret False
     else do {
       atomic_adds api (fst q) (rx_drm_connector_id d) [(connector_crtc, rx_drm_crtc_id d)];
       atomic_adds api (fst q) (rx_drm_crtc_id d) [(crtc_mode, rx_drm_mode_blob_id d), (crtc_active, 1)];
       atomic_adds api (fst q) (rx_drm_primary_plane_id d)
         (zip p [rx_drm_crtc_id d, rx_drm_primary_fb_id d, 0, 0, int (hdisplay mode), int (vdisplay mode), 0, 0,
            int (hdisplay mode * 2 ^ 16 mod 2 ^ 32), int (vdisplay mode * 2 ^ 16 mod 2 ^ 32)]);
       overlay_source \<leftarrow> drm_property_id api (e_pname e) (rx_drm_video_plane_id d) ''plane'' ''SC6F0_OVERLAY_SOURCE'';
       call api (AtomicAdd (fst q) (rx_drm_video_plane_id d) overlay_source 2);
       ok \<leftarrow> add_output_properties api (e_pname e) (e_rgb888 e) (e_uyvy10 e) (backend_of e)
              (rx_drm_connector_id d) (fst q) mode;
       if \<not> ok then ret False
       else do { r \<leftarrow> call api (AtomicCommit (fst q) False); ret (fst r = 0) } } }"

definition activate_output :: "drm_call api \<Rightarrow> out_env \<Rightarrow> drmModeModeInfo \<Rightarrow> int dp" where
  "activate_output api e mode = do {
     ok \<leftarrow> commit_path api e mode;
     if \<not> ok then fail_output api e else do {
     modify (\<lambda>d. d\<lparr>rx_drm_modeset_active := True, rx_drm_output_mode := mode\<rparr>);
     (if is_sdi e then do { start_sound api e; ret () } else ret ());
     ret 0 } }"

definition attach_fb :: "drm_call api \<Rightarrow> out_env \<Rightarrow> drmModeModeInfo \<Rightarrow> int \<Rightarrow> int \<Rightarrow> int dp" where
  "attach_fb api e mode handle pitch = do {
     f \<leftarrow> call api (AddFB2 (hdisplay mode) (vdisplay mode) (e_bgr888 e) handle pitch);
     if fst f \<noteq> 0 then fail_output api e else do {
     modify (\<lambda>d. d\<lparr>rx_drm_primary_fb_id := outp f 0\<rparr>);
     activate_output api e mode } }"

definition program_output :: "drm_call api \<Rightarrow> out_env \<Rightarrow> drmModeModeInfo \<Rightarrow> int dp" where
  "program_output api e mode = do {
     c \<leftarrow> call api (CreateDumb (hdisplay mode) (vdisplay mode) 24);
     if fst c \<noteq> 0 then fail_output api e else do {
     b \<leftarrow> call api (CreateBlob (e_enc e mode));
     if fst b \<noteq> 0 then fail_output api e else do {
     modify (\<lambda>d. d\<lparr>rx_drm_mode_blob_id := outp b 0, rx_drm_primary_bo_handle := outp c 0\<rparr>);
     attach_fb api e mode (outp c 0) (outp c 1) } } }"

definition client_caps :: "drm_call api \<Rightarrow> int \<Rightarrow> bool dp" where
  "client_caps api fd = do {
     a \<leftarrow> call api (SetClientCap fd ''ATOMIC'');
     if fst a \<noteq> 0 then ret False
     else do { b \<leftarrow> call api (SetClientCap fd ''UNIVERSAL_PLANES''); ret (fst b = 0) } }"

definition res_connectors :: "reply \<Rightarrow> int list" where
  "res_connectors r = take (nat (outp r 0)) (tl (snd r))"

definition res_crtcs :: "reply \<Rightarrow> int list" where
  "res_crtcs r = drop (nat (outp r 0)) (tl (snd r))"

definition setup_path :: "drm_call api \<Rightarrow> out_env \<Rightarrow> int dp" where
  "setup_path api e = do {
     resources \<leftarrow> call api GetResources;
     planes \<leftarrow> call api GetPlanes;
     if fst resources = 0 \<or> fst planes \<noteq> 0 then fail_output api e else do {
     vp \<leftarrow> find_video_plane api e (snd planes);
     case vp of None \<Rightarrow> fail_output api e | Some (video_plane_id, plane_crtcs) \<Rightarrow> do {
     modify (\<lambda>d. d\<lparr>rx_drm_video_plane_id := video_plane_id\<rparr>);
     d \<leftarrow> State_Monad.get;
     pt \<leftarrow> find_path api e d plane_crtcs (res_crtcs resources) (res_connectors resources);
     case pt of None \<Rightarrow> fail_output api e | Some pth \<Rightarrow> do {
     modify (\<lambda>d. d\<lparr>rx_drm_connector_id := p_connector pth, rx_drm_crtc_id := p_crtc pth\<rparr>);
     pp \<leftarrow> find_primary_plane api e (p_index pth) (snd planes);
     modify (\<lambda>d. d\<lparr>rx_drm_primary_plane_id := pp\<rparr>);
     if pp = 0 then fail_output api e else program_output api e (p_mode pth) } } } }"

definition start_drm_output :: "drm_call api \<Rightarrow> out_env \<Rightarrow> int dp" where
  "start_drm_output api e = do {
     d \<leftarrow> State_Monad.get;
     if rx_drm_modeset_active d then ret 0 else do {
     fd \<leftarrow> call api DrmOpen;
     modify (\<lambda>d. d\<lparr>rx_drm_fd := fst fd\<rparr>);
     caps \<leftarrow> (if fst fd < 0 then ret False else client_caps api (fst fd));
     if \<not> caps then fail_output api e else setup_path api e } }"

section \<open>Kernel objects\<close>

definition disp_res :: "disp \<Rightarrow> drm_res multiset" where
  "disp_res d = fb_res (rx_drm_primary_fb_id d, rx_drm_primary_bo_handle d) + blob_res (rx_drm_mode_blob_id d) +
     dev_res (rx_drm_fd d)"

text \<open>The output is off: no device, no object and no identifier is left in the record.\<close>

definition output_off :: "disp \<Rightarrow> bool" where
  "output_off d \<longleftrightarrow> rx_drm_fd d < 0 \<and> rx_drm_connector_id d = 0 \<and> rx_drm_crtc_id d = 0 \<and>
     rx_drm_primary_plane_id d = 0 \<and> rx_drm_video_plane_id d = 0 \<and> rx_drm_primary_fb_id d = 0 \<and>
     rx_drm_primary_bo_handle d = 0 \<and> rx_drm_mode_blob_id d = 0 \<and> \<not> rx_drm_modeset_active d"

text \<open>
  The state between two operations: the live objects are those the record names, besides \<open>M\<close>; the
  device is open exactly while a mode is set.
\<close>

definition disp_inv :: "drm_res multiset \<Rightarrow> disp \<Rightarrow> bool" where
  "disp_inv M d \<longleftrightarrow> drm_ledger (trace d) = Some (M + disp_res d) \<and> sink_inv (sink_of (rx_sound d)) \<and>
     (if rx_drm_modeset_active d then 0 \<le> rx_drm_fd d else output_off d)"

text \<open>Inside the operations: the same, without the last condition while the device is open.\<close>

definition disp_ok :: "drm_res multiset \<Rightarrow> disp \<Rightarrow> bool" where
  "disp_ok M d \<longleftrightarrow> drm_ledger (trace d) = Some (M + disp_res d) \<and> sink_inv (sink_of (rx_sound d)) \<and>
     (rx_drm_fd d < 0 \<longrightarrow> output_off d)"

lemma disp_inv_ok: "disp_inv M d \<Longrightarrow> disp_ok M d"
  by (auto simp: disp_inv_def disp_ok_def split: if_splits)

lemma disp_res_simps [simp]:
  "disp_res (d\<lparr>trace := tr\<rparr>) = disp_res d" "disp_res (d\<lparr>rx_sound := x\<rparr>) = disp_res d"
  "disp_res (d\<lparr>rx_drm_connector_id := i\<rparr>) = disp_res d" "disp_res (d\<lparr>rx_drm_crtc_id := i\<rparr>) = disp_res d"
  "disp_res (d\<lparr>rx_drm_video_plane_id := i\<rparr>) = disp_res d" "disp_res (d\<lparr>rx_drm_primary_plane_id := i\<rparr>) = disp_res d"
  "disp_res (d\<lparr>rx_drm_output_mode := m\<rparr>) = disp_res d" "disp_res (d\<lparr>rx_drm_modeset_active := b\<rparr>) = disp_res d"
  by (simp_all add: disp_res_def)

lemma quiet_add_if: "quiet (add_if api req obj pid v)"
  unfolding add_if_def by (auto intro!: quiet_intros)

lemma quiet_disable: "quiet (disable_output api e)"
  unfolding disable_output_def by (auto intro!: quiet_intros quiet_add_if)

lemma quiet_video_plane: "quiet (find_video_plane api e pls)"
  by (induction pls) (auto intro!: quiet_intros)

lemma quiet_connector: "quiet (is_output_connector api pname backend c)"
  unfolding is_output_connector_def by (auto intro!: quiet_intros split: option.split)

lemma quiet_path: "quiet (find_path api e d m crtcs cns)"
  by (induction cns) (auto simp: Let_def intro!: quiet_intros quiet_connector split: option.split prod.split)

lemma quiet_plane_of_type: "quiet (plane_of_type api pname i t pl)"
  unfolding plane_of_type_def by (auto intro!: quiet_intros)

lemma quiet_primary_plane: "quiet (find_primary_plane api e i pls)"
  by (induction pls) (auto intro!: quiet_intros quiet_plane_of_type split: option.split)

lemma quiet_commit_path: "quiet (commit_path api e mode)"
  unfolding commit_path_def add_output_properties_def
  by (auto intro!: quiet_intros quiet_property_ids quiet_atomic_adds quiet_add_properties)

lemma quiet_caps: "quiet (client_caps api fd)"
  unfolding client_caps_def by (auto intro!: quiet_intros)

text \<open>The audio sink neither touches a kernel object of the display nor leaves its own invariant.\<close>

lemma wp_on_sound:
  assumes "\<And>a. wp (prog a) (\<lambda>r t. P r t) (sink_of (rx_sound s))"
    and "\<And>r a tr. P r a \<Longrightarrow> drm_ledger tr = drm_ledger (trace s) \<Longrightarrow> Q r (s\<lparr>trace := tr, rx_sound := Sound a\<rparr>)"
  shows "wp (on_sound api prog) Q s"
  unfolding on_sound_def by (rule wp_embed_at [where P = P]) (use assms in \<open>simp_all add: ledger_alsa\<close>)

lemma wp_start_sound:
  assumes "sink_inv (sink_of (rx_sound s))"
    and "\<And>r a tr. sink_inv a \<Longrightarrow> drm_ledger tr = drm_ledger (trace s) \<Longrightarrow> Q r (s\<lparr>trace := tr, rx_sound := Sound a\<rparr>)"
  shows "wp (start_sound api e) Q s"
  unfolding start_sound_def wp_bind wp_get
  by (rule wp_on_sound [where P = "\<lambda>_. sink_inv"]) (use assms start_sink_inv in auto)

lemma stop_sink_closed: "wp (stop_hdmi_audio_sink api) (\<lambda>_ t. \<not> audio_pcm t) s"
  by (auto simp: stop_hdmi_audio_sink_def wp_rules wp_call)

lemma wp_stop_sound:
  assumes "sink_inv (sink_of (rx_sound s))"
    and "\<And>a tr. sink_inv a \<Longrightarrow> \<not> audio_pcm a \<Longrightarrow> drm_ledger tr = drm_ledger (trace s) \<Longrightarrow>
      Q () (s\<lparr>trace := tr, rx_sound := Sound a\<rparr>)"
  shows "wp (stop_sound api) Q s"
  unfolding stop_sound_def
  by (rule wp_on_sound [where P = "\<lambda>_ a. sink_inv a \<and> \<not> audio_pcm a"])
    (use assms in \<open>auto intro!: wp_conj stop_sink_inv stop_sink_closed\<close>)

text \<open>A release of an object that may be missing.\<close>

lemma wp_release_if:
  assumes "drm_ledger (trace s) = Some (M + (if i = 0 then {#} else {#x#}))" and "drm_rel q = Some x"
    and "\<And>tr. drm_ledger tr = Some M \<Longrightarrow> Q () (s\<lparr>trace := tr\<rparr>)"
  shows "wp (if i \<noteq> 0 then do { call api q; ret () } else ret ()) Q s"
  using assms assms(3) [of "trace s"] by (auto simp: wp_rules wp_call)

definition same_source :: "disp \<Rightarrow> disp \<Rightarrow> bool" where
  "same_source d t \<longleftrightarrow> dec_width t = dec_width d \<and> dec_height t = dec_height d \<and> dec_fps t = dec_fps d"

text \<open>What a stop leaves: the output is off, and on SDI the audio sink is closed.\<close>

definition sound_after_stop :: "out_env \<Rightarrow> disp \<Rightarrow> rx_audio \<Rightarrow> bool" where
  "sound_after_stop e d a \<longleftrightarrow> (if is_sdi e then \<not> audio_pcm a else Sound a = rx_sound d)"

definition stopped :: "drm_res multiset \<Rightarrow> out_env \<Rightarrow> disp \<Rightarrow> disp \<Rightarrow> bool" where
  "stopped M e d t \<longleftrightarrow> disp_inv M t \<and> output_off t \<and> same_source d t \<and>
     sound_after_stop e d (sink_of (rx_sound t))"

lemma cleared_off: "output_off (cleared d)" "disp_res (cleared d) = {#}"
  by (simp_all add: cleared_def output_off_def disp_res_def blob_res_def dev_res_def)

lemma cleared_simps [simp]: "trace (cleared d) = trace d" "rx_sound (cleared d) = rx_sound d" "same_source d (cleared d)"
  "same_source x (cleared (d\<lparr>trace := tr\<rparr>)) = same_source x d"
  by (simp_all add: cleared_def same_source_def)

lemma wp_close_device:
  assumes "0 \<le> rx_drm_fd d" and "drm_ledger (trace d) = Some (M + disp_res d)"
    and "\<And>tr. drm_ledger tr = Some M \<Longrightarrow> Q () (cleared (d\<lparr>trace := tr\<rparr>))"
  shows "wp (close_device api e) Q d"
  unfolding close_device_def wp_bind [of State_Monad.get] wp_get
proof (rule quiet_step)
  show "quiet (if rx_drm_modeset_active d then disable_output api e else ret ())"
    by (auto intro!: quiet_disable quiet_ret)
  let ?F = "if rx_drm_primary_fb_id d = 0 then {#} else {#D_fb (rx_drm_primary_fb_id d)#}"
  let ?B = "if rx_drm_primary_bo_handle d = 0 then {#} else {#D_bo (rx_drm_primary_bo_handle d)#}"
  let ?L = "if rx_drm_mode_blob_id d = 0 then {#} else {#D_blob (rx_drm_mode_blob_id d)#}"
  let ?D = "{#D_dev (rx_drm_fd d)#}"
  fix tr :: "drm_call event list"
  assume "drm_ledger tr = drm_ledger (trace d)"
  then have l: "drm_ledger tr = Some (M + ?D + ?L + ?B + ?F)"
    using assms(1,2) by (simp add: disp_res_def fb_res_def blob_res_def dev_res_def ac_simps)
  show "wp (do {
     (if rx_drm_primary_fb_id d \<noteq> 0 then do { call api (RmFB (rx_drm_primary_fb_id d)); ret () } else ret ());
     (if rx_drm_primary_bo_handle d \<noteq> 0 then do { call api (DestroyDumb (rx_drm_primary_bo_handle d)); ret () } else ret ());
     (if rx_drm_mode_blob_id d \<noteq> 0 then do { call api (DestroyBlob (rx_drm_mode_blob_id d)); ret () } else ret ());
     call api (DrmClose (rx_drm_fd d));
     modify cleared }) Q (d\<lparr>trace := tr\<rparr>)"
    unfolding wp_bind
    by (rule wp_release_if [where M = "M + ?D + ?L + ?B" and x = "D_fb (rx_drm_primary_fb_id d)"],
        simp add: l, simp,
        rule wp_release_if [where M = "M + ?D + ?L" and x = "D_bo (rx_drm_primary_bo_handle d)"],
        simp, simp,
        rule wp_release_if [where M = "M + ?D" and x = "D_blob (rx_drm_mode_blob_id d)"],
        simp, simp)
      (simp add: wp_call wp_modify assms(3))
qed

lemma sound_same: "Sound a = rx_sound d \<Longrightarrow> tr = trace d \<Longrightarrow> d\<lparr>trace := tr, rx_sound := Sound a\<rparr> = d"
  by (cases d) simp

lemma wp_stop_output:
  assumes "disp_ok M d" and "\<And>t. stopped M e d t \<Longrightarrow> Q () t"
  shows "wp (stop_drm_output api e) Q d"
proof -
  have rest: "wp (do {
     d \<leftarrow> State_Monad.get;
     if rx_drm_fd d < 0 then ret () else close_device api e }) Q (d\<lparr>trace := tr, rx_sound := Sound a\<rparr>)"
    if a: "sink_inv a" "sound_after_stop e d a" and tr: "drm_ledger tr = drm_ledger (trace d)" for a tr
  proof (cases "rx_drm_fd d < 0")
    case True
    then have "stopped M e d (d\<lparr>trace := tr, rx_sound := Sound a\<rparr>)"
      using assms(1) a tr by (auto simp: stopped_def disp_ok_def disp_inv_def output_off_def same_source_def)
    then show ?thesis using True assms(2) by (simp add: wp_rules)
  next
    case False
    have "stopped M e d (cleared (d\<lparr>rx_sound := Sound a, trace := tr'\<rparr>))" if "drm_ledger tr' = Some M" for tr'
      using that a cleared_off
      by (auto simp: stopped_def disp_inv_def same_source_def cleared_def output_off_def disp_res_def blob_res_def dev_res_def)
    then show ?thesis
      unfolding wp_bind [of State_Monad.get] wp_get using False assms tr
      by (auto simp: disp_ok_def intro!: wp_close_device [where M = M])
  qed
  show ?thesis
  proof (cases "is_sdi e")
    case True
    then show ?thesis
      unfolding stop_drm_output_def wp_bind [of "if is_sdi e then _ else _"] using assms(1)
      by (simp only: if_True, intro wp_stop_sound) (auto simp: disp_ok_def sound_after_stop_def intro!: rest)
  next
    case False
    note here = rest [of "sink_of (rx_sound d)" "trace d", unfolded sound_same [OF sound.collapse refl]]
    show ?thesis
      unfolding stop_drm_output_def if_not_P [OF False] wp_bind [of "ret _"] wp_return
      by (rule here) (use assms(1) False in \<open>simp_all add: disp_ok_def sound_after_stop_def\<close>)
  qed
qed

text \<open>
  What a start leaves: a set mode, or an output that is off again.  \<open>orphan\<close> is the buffer object
  that is lost when the driver grants it and then refuses the mode blob.
\<close>

definition refuses_blob :: "drm_call api \<Rightarrow> bool" where
  "refuses_blob api \<longleftrightarrow> (\<exists>tr xs. fst (api tr (CreateBlob xs)) \<noteq> 0)"

definition orphan :: "drm_call api \<Rightarrow> drm_res multiset \<Rightarrow> bool" where
  "orphan api L \<longleftrightarrow> L = {#} \<or> (refuses_blob api \<and> (\<exists>h. L = {#D_bo h#}))"

definition started :: "drm_call api \<Rightarrow> drm_res multiset \<Rightarrow> out_env \<Rightarrow> disp \<Rightarrow> int \<Rightarrow> disp \<Rightarrow> bool" where
  "started api M e d r t \<longleftrightarrow> same_source d t \<and>
     ((r = 0 \<and> disp_inv M t \<and> rx_drm_modeset_active t) \<or>
      (r = - 1 \<and> (\<exists>L. orphan api L \<and> disp_inv (M + L) t) \<and> output_off t))"

lemma wp_fail_output:
  assumes "disp_ok (M + L) s" and "orphan api L" and "same_source d s"
  shows "wp (fail_output api' e) (started api M e d) s"
  unfolding fail_output_def wp_bind
  by (rule wp_stop_output [OF assms(1)])
    (use assms in \<open>auto simp: wp_return started_def stopped_def same_source_def\<close>)

lemma wp_fail_output0:
  "disp_ok M s \<Longrightarrow> same_source d s \<Longrightarrow> wp (fail_output api' e) (started api M e d) s"
  using wp_fail_output [of M "{#}" s api d] by (simp add: orphan_def)

text \<open>The calls of the kernel interface return 0 or an error, and never the identifier 0.\<close>

definition drm_results :: "drm_call api \<Rightarrow> bool" where
  "drm_results api \<longleftrightarrow> kernel_ids api \<and> (\<forall>tr w h b. fst (api tr (CreateDumb w h b)) \<le> 0) \<and>
     (\<forall>tr w h f hn p. fst (api tr (AddFB2 w h f hn p)) \<le> 0)"

lemma wp_activate_output:
  assumes "disp_ok M s" and "0 \<le> rx_drm_fd s" and "same_source d s"
  shows "wp (activate_output api e mode) (started api' M e d) s"
  unfolding activate_output_def
proof (rule quiet_step [OF quiet_commit_path])
  fix ok tr
  assume tr: "drm_ledger tr = drm_ledger (trace s)"
  let ?s = "s\<lparr>trace := tr\<rparr>"
  have "disp_ok M ?s" "same_source d ?s" using assms tr by (simp_all add: disp_ok_def output_off_def same_source_def)
  then have "wp (fail_output api e) (started api' M e d) ?s" by (rule wp_fail_output0)
  moreover have "wp (do {
     modify (\<lambda>d. d\<lparr>rx_drm_modeset_active := True, rx_drm_output_mode := mode\<rparr>);
     (if is_sdi e then do { start_sound api e; ret () } else ret ());
     ret 0 }) (started api' M e d) ?s"
    unfolding wp_bind wp_modify wp_if wp_return
    using assms tr
    by (auto intro!: wp_start_sound simp: disp_ok_def started_def disp_inv_def same_source_def)
  ultimately show "wp (if \<not> ok then fail_output api e else do {
     modify (\<lambda>d. d\<lparr>rx_drm_modeset_active := True, rx_drm_output_mode := mode\<rparr>);
     (if is_sdi e then do { start_sound api e; ret () } else ret ());
     ret 0 }) (started api' M e d) ?s" by simp
qed

text \<open>An acquiring call: the reply is an error, or it holds a new identifier.\<close>

lemma wp_call_new:
  assumes "drm_ledger (trace s) = Some M" and "drm_rel q = None"
    and new: "\<And>r. r = api (trace s) q \<Longrightarrow> fst r = 0 \<Longrightarrow> drm_acq q r = Some (mk (outp r 0)) \<and> outp r 0 \<noteq> 0"
    and err: "\<And>r. r = api (trace s) q \<Longrightarrow> fst r \<noteq> 0 \<Longrightarrow> drm_acq q r = None"
    and "\<And>r tr. r = api (trace s) q \<Longrightarrow> fst r \<noteq> 0 \<Longrightarrow> drm_ledger tr = Some M \<Longrightarrow> Q r (s\<lparr>trace := tr\<rparr>)"
    and "\<And>r tr. fst r = 0 \<Longrightarrow> outp r 0 \<noteq> 0 \<Longrightarrow> drm_ledger tr = Some (add_mset (mk (outp r 0)) M) \<Longrightarrow> Q r (s\<lparr>trace := tr\<rparr>)"
  shows "wp (call api q) Q s"
proof (cases "fst (api (trace s) q) = 0")
  case True
  show ?thesis unfolding wp_call by (rule assms(6)) (use True assms(1,2) new [OF refl True] in simp_all)
next
  case False
  show ?thesis unfolding wp_call by (rule assms(5) [OF refl False]) (use assms(1,2) err [OF refl False] in simp)
qed

lemma new_dumb: "drm_results api \<Longrightarrow> r = api tr (CreateDumb w h b) \<Longrightarrow>
    (fst r = 0 \<longrightarrow> outp r 0 \<noteq> 0) \<and> (fst r \<noteq> 0 \<longrightarrow> \<not> 0 \<le> fst r)"
  by (auto simp: drm_results_def kernel_ids_def nonzero_ids_def intro: order_antisym)

lemma new_fb: "drm_results api \<Longrightarrow> r = api tr (AddFB2 w h f hn p) \<Longrightarrow>
    (fst r = 0 \<longrightarrow> outp r 0 \<noteq> 0) \<and> (fst r \<noteq> 0 \<longrightarrow> \<not> 0 \<le> fst r)"
  by (auto simp: drm_results_def kernel_ids_def nonzero_ids_def intro: order_antisym)

lemma new_blob: "drm_results api \<Longrightarrow> r = api tr (CreateBlob xs) \<Longrightarrow>
    (fst r = 0 \<longrightarrow> outp r 0 \<noteq> 0) \<and> (fst r \<noteq> 0 \<longrightarrow> refuses_blob api)"
  by (auto simp: drm_results_def kernel_ids_def refuses_blob_def)

lemma wp_attach_fb:
  assumes "drm_results api" and "disp_ok M s" and "0 \<le> rx_drm_fd s" and "same_source d s" and "rx_drm_primary_fb_id s = 0"
  shows "wp (attach_fb api e mode bo p) (started api M e d) s"
  unfolding attach_fb_def wp_bind [of "call api (AddFB2 _ _ _ _ _)"]
proof (rule wp_call_new [where mk = D_fb and M = "M + disp_res s"], goal_cases)
  case (5 r tr)
  then show ?case
    using assms by (auto intro!: wp_fail_output0 simp: disp_ok_def same_source_def)
next
  case (6 r tr)
  then show ?case
    using assms
    by (simp add: wp_bind [of "modify _"] wp_modify)
      (rule wp_activate_output; auto simp: disp_ok_def same_source_def disp_res_def fb_res_def)
qed (use assms(2) new_fb [OF assms(1)] in \<open>auto simp: disp_ok_def\<close>)

lemma wp_program_output:
  assumes "drm_results api" and "disp_ok M s" and "0 \<le> rx_drm_fd s" and "same_source d s"
    and "rx_drm_primary_fb_id s = 0" "rx_drm_primary_bo_handle s = 0" "rx_drm_mode_blob_id s = 0"
  shows "wp (program_output api e mode) (started api M e d) s"
  unfolding program_output_def wp_bind [of "call api (CreateDumb _ _ _)"]
proof (rule wp_call_new [where mk = D_bo and M = "M + disp_res s"], goal_cases)
  case (5 r tr)
  then show ?case
    using assms by (auto intro!: wp_fail_output0 simp: disp_ok_def same_source_def)
next
  case (6 c tr)
  note c = this
  show ?case
    unfolding wp_if wp_bind [of "call api (CreateBlob _)"] using c(1)
  proof (simp only: simp_thms if_False,
      intro wp_call_new [where mk = D_blob and M = "M + {#D_bo (outp c 0)#} + disp_res s"], goal_cases)
    case 1
    then show ?case using c by (simp add: ac_simps)
  next
    case (5 r tr')
    then show ?case
      using assms new_blob [OF assms(1) 5(3)]
      by (auto intro!: wp_fail_output [where L = "{#D_bo (outp c 0)#}"] simp: disp_ok_def same_source_def orphan_def)
  next
    case (6 r tr')
    then show ?case
      using assms c
      by (simp add: wp_bind [of "modify _"] wp_modify)
        (rule wp_attach_fb; auto simp: disp_ok_def same_source_def disp_res_def fb_res_def blob_res_def)
  qed (use new_blob [OF assms(1)] in auto)
qed (use assms(2) new_dumb [OF assms(1)] in \<open>auto simp: disp_ok_def\<close>)

lemma wp_setup_path:
  assumes "drm_results api" and "disp_ok M s" and "0 \<le> rx_drm_fd s" and "same_source d s"
    and "rx_drm_primary_fb_id s = 0" "rx_drm_primary_bo_handle s = 0" "rx_drm_mode_blob_id s = 0"
  shows "wp (setup_path api e) (started api M e d) s"
proof -
  have keep: "disp_ok M (t\<lparr>trace := tr\<rparr>)" "same_source d (t\<lparr>trace := tr\<rparr>)"
    if "disp_ok M t" "0 \<le> rx_drm_fd t" "same_source d t" "drm_ledger tr = drm_ledger (trace t)" for t tr
    using that by (simp_all add: disp_ok_def same_source_def)
  have primary: "wp (do {
      pp \<leftarrow> find_primary_plane api e i pls;
      modify (\<lambda>d. d\<lparr>rx_drm_primary_plane_id := pp\<rparr>);
      if pp = 0 then fail_output api e else program_output api e mode }) (started api M e d) t"
    if "disp_ok M t" "0 \<le> rx_drm_fd t" "same_source d t" "rx_drm_primary_fb_id t = 0"
      "rx_drm_primary_bo_handle t = 0" "rx_drm_mode_blob_id t = 0" for t i pls mode
    using that assms(1)
    by (intro quiet_step [OF quiet_primary_plane], simp add: wp_bind [of "modify _"] wp_modify)
      (auto intro!: wp_fail_output0 wp_program_output simp: disp_ok_def same_source_def)
  have connected: "wp (do {
      modify (\<lambda>d. d\<lparr>rx_drm_video_plane_id := v\<rparr>);
      d \<leftarrow> State_Monad.get;
      pt \<leftarrow> find_path api e d m crtcs cns;
      case pt of None \<Rightarrow> fail_output api e | Some pth \<Rightarrow> do {
      modify (\<lambda>d. d\<lparr>rx_drm_connector_id := p_connector pth, rx_drm_crtc_id := p_crtc pth\<rparr>);
      pp \<leftarrow> find_primary_plane api e (p_index pth) pls;
      modify (\<lambda>d. d\<lparr>rx_drm_primary_plane_id := pp\<rparr>);
      if pp = 0 then fail_output api e else program_output api e (p_mode pth) } }) (started api M e d) t"
    if "disp_ok M t" "0 \<le> rx_drm_fd t" "same_source d t" "rx_drm_primary_fb_id t = 0"
      "rx_drm_primary_bo_handle t = 0" "rx_drm_mode_blob_id t = 0" for t v m crtcs cns pls
    using that unfolding wp_bind [of "modify _"] wp_modify wp_bind [of State_Monad.get] wp_get
    by (intro quiet_step [OF quiet_path])
      (auto intro!: wp_fail_output0 primary simp: wp_bind [of "modify _"] wp_modify disp_ok_def same_source_def split: option.split)
  show ?thesis
    unfolding setup_path_def
    by (rule quiet_step [OF quiet_call], simp, simp, rule quiet_step [OF quiet_call], simp, simp)
      (use assms in \<open>auto simp: wp_if intro!: keep wp_fail_output0 quiet_step [OF quiet_video_plane] connected split: option.split\<close>)
qed

lemma wp_start_output:
  assumes "drm_results api" and "disp_inv M d"
  shows "wp (start_drm_output api e) (started api M e d) d"
proof (cases "rx_drm_modeset_active d")
  case True
  then show ?thesis
    using assms(2) by (simp add: start_drm_output_def wp_rules started_def same_source_def)
next
  case False
  define fd where "fd = fst (api (trace d) DrmOpen)"
  let ?s = "d\<lparr>trace := (DrmOpen, api (trace d) DrmOpen) # trace d, rx_drm_fd := fd\<rparr>"
  have off: "output_off d" using assms(2) False by (simp add: disp_inv_def)
  have ok: "disp_ok M ?s" "same_source d ?s"
    using assms(2) off by (auto simp: disp_inv_def disp_ok_def same_source_def disp_res_def dev_res_def output_off_def fd_def)
  have zero: "rx_drm_primary_fb_id ?s = 0" "rx_drm_primary_bo_handle ?s = 0" "rx_drm_mode_blob_id ?s = 0"
    using off by (simp_all add: output_off_def)
  have "wp (do {
      caps \<leftarrow> (if fd < 0 then ret False else client_caps api fd);
      if \<not> caps then fail_output api e else setup_path api e }) (started api M e d) ?s"
  proof (cases "fd < 0")
    case True
    then show ?thesis using ok by (simp add: wp_bind [of "ret _"] wp_return wp_fail_output0)
  next
    case False
    then show ?thesis
      using ok zero assms(1)
      by (simp only: if_False, intro quiet_step [OF quiet_caps])
        (auto intro!: wp_fail_output0 wp_setup_path simp: disp_ok_def same_source_def disp_res_def)
  qed
  note go = this
  show ?thesis
    unfolding start_drm_output_def wp_bind [of State_Monad.get] wp_get if_not_P [OF False] wp_bind [of "call api DrmOpen"]
      wp_call wp_bind [of "modify _"] wp_modify
    by (rule go [unfolded fd_def])
qed

text \<open>Starts and stops in any order, while the source changes.\<close>

datatype disp_op = Start_output | Stop_output | Source nat nat rat

definition disp_step :: "drm_call api \<Rightarrow> out_env \<Rightarrow> disp_op \<Rightarrow> unit dp" where
  "disp_step api e q =
     (case q of
        Start_output \<Rightarrow> do { start_drm_output api e; ret () }
      | Stop_output \<Rightarrow> stop_drm_output api e
      | Source w h fps \<Rightarrow> modify (\<lambda>d. d\<lparr>dec_width := w, dec_height := h, dec_fps := fps\<rparr>))"

primrec disp_session :: "drm_call api \<Rightarrow> out_env \<Rightarrow> disp_op list \<Rightarrow> unit dp" where
  "disp_session api e [] = ret ()"
| "disp_session api e (q # qs) = do { disp_step api e q; disp_session api e qs }"

definition lost :: "drm_call api \<Rightarrow> nat \<Rightarrow> drm_res multiset \<Rightarrow> bool" where
  "lost api n L \<longleftrightarrow> (\<forall>x \<in># L. \<exists>h. x = D_bo h) \<and> size L \<le> n \<and> (\<not> refuses_blob api \<longrightarrow> L = {#})"

lemma orphan_lost: "lost api n L \<Longrightarrow> orphan api O1 \<Longrightarrow> lost api (Suc n) (L + O1)"
  by (auto simp: lost_def orphan_def)

lemma lost_mono: "lost api n L \<Longrightarrow> lost api (Suc n) L"
  by (simp add: lost_def)

lemma disp_step_inv:
  assumes "drm_results api" and "disp_inv L d" and "lost api n L"
  shows "wp (disp_step api e q) (\<lambda>_ t. \<exists>L. disp_inv L t \<and> lost api (n + (if q = Start_output then 1 else 0)) L) d"
proof (cases q)
  case Start_output
  have "\<exists>L'. disp_inv L' t \<and> lost api (Suc n) L'" if "started api L e d r t" for r t
    using that assms(3) unfolding started_def by (auto dest: orphan_lost lost_mono)
  then show ?thesis
    unfolding disp_step_def Start_output disp_op.case wp_bind
    by (intro wp_conseq [OF wp_start_output [OF assms(1,2)]]) (auto simp: wp_return)
next
  case Stop_output
  then show ?thesis
    using assms(3)
    by (auto simp: disp_step_def stopped_def intro!: wp_stop_output [OF disp_inv_ok [OF assms(2)]])
next
  case (Source w h fps)
  then show ?thesis
    using assms by (auto simp: disp_step_def wp_rules disp_inv_def output_off_def disp_res_def)
qed

lemma disp_session_inv:
  assumes "drm_results api" and "disp_inv L d" and "lost api n L"
  shows "wp (disp_session api e qs) (\<lambda>_ t. \<exists>L. disp_inv L t \<and> lost api (n + count_list qs Start_output) L) d"
  using assms(2,3)
proof (induction qs arbitrary: d L n)
  case Nil
  then show ?case by (auto simp: wp_rules)
next
  case (Cons q qs)
  show ?case
    unfolding disp_session.simps wp_bind
  proof (rule wp_conseq [OF disp_step_inv [OF assms(1) Cons.prems]], elim exE conjE)
    fix t L'
    assume "disp_inv L' t" "lost api (n + (if q = Start_output then 1 else 0)) L'"
    from Cons.IH [OF this] show "wp (disp_session api e qs)
        (\<lambda>_ t. \<exists>L. disp_inv L t \<and> lost api (n + count_list (q # qs) Start_output) L) t"
      by (rule wp_conseq) (auto split: if_splits)
  qed
qed

definition disp_init :: disp where
  "disp_init = \<lparr>trace = [], rx_drm_fd = - 1, rx_drm_connector_id = 0, rx_drm_crtc_id = 0, rx_drm_primary_plane_id = 0,
     rx_drm_video_plane_id = 0, rx_drm_primary_fb_id = 0, rx_drm_primary_bo_handle = 0, rx_drm_mode_blob_id = 0,
     rx_drm_output_mode = no_mode, rx_drm_modeset_active = False, dec_width = 0, dec_height = 0, dec_fps = 60,
     rx_sound = Sound rx_audio_init\<rparr>"

lemma disp_init_inv: "disp_inv {#} disp_init"
  by (simp add: disp_inv_def disp_init_def disp_res_def fb_res_def blob_res_def dev_res_def output_off_def
      sink_inv_def rx_audio_init_def)

text \<open>
  C13: the display output over its life: for any sequence of starts, stops and changes of the
  source, whatever the driver answers, the live kernel objects are those the record names and no
  others, each released once; the device is open exactly while a mode is set, and a failed start
  clears every field again.  The one exception is a buffer object granted just before the driver
  refuses the mode blob: at most one for each start is left behind, and none when blobs are granted.
\<close>

theorem drm_output_lifecycle:
  assumes "drm_results api"
  shows "wp (disp_session api e qs) (\<lambda>_ t. \<exists>L.
    drm_ledger (trace t) = Some (L + disp_res t) \<and>
    (if rx_drm_modeset_active t then 0 \<le> rx_drm_fd t else output_off t) \<and>
    (\<forall>x \<in># L. \<exists>h. x = D_bo h) \<and> size L \<le> count_list qs Start_output \<and>
    ((\<forall>tr xs. fst (api tr (CreateBlob xs)) = 0) \<longrightarrow> L = {#}) \<and>
    wp (stop_drm_output api e) (\<lambda>_ u. output_off u \<and> drm_ledger (trace u) = Some L) t) disp_init"
proof (rule wp_conseq [OF disp_session_inv [OF assms disp_init_inv, of 0]], goal_cases)
  case (2 a t)
  then obtain L where L: "disp_inv L t" "lost api (count_list qs Start_output) L" by auto
  have "wp (stop_drm_output api e) (\<lambda>_ u. output_off u \<and> drm_ledger (trace u) = Some L) t"
    by (rule wp_stop_output [OF disp_inv_ok [OF L(1)]])
      (auto simp: stopped_def disp_inv_def output_off_def disp_res_def fb_res_def blob_res_def dev_res_def)
  with L show ?case by (auto simp: disp_inv_def lost_def refuses_blob_def intro!: exI [of _ L])
qed (simp add: lost_def)

text \<open>A driver with one plane and one connected monitor that grants every request.\<close>

definition grant_api :: "drm_call api" where
  "grant_api tr q =
     (case q of
        DrmOpen \<Rightarrow> (3, [])
      | GetResources \<Rightarrow> (1, [1, 2, 1])
      | GetEncoder i \<Rightarrow> (1, [1])
      | GetConnector i \<Rightarrow> (1, [1])
      | GetPlanes \<Rightarrow> (0, [5])
      | GetPlane i \<Rightarrow> (0, [5, 1, 0x3231564e])
      | GetProps i k \<Rightarrow> (0, [9, 1])
      | AtomicAlloc \<Rightarrow> (1, [])
      | _ \<Rightarrow> (0, [7, 7680]))"

definition grant_env :: out_env where
  "grant_env = \<lparr>card_env = \<lparr>output_is_sdi = False, output_audio_card = [], drm_modeset_active = False\<rparr>,
     e_pname = (\<lambda>_. Some (9, ''SC6F0_OVERLAY_SOURCE'')), e_enc = (\<lambda>_. []), e_dec = (\<lambda>_. [sd720, hd60]),
     e_conn = (\<lambda>_. \<lparr>connector_id = 2, connector_hdmia = True, connector_unknown = False\<rparr>),
     e_encoders = (\<lambda>_. (1, [])), e_rgb888 = 1, e_uyvy10 = 2,
     e_yuyv = 0x56595559, e_bgr888 = 0x34324742, e_nv12 = 0x3231564e, e_dirs = (\<lambda>_. None), g_sdi_audio_optional = False,
     g_sdi_audio_disabled = False, g_tpg_pattern = 7, g_sdi_output_width = 1920, g_sdi_output_height = 1080\<rparr>"

theorem drm_output_lifecycle_witness:
  "wp (disp_session grant_api grant_env [Source 1920 1080 60, Start_output, Stop_output, Start_output]) (\<lambda>_ t. \<exists>L.
    drm_ledger (trace t) = Some (L + disp_res t) \<and>
    (if rx_drm_modeset_active t then 0 \<le> rx_drm_fd t else output_off t) \<and>
    (\<forall>x \<in># L. \<exists>h. x = D_bo h) \<and> size L \<le> count_list [Source 1920 1080 60, Start_output, Stop_output, Start_output] Start_output \<and>
    ((\<forall>tr xs. fst (grant_api tr (CreateBlob xs)) = 0) \<longrightarrow> L = {#}) \<and>
    wp (stop_drm_output grant_api grant_env) (\<lambda>_ u. output_off u \<and> drm_ledger (trace u) = Some L) t) disp_init"
  by (rule drm_output_lifecycle) (simp add: drm_results_def kernel_ids_def nonzero_ids_def grant_api_def outp_def)

section \<open>The mode of the output\<close>

text \<open>What holds of the best mode so far, over the candidates \<open>S\<close> seen so far.\<close>

definition best_of :: "bool \<Rightarrow> (drmModeModeInfo \<Rightarrow> bool) \<Rightarrow> bool \<Rightarrow> drmModeModeInfo set \<Rightarrow>
    (drmModeModeInfo \<times> bool) option \<Rightarrow> bool" where
  "best_of sdi exact uhd S best \<longleftrightarrow>
     (case best of
        None \<Rightarrow> \<forall>c \<in> S. \<not> usable_mode sdi c
      | Some (m, ex) \<Rightarrow> m \<in> S \<and> usable_mode sdi m \<and> ex = exact m \<and>
          (\<forall>c \<in> S. usable_mode sdi c \<longrightarrow> (exact c \<longrightarrow> exact m) \<and>
             (exact c = exact m \<longrightarrow> area c \<le> area m \<and>
                (area c = area m \<and> \<not> uhd \<longrightarrow> mode_vrefresh c \<le> mode_vrefresh m + 5 / 1000))))"

lemma pick_mode_best:
  "best_of sdi exact uhd S best \<Longrightarrow> best_of sdi exact uhd (S \<union> set modes) (pick_mode sdi exact uhd modes best)"
proof (induction modes arbitrary: S best)
  case (Cons c modes)
  have step: "best_of sdi exact uhd (insert c S)
      (if \<not> usable_mode sdi c then best
       else case best of
           None \<Rightarrow> Some (c, exact c)
         | Some (mode, ex) \<Rightarrow>
             if (exact c \<and> \<not> ex) \<or> (exact c = ex \<and> (area c > area mode \<or> (area c = area mode \<and>
                   (mode_vrefresh c > mode_vrefresh mode + 5 / 1000 \<or> (uhd \<and> clock c = 594000 \<and> clock mode \<noteq> 594000)))))
             then Some (c, exact c) else Some (mode, ex))"
    using Cons.prems unfolding best_of_def by (auto split: option.splits prod.splits if_splits)
  from Cons.IH [OF step] show ?case by (simp split: if_splits)
qed simp

text \<open>
  C21: the mode of the decoded stream: it is one of the connector's modes and usable; a mode of the
  size and rate of the stream is taken when there is one; among the modes that are equal in this
  it is one of the largest area and, except for a 2160p60 stream, none of that area is faster by
  more than 0.005 Hz.  Without a usable mode none is chosen.
\<close>

theorem source_mode_best:
  "case source_mode e d modes of
      None \<Rightarrow> \<forall>c \<in> set modes. \<not> usable_mode (is_sdi e) c
    | Some (m, ex) \<Rightarrow> m \<in> set modes \<and> usable_mode (is_sdi e) m \<and> ex = candidate_exact e d m \<and>
        (\<forall>c \<in> set modes. usable_mode (is_sdi e) c \<longrightarrow> (candidate_exact e d c \<longrightarrow> candidate_exact e d m) \<and>
           (candidate_exact e d c = candidate_exact e d m \<longrightarrow> area c \<le> area m \<and>
              (area c = area m \<and> \<not> (target_width e d = 3840 \<and> target_height e d = 2160 \<and> target_fps e d = 60) \<longrightarrow>
                 mode_vrefresh c \<le> mode_vrefresh m + 5 / 1000)))"
proof -
  have "best_of sdi exact uhd {} None" for sdi exact uhd by (simp add: best_of_def)
  from pick_mode_best [OF this] show ?thesis
    unfolding source_mode_def best_of_def by (simp only: Un_empty_left)
qed

lemma source_60: "source_mode grant_env (disp_init\<lparr>dec_width := 1920, dec_height := 1080\<rparr>) [sd720, hd60] = Some (hd60, True)"
  by (simp add: source_mode_def candidate_exact_def target_width_def target_height_def target_fps_def usable_60 grant_env_def
      disp_init_def) (simp add: hd60_def sd720_def area_def)

theorem source_mode_best_witness:
  "hd60 \<in> set [sd720, hd60] \<and> usable_mode (is_sdi grant_env) hd60 \<and>
   candidate_exact grant_env (disp_init\<lparr>dec_width := 1920, dec_height := 1080\<rparr>) hd60 = True"
  using source_mode_best [where e = grant_env and d = "disp_init\<lparr>dec_width := 1920, dec_height := 1080\<rparr>" and
      modes = "[sd720, hd60]"] source_60 by simp

end
