(* ===== verification/Rx_Video.thy ===== *)
theory Rx_Video
  imports Drm_Output
begin

text \<open>
  The video path of src/src/tests/sc6f0-dante-rx.cpp: the sink callback with its scan of the access
  unit, the feeding of the hardware decoder, the asynchronous start of decoder and display, the
  event callback that shows decoded frames, and the stop functions.  Calls of the qcap2 library
  are \<open>vcall\<close>; the display is the component of Drm_Output, reached through \<open>Drm\<close>.  The decoder
  thread of \<open>start_vdec_decoder_async\<close> is one step, \<open>decoder_init_thread\<close>, which is outstanding
  while \<open>decoder_initializing\<close> is set; joining it runs it.
\<close>

section \<open>Calls and state\<close>

datatype vobj = V_event | V_handlers | V_pool | V_decoder | V_sink

datatype vcall =
    VNew vobj                      \<comment> \<open>the new object, 0 for NULL\<close>
  | VDelete vobj int
  | VStart vobj int
  | VStop vobj int
  | VSet vobj string int "int list"
  | VHandle int                    \<comment> \<open>\<open>qcap2_event_get_native_handle\<close>; replies \<open>[handle]\<close>\<close>
  | VAddHandler int int
  | PoolGet int nat                \<comment> \<open>replies \<open>[rcbuffer]\<close>\<close>
  | StreamLock                     \<comment> \<open>cast and lock of a callback's stream; the packet, 0 for NULL\<close>
  | StreamUnlock
  | LockData int                   \<comment> \<open>the packet, 0 for NULL\<close>
  | PktGet int                     \<comment> \<open>replies \<open>[address, size]\<close>\<close>
  | PktFill int "u8 list" bool nat \<comment> \<open>the data, the key flag and the time stamp of the packet\<close>
  | UnlockData int
  | RcRelease int
  | DecPush int int
  | DecPop int                     \<comment> \<open>replies \<open>[frame]\<close>\<close>
  | DecDiscontinuity int
  | SinkPush int int
  | ParserBuffer                   \<comment> \<open>the sink pad and a new buffer, 0 when one is missing\<close>
  | ParserPush "u8 list" u64
  | Malloc nat
  | FileWrite "u8 list"            \<comment> \<open>\<open>fwrite\<close> and \<open>fflush\<close>; 0 on success\<close>
  | FileClose
  | Drm drm_call

text \<open>The display component, behind a constructor.\<close>

datatype screen = Screen (disp_of: disp)

record rx_video_stats =
  total_packets :: u64
  total_bytes :: u64
  keyframes :: u64
  sps_pps :: u64
  idr_slices :: u64
  non_idr_slices :: u64
  no_sc :: u64
  nal_other :: u64
  last_pts :: u64
  first_pts :: u64

record rx_video = "vcall io" +
  video_stats :: rx_video_stats
  vdec :: int
  vdec_started :: bool
  vdec_event :: int
  vdec_event_handlers :: int
  vdec_packet_pool :: int
  vdec_init_done :: bool
  vdec_sink :: int
  vdec_sink_started :: bool
  screen :: screen
  display_enabled :: bool
  decode_enabled :: bool
  h264_input_parsed :: bool
  h264_parser :: bool                \<comment> \<open>the parser element is there\<close>
  extra_data :: "u8 list option"
  decoder_initializing :: bool
  decoder_wait_for_idr :: bool
  reconstructed_file :: bool         \<comment> \<open>the file is open\<close>
  decoded_frames :: u64
  decoded_errors :: u64
  decoder_display_errors :: u64
  decoder_input_packets :: u64
  decoder_pushed_packets :: u64
  decoder_dropped_packets :: u64
  packet_pool_dropped_packets :: u64
  decoder_push_failed_packets :: u64
  no_sps_count :: u64

type_synonym 'a rv = "(rx_video, 'a) state"

definition on_screen :: "vcall api \<Rightarrow> (drm_call api \<Rightarrow> 'a dp) \<Rightarrow> 'a rv" where
  "on_screen = embed_at Drm (\<lambda>s. disp_of (screen s)) (\<lambda>d s. s\<lparr>screen := Screen d\<rparr>)"

section \<open>Scanning an access unit\<close>

text \<open>The test of the scan loops at index \<open>i\<close>; \<open>n\<close> is \<open>data_size\<close>.\<close>

definition start_code_at :: "u8 list \<Rightarrow> nat \<Rightarrow> bool" where
  "start_code_at bytes i \<longleftrightarrow> bytes ! i = 0 \<and> bytes ! (i + 1) = 0 \<and>
     (bytes ! (i + 2) = 1 \<or> (i + 4 \<le> length bytes \<and> bytes ! (i + 2) = 0 \<and> bytes ! (i + 3) = 1))"

definition nal_offset :: "u8 list \<Rightarrow> nat \<Rightarrow> nat" where
  "nal_offset bytes i = (if bytes ! (i + 2) = 1 then i + 3 else i + 4)"

text \<open>The NAL types in the order in which the loop meets them, for \<open>i + 3 < max_scan\<close>.\<close>

definition nal_types :: "u8 list \<Rightarrow> nat \<Rightarrow> u8 list" where
  "nal_types bytes max_scan =
     map (\<lambda>i. bytes ! nal_offset bytes i AND 0x1F)
       (filter (\<lambda>i. start_code_at bytes i \<and> nal_offset bytes i < length bytes) [0 ..< max_scan - 3])"

definition has_idr :: "u8 list \<Rightarrow> bool" where
  "has_idr bytes \<longleftrightarrow> 5 \<in> set (nal_types bytes (length bytes))"

text \<open>The counters of the sink callback; \<open>key\<close> is the flag of the buffer.\<close>

definition classify :: "u8 list \<Rightarrow> bool \<Rightarrow> rx_video_stats \<Rightarrow> rx_video_stats" where
  "classify bytes key st =
     (let types = nal_types bytes (if length bytes < 4096 then length bytes else 4096);
          has_sps_pps = (7 \<in> set types \<or> 8 \<in> set types);
          idr = (5 \<in> set types);
          non_idr = (1 \<in> set types);
          st1 = (if types = [] then st\<lparr>no_sc := no_sc st + 1\<rparr>
                 else if has_sps_pps then st\<lparr>sps_pps := sps_pps st + 1\<rparr> else st);
          st2 = (if idr then st1\<lparr>idr_slices := idr_slices st1 + 1, keyframes := keyframes st1 + 1\<rparr>
                 else if key then st1\<lparr>keyframes := keyframes st1 + 1\<rparr> else st1)
      in if non_idr then st2\<lparr>non_idr_slices := non_idr_slices st2 + 1\<rparr>
         else if \<not> has_sps_pps \<and> \<not> idr then st2\<lparr>nal_other := nal_other st2 + 1\<rparr> else st2)"

definition count_packet :: "nat \<Rightarrow> u64 \<Rightarrow> rx_video_stats \<Rightarrow> rx_video_stats" where
  "count_packet n ts st =
     st\<lparr>total_packets := total_packets st + 1, total_bytes := total_bytes st + of_nat n,
        first_pts := (if first_pts st = 0 \<and> ts > 0 then ts else first_pts st), last_pts := ts\<rparr>"

section \<open>The decoder objects\<close>

definition drop_object :: "vcall api \<Rightarrow> vobj \<Rightarrow> int \<Rightarrow> (rx_video \<Rightarrow> rx_video) \<Rightarrow> unit rv" where
  "drop_object api ob p forget =
     (if p \<noteq> 0 then do { call api (VStop ob p); call api (VDelete ob p); modify forget } else ret ())"

definition StopVdecAsync :: "vcall api \<Rightarrow> unit rv" where
  "StopVdecAsync api = do {
     s \<leftarrow> State_Monad.get;
     drop_object api V_handlers (vdec_event_handlers s) (\<lambda>s. s\<lparr>vdec_event_handlers := 0\<rparr>);
     drop_object api V_pool (vdec_packet_pool s) (\<lambda>s. s\<lparr>vdec_packet_pool := 0\<rparr>);
     drop_object api V_event (vdec_event s) (\<lambda>s. s\<lparr>vdec_event := 0\<rparr>);
     modify (\<lambda>s. s\<lparr>vdec_init_done := False\<rparr>) }"

definition fail_setup :: "vcall api \<Rightarrow> int rv" where
  "fail_setup api = do { StopVdecAsync api; ret (- 1) }"

definition setup_pool :: "vcall api \<Rightarrow> int rv" where
  "setup_pool api = do {
     p \<leftarrow> call api (VNew V_pool);
     modify (\<lambda>s. s\<lparr>vdec_packet_pool := fst p\<rparr>);
     if fst p = 0 then fail_setup api else do {
     call api (VSet V_pool ''packet_count'' (fst p) [16]);
     r \<leftarrow> call api (VStart V_pool (fst p));
     if fst r \<noteq> QCAP_RS_SUCCESSFUL then fail_setup api else do {
     modify (\<lambda>s. s\<lparr>vdec_init_done := True\<rparr>);
     ret 0 } } }"

definition setup_handlers :: "vcall api \<Rightarrow> int \<Rightarrow> int rv" where
  "setup_handlers api ev = do {
     h \<leftarrow> call api (VNew V_handlers);
     modify (\<lambda>s. s\<lparr>vdec_event_handlers := fst h\<rparr>);
     if fst h = 0 then fail_setup api else do {
     r \<leftarrow> call api (VStart V_handlers (fst h));
     if fst r \<noteq> QCAP_RS_SUCCESSFUL then fail_setup api else do {
     n \<leftarrow> call api (VHandle ev);
     if fst n \<noteq> QCAP_RS_SUCCESSFUL then fail_setup api else do {
     a \<leftarrow> call api (VAddHandler (fst h) (outp n 0));
     if fst a \<noteq> QCAP_RS_SUCCESSFUL then fail_setup api else setup_pool api } } } }"

definition SetupVdecAsync :: "vcall api \<Rightarrow> int rv" where
  "SetupVdecAsync api = do {
     e \<leftarrow> call api (VNew V_event);
     modify (\<lambda>s. s\<lparr>vdec_event := fst e\<rparr>);
     if fst e = 0 then ret (- 1) else do {
     r \<leftarrow> call api (VStart V_event (fst e));
     if fst r \<noteq> QCAP_RS_SUCCESSFUL then fail_setup api else setup_handlers api (fst e) } }"

definition init_vdec_decoder :: "vcall api \<Rightarrow> int rv" where
  "init_vdec_decoder api = do {
     v \<leftarrow> call api (VNew V_decoder);
     modify (\<lambda>s. s\<lparr>vdec := fst v\<rparr>);
     if fst v = 0 then ret (- 1) else do {
     s \<leftarrow> State_Monad.get;
     call api (VSet V_decoder ''video_property'' (fst v) [int (dec_width (disp_of (screen s))), int (dec_height (disp_of (screen s)))]);
     call api (VSet V_decoder ''extra_data'' (fst v) (map uint (case extra_data s of None \<Rightarrow> [] | Some xs \<Rightarrow> xs)));
     call api (VSet V_decoder ''input_mode'' (fst v) []);
     call api (VSet V_decoder ''multithread'' (fst v) [0]);
     call api (VSet V_decoder ''frame_count'' (fst v) [8]);
     call api (VSet V_decoder ''packet_count'' (fst v) [16]);
     call api (VSet V_decoder ''max_packet_size'' (fst v) [1024 * 1024]);
     call api (VSet V_decoder ''event'' (fst v) [vdec_event s]);
     r \<leftarrow> call api (VStart V_decoder (fst v));
     if fst r \<noteq> QCAP_RS_SUCCESSFUL then do {
       call api (VDelete V_decoder (fst v));
       modify (\<lambda>s. s\<lparr>vdec := 0\<rparr>);
       ret (- 1) }
     else do { modify (\<lambda>s. s\<lparr>vdec_started := True\<rparr>); ret 0 } } }"

section \<open>The display sink\<close>

definition drop_sink :: "vcall api \<Rightarrow> int \<Rightarrow> int rv" where
  "drop_sink api sink = do { call api (VDelete V_sink sink); ret (- 1) }"

definition start_vdec_sink :: "vcall api \<Rightarrow> int rv" where
  "start_vdec_sink api = do {
     s \<leftarrow> State_Monad.get;
     if vdec_sink_started s then ret 0 else do {
     let d = disp_of (screen s);
     let out_w = hdisplay (rx_drm_output_mode d); let out_h = vdisplay (rx_drm_output_mode d);
     v \<leftarrow> call api (VNew V_sink);
     if fst v = 0 then ret (- 1) else do {
     call api (VSet V_sink ''backend_type'' (fst v) []);
     call api (VSet V_sink ''drm_plane'' (fst v) [rx_drm_video_plane_id d]);
     if dec_width d = 0 \<or> dec_height d = 0 \<or> out_w = 0 \<or> out_h = 0 then drop_sink api (fst v) else do {
     let rect = letterbox (dec_width d) (dec_height d) out_w out_h;
     if fst rect = 0 \<or> snd rect = 0 then drop_sink api (fst v) else do {
     call api (VSet V_sink ''drm_rect'' (fst v)
       [int ((out_w - fst rect) div 2), int ((out_h - snd rect) div 2), int (fst rect), int (snd rect)]);
     call api (VSet V_sink ''video_format'' (fst v) [int out_w, int out_h]);
     r \<leftarrow> call api (VStart V_sink (fst v));
     if fst r \<noteq> QCAP_RS_SUCCESSFUL then drop_sink api (fst v) else do {
     modify (\<lambda>s. s\<lparr>vdec_sink := fst v, vdec_sink_started := True\<rparr>);
     ret 0 } } } } } }"

definition stop_vdec_sink :: "vcall api \<Rightarrow> unit rv" where
  "stop_vdec_sink api = do {
     s \<leftarrow> State_Monad.get;
     (if vdec_sink s \<noteq> 0 then do {
        (if vdec_sink_started s then do { call api (VStop V_sink (vdec_sink s)); ret () } else ret ());
        call api (VDelete V_sink (vdec_sink s));
        modify (\<lambda>s. s\<lparr>vdec_sink := 0\<rparr>) } else ret ());
     modify (\<lambda>s. s\<lparr>vdec_sink_started := False\<rparr>) }"

definition stop_vdec_display :: "vcall api \<Rightarrow> out_env \<Rightarrow> unit rv" where
  "stop_vdec_display api e = do { stop_vdec_sink api; on_screen api (\<lambda>a. stop_drm_output a e) }"

section \<open>Starting and stopping the decoder\<close>

definition start_vdec_decoder_async :: "unit rv" where
  "start_vdec_decoder_async = modify (\<lambda>s. s\<lparr>decoder_initializing := True, decoder_wait_for_idr := True\<rparr>)"

definition start_display :: "vcall api \<Rightarrow> out_env \<Rightarrow> bool rv" where
  "start_display api e = do {
     a \<leftarrow> on_screen api (\<lambda>d. start_drm_output d e);
     if a \<noteq> 0 then ret False else do { b \<leftarrow> start_vdec_sink api; ret (b = 0) } }"

definition start_decoder :: "vcall api \<Rightarrow> bool rv" where
  "start_decoder api = do {
     a \<leftarrow> SetupVdecAsync api;
     ready \<leftarrow> (if a = 0 then do { b \<leftarrow> init_vdec_decoder api; ret (b = 0) } else ret False);
     (if \<not> ready then StopVdecAsync api else ret ());
     ret ready }"

definition decoder_init_thread :: "vcall api \<Rightarrow> out_env \<Rightarrow> unit rv" where
  "decoder_init_thread api e = do {
     s \<leftarrow> State_Monad.get;
     shown \<leftarrow> (if display_enabled s then start_display api e else ret True);
     ready \<leftarrow> (if shown then start_decoder api else ret False);
     modify (\<lambda>s. s\<lparr>decoder_wait_for_idr := (if ready then decoder_wait_for_idr s else False),
       decoder_initializing := False\<rparr>) }"

definition stop_vdec_decoder :: "vcall api \<Rightarrow> out_env \<Rightarrow> unit rv" where
  "stop_vdec_decoder api e = do {
     s \<leftarrow> State_Monad.get;
     (if decoder_initializing s then decoder_init_thread api e else ret ());
     s \<leftarrow> State_Monad.get;
     drop_object api V_handlers (vdec_event_handlers s) (\<lambda>s. s\<lparr>vdec_event_handlers := 0\<rparr>);
     (if vdec s \<noteq> 0 then do {
        (if vdec_started s then do { call api (VStop V_decoder (vdec s)); ret () } else ret ());
        call api (VDelete V_decoder (vdec s));
        modify (\<lambda>s. s\<lparr>vdec := 0, vdec_started := False\<rparr>) } else ret ());
     StopVdecAsync api }"

section \<open>Feeding the decoder\<close>

text \<open>For access units below 2 GB, whose size the code narrows to \<open>int\<close>.\<close>

definition submit_vdec_packet :: "vcall api \<Rightarrow> u8 list \<Rightarrow> bool \<Rightarrow> u64 \<Rightarrow> unit rv" where
  "submit_vdec_packet api bytes is_keyframe ts = do {
     s \<leftarrow> State_Monad.get;
     r \<leftarrow> call api (PoolGet (vdec_packet_pool s) (length bytes));
     let rcbuf = outp r 0;
     if fst r \<noteq> QCAP_RS_SUCCESSFUL \<or> rcbuf = 0 then
       modify (\<lambda>s. s\<lparr>decoder_dropped_packets := decoder_dropped_packets s + 1,
         packet_pool_dropped_packets := packet_pool_dropped_packets s + 1\<rparr>)
     else do {
     p \<leftarrow> call api (LockData rcbuf);
     let pkt = fst p;
     b \<leftarrow> (if pkt \<noteq> 0 then call api (PktGet pkt) else ret (0, []));
     if pkt = 0 \<or> outp b 0 = 0 \<or> outp b 1 < int (length bytes) then do {
       (if pkt \<noteq> 0 then do { call api (UnlockData rcbuf); ret () } else ret ());
       call api (RcRelease rcbuf);
       modify (\<lambda>s. s\<lparr>decoder_dropped_packets := decoder_dropped_packets s + 1,
         decoded_errors := decoded_errors s + 1\<rparr>) }
     else do {
     call api (PktFill pkt bytes is_keyframe (unat ts div 1000));
     call api (UnlockData rcbuf);
     q \<leftarrow> call api (DecPush (vdec s) rcbuf);
     call api (RcRelease rcbuf);
     modify (\<lambda>s. if fst q = QCAP_RS_SUCCESSFUL then s\<lparr>decoder_pushed_packets := decoder_pushed_packets s + 1\<rparr>
       else s\<lparr>decoder_dropped_packets := decoder_dropped_packets s + 1,
              decoder_push_failed_packets := decoder_push_failed_packets s + 1\<rparr>) } } }"

text \<open>
  The caps of the parser observer; \<open>media_type\<close> is "video/x-h264" or not, a missing field is \<open>None\<close>,
  and \<open>INT_MAX\<close> is the C constant.
\<close>

record caps =
  caps_h264 :: bool
  caps_avcc :: "u8 list option"
  caps_width :: "nat option"
  caps_height :: "nat option"
  caps_fps :: "rat option"

text \<open>The format in the caps: avcC, width, height and frame rate; \<open>None\<close> when the code ignores them.\<close>

definition caps_values :: "caps \<Rightarrow> (u8 list \<times> nat \<times> nat \<times> rat) option" where
  "caps_values c =
     (case (caps_h264 c, caps_avcc c, caps_width c, caps_height c) of
        (True, Some avcc, Some width, Some height) \<Rightarrow>
          if length avcc < 11 \<or> length avcc > 2 ^ 31 - 1 \<or> width = 0 \<or> height = 0 then None
          else Some (avcc, width, height,
            case caps_fps c of Some f \<Rightarrow> if f < 1 \<or> f > 240 then 60 else f | None \<Rightarrow> 60)
      | _ \<Rightarrow> None)"

definition set_format :: "u8 list \<Rightarrow> nat \<Rightarrow> nat \<Rightarrow> rat \<Rightarrow> rx_video \<Rightarrow> rx_video" where
  "set_format avcc width height fps s =
     s\<lparr>extra_data := Some avcc,
       screen := Screen ((disp_of (screen s))\<lparr>dec_width := width, dec_height := height, dec_fps := fps\<rparr>)\<rparr>"

definition rx_h264_apply_caps :: "vcall api \<Rightarrow> caps \<Rightarrow> unit rv" where
  "rx_h264_apply_caps api c =
     (case caps_values c of None \<Rightarrow> ret ()
      | Some (avcc, width, height, fps) \<Rightarrow> do {
          m \<leftarrow> call api (Malloc (length avcc));
          if fst m = 0 then ret ()
          else modify (\<lambda>s. if vdec_started s \<or> decoder_initializing s then s else set_format avcc width height fps s) })"

text \<open>The push into the parser, during which it may hand out new caps.\<close>

primrec apply_all_caps :: "vcall api \<Rightarrow> caps list \<Rightarrow> unit rv" where
  "apply_all_caps api [] = ret ()"
| "apply_all_caps api (c # cs) = do { rx_h264_apply_caps api c; apply_all_caps api cs }"

definition rx_h264_parser_push :: "vcall api \<Rightarrow> u8 list \<Rightarrow> u64 \<Rightarrow> caps list \<Rightarrow> unit rv" where
  "rx_h264_parser_push api bytes ts emitted = do {
     s \<leftarrow> State_Monad.get;
     if \<not> h264_parser s \<or> bytes = [] then ret ()
     else do {
       b \<leftarrow> call api ParserBuffer;
       if fst b = 0 then ret () else do {
       m \<leftarrow> call api (Malloc (length bytes));
       if fst m = 0 then ret ()
       else do { call api (ParserPush bytes ts); apply_all_caps api emitted } } } }"

record access_unit =
  au_data :: "u8 list"
  au_drop :: bool            \<comment> \<open>\<open>ZST_BUFFER_FLAG_DROP\<close>\<close>
  au_key :: bool             \<comment> \<open>\<open>ZST_BUFFER_FLAG_KEYFRAME\<close>\<close>
  au_pts :: u64
  au_caps :: "caps list"     \<comment> \<open>what the parser hands out for it\<close>

definition count_drop :: "unit rv" where
  "count_drop = modify (\<lambda>s. s\<lparr>decoder_dropped_packets := decoder_dropped_packets s + 1\<rparr>)"

definition write_reconstructed :: "vcall api \<Rightarrow> u8 list \<Rightarrow> unit rv" where
  "write_reconstructed api bytes = do {
     s \<leftarrow> State_Monad.get;
     if \<not> reconstructed_file s then ret ()
     else do {
       w \<leftarrow> call api (FileWrite bytes);
       if fst w = 0 then ret ()
       else do { call api FileClose; modify (\<lambda>s. s\<lparr>reconstructed_file := False\<rparr>) } } }"

definition decode_unit :: "vcall api \<Rightarrow> access_unit \<Rightarrow> unit rv" where
  "decode_unit api au = do {
     modify (\<lambda>s. s\<lparr>decoder_input_packets := decoder_input_packets s + 1\<rparr>);
     s \<leftarrow> State_Monad.get;
     let is_keyframe = (has_idr (au_data au) \<or> au_key au);
     if vdec_started s then
       (if decoder_wait_for_idr s \<and> \<not> is_keyframe then count_drop
        else do {
          modify (\<lambda>s. s\<lparr>decoder_wait_for_idr := False\<rparr>);
          submit_vdec_packet api (au_data au) is_keyframe (au_pts au) })
     else if extra_data s = None \<or> extra_data s = Some [] \<or> dec_width (disp_of (screen s)) = 0 \<or>
             dec_height (disp_of (screen s)) = 0 \<or> \<not> is_keyframe
       then modify (\<lambda>s. s\<lparr>no_sps_count := no_sps_count s + 1\<rparr>)
     else do {
       modify (\<lambda>s. s\<lparr>no_sps_count := 0\<rparr>);
       start_vdec_decoder_async } }"

definition rx_video_feed_decoder :: "vcall api \<Rightarrow> access_unit \<Rightarrow> unit rv" where
  "rx_video_feed_decoder api au = do {
     s \<leftarrow> State_Monad.get;
     if length (au_data au) < 4 then ret ()
     else if decoder_initializing s then count_drop
     else if au_drop au then
       (if decode_enabled s then do {
          count_drop;
          if vdec_started s then do { call api (DecDiscontinuity (vdec s)); ret () } else ret () }
        else ret ())
     else do {
       (if decode_enabled s \<and> \<not> h264_input_parsed s
        then rx_h264_parser_push api (au_data au) (au_pts au) (au_caps au) else ret ());
       s \<leftarrow> State_Monad.get;
       if decoder_initializing s then count_drop
       else do {
         write_reconstructed api (au_data au);
         if \<not> decode_enabled s then ret () else decode_unit api au } } }"

text \<open>\<open>rx_video_sink_push\<close>; a buffer without memory is one of length 0.\<close>

definition rx_video_sink_push :: "vcall api \<Rightarrow> access_unit \<Rightarrow> unit rv" where
  "rx_video_sink_push api au = do {
     modify (\<lambda>s. s\<lparr>video_stats := count_packet (length (au_data au)) (au_pts au) (video_stats s)\<rparr>);
     if length (au_data au) < 4 then ret ()
     else do {
       modify (\<lambda>s. s\<lparr>video_stats := classify (au_data au) (au_key au) (video_stats s)\<rparr>);
       rx_video_feed_decoder api au } }"

text \<open>
  The RTSP client: caps and access units come in turn from its source thread.  \<open>source_differs\<close>
  compares the rates exactly, the code in double precision.
\<close>

definition source_differs :: "rx_video \<Rightarrow> u8 list \<Rightarrow> nat \<Rightarrow> nat \<Rightarrow> rat \<Rightarrow> bool" where
  "source_differs s avcc width height fps \<longleftrightarrow>
     dec_width (disp_of (screen s)) \<noteq> width \<or> dec_height (disp_of (screen s)) \<noteq> height \<or>
     \<bar>dec_fps (disp_of (screen s)) - fps\<bar> > 5 / 1000 \<or> extra_data s \<noteq> Some avcc"

definition rtsp_video_sink_event :: "vcall api \<Rightarrow> out_env \<Rightarrow> caps \<Rightarrow> unit rv" where
  "rtsp_video_sink_event api e c =
     (case caps_values c of None \<Rightarrow> ret ()
      | Some (avcc, width, height, fps) \<Rightarrow> do {
          s \<leftarrow> State_Monad.get;
          (if (decoder_initializing s \<or> vdec_started s \<or> rx_drm_modeset_active (disp_of (screen s))) \<and>
              source_differs s avcc width height fps
           then do { stop_vdec_decoder api e; stop_vdec_display api e } else ret ());
          rx_h264_apply_caps api c })"

definition rtsp_video_frame :: "vcall api \<Rightarrow> access_unit \<Rightarrow> unit rv" where
  "rtsp_video_frame api au = do {
     modify (\<lambda>s. s\<lparr>video_stats := (video_stats s)\<lparr>total_packets := total_packets (video_stats s) + 1,
       total_bytes := total_bytes (video_stats s) + of_nat (length (au_data au))\<rparr>\<rparr>);
     rx_video_feed_decoder api au }"

text \<open>
  The callbacks of the QCAP receiver; \<open>payload\<close> is the memory at the address that the packet gives,
  \<open>sample_time\<close> is exact.
\<close>

definition start_qcap_decoder_from_format :: "nat \<Rightarrow> nat \<Rightarrow> rat \<Rightarrow> int rv" where
  "start_qcap_decoder_from_format width height fps =
     (if width = 0 \<or> height = 0 then ret (- 1)
      else do {
        modify (\<lambda>s. let d = disp_of (screen s) in if vdec_started s then s
          else s\<lparr>screen := Screen (d\<lparr>dec_width := (if dec_width d = 0 then width else dec_width d),
                 dec_height := (if dec_height d = 0 then height else dec_height d),
                 dec_fps := (if 1 \<le> fps \<and> fps \<le> 240 then fps else dec_fps d)\<rparr>)\<rparr>);
        ret 0 })"

definition qcap_dante_connected_callback :: "bool \<Rightarrow> nat \<Rightarrow> nat \<Rightarrow> rat \<Rightarrow> unit rv" where
  "qcap_dante_connected_callback is_h264 width height fps =
     (if \<not> is_h264 then ret () else do { start_qcap_decoder_from_format width height fps; ret () })"

definition count_sample :: "nat \<Rightarrow> u64 \<Rightarrow> bool \<Rightarrow> rx_video_stats \<Rightarrow> rx_video_stats" where
  "count_sample n ts key st =
     (let st1 = count_packet n ts st in if key then st1\<lparr>keyframes := keyframes st1 + 1\<rparr> else st1)"

definition qcap_dante_video_callback :: "vcall api \<Rightarrow> rat \<Rightarrow> u8 list \<Rightarrow> bool \<Rightarrow> caps list \<Rightarrow> unit rv" where
  "qcap_dante_video_callback api sample_time payload is_keyframe emitted = do {
     p \<leftarrow> call api StreamLock;
     b \<leftarrow> (if fst p \<noteq> 0 then call api (PktGet (fst p)) else ret (0, []));
     if fst p = 0 \<or> outp b 0 = 0 \<or> outp b 1 \<le> 0
     then (if fst p \<noteq> 0 then do { call api StreamUnlock; ret () } else ret ())
     else do {
       let au_bytes = take (nat (outp b 1)) payload;
       let ts = (if sample_time > 0 then word_of_int \<lfloor>sample_time * 1000000000\<rfloor> else 0);
       modify (\<lambda>s. s\<lparr>video_stats := count_sample (nat (outp b 1)) ts is_keyframe (video_stats s)\<rparr>);
       rx_video_feed_decoder api \<lparr>au_data = au_bytes, au_drop = False, au_key = is_keyframe, au_pts = ts, au_caps = emitted\<rparr>;
       call api StreamUnlock;
       ret () } }"

section \<open>Showing decoded frames\<close>

definition QCAP_RS_ERROR_TIMEOUT :: int where "QCAP_RS_ERROR_TIMEOUT = 9"

definition show_frame :: "vcall api \<Rightarrow> int \<Rightarrow> unit rv" where
  "show_frame api f = do {
     modify (\<lambda>s. s\<lparr>decoded_frames := decoded_frames s + 1\<rparr>);
     s \<leftarrow> State_Monad.get;
     (if display_enabled s \<and> vdec_sink s \<noteq> 0 \<and> vdec_sink_started s then do {
        r \<leftarrow> call api (SinkPush (vdec_sink s) f);
        if fst r \<noteq> QCAP_RS_SUCCESSFUL
        then modify (\<lambda>s. s\<lparr>decoder_display_errors := decoder_display_errors s + 1\<rparr>) else ret () }
      else ret ());
     call api (RcRelease f);
     ret () }"

text \<open>The loop of the event callback; \<open>False\<close>: \<open>n\<close> rounds were not enough.\<close>

primrec on_vdec_event_callback :: "vcall api \<Rightarrow> nat \<Rightarrow> bool rv" where
  "on_vdec_event_callback api 0 = ret False"
| "on_vdec_event_callback api (Suc n) = do {
     s \<leftarrow> State_Monad.get;
     if vdec s = 0 \<or> \<not> vdec_started s then ret True
     else do {
       r \<leftarrow> call api (DecPop (vdec s));
       if fst r \<noteq> QCAP_RS_SUCCESSFUL then do {
         modify (\<lambda>s. if fst r \<noteq> QCAP_RS_ERROR_TIMEOUT then s\<lparr>decoded_errors := decoded_errors s + 1\<rparr> else s);
         ret True }
       else do { show_frame api (outp r 0); on_vdec_event_callback api n } } }"

text \<open>The end of the video path, as in \<open>stop_dante_rx\<close> and \<open>stop_qcap_media_rx\<close>.\<close>

definition stop_video :: "vcall api \<Rightarrow> out_env \<Rightarrow> unit rv" where
  "stop_video api e = do { stop_vdec_decoder api e; stop_vdec_display api e }"

section \<open>Start codes\<close>

lemma nal_types_reference:
  "t \<in> set (nal_types bytes (length bytes)) \<longleftrightarrow>
     (\<exists>pre x post. bytes = pre @ [0, 0, 1, x] @ post \<and> t = x AND 0x1F)"
proof
  assume "t \<in> set (nal_types bytes (length bytes))"
  then obtain i where i: "i < length bytes - 3" "start_code_at bytes i" "nal_offset bytes i < length bytes"
    "t = bytes ! nal_offset bytes i AND 0x1F"
    by (auto simp: nal_types_def)
  define k where "k = nal_offset bytes i - 3"
  have k: "k + 3 < length bytes" "bytes ! k = 0" "bytes ! (k + 1) = 0" "bytes ! (k + 2) = 1" "nal_offset bytes i = k + 3"
    using i(1-3) by (auto simp: k_def start_code_at_def nal_offset_def numeral_eq_Suc split: if_splits)
  have "bytes = take k bytes @ bytes ! k # bytes ! (k + 1) # bytes ! (k + 2) # bytes ! (k + 3) # drop (k + 4) bytes"
    using k(1) by (simp add: Cons_nth_drop_Suc numeral_eq_Suc)
  then show "\<exists>pre x post. bytes = pre @ [0, 0, 1, x] @ post \<and> t = x AND 0x1F"
    using k i(4) by (intro exI [of _ "take k bytes"] exI [of _ "bytes ! (k + 3)"] exI [of _ "drop (k + 4) bytes"]) simp
next
  assume "\<exists>pre x post. bytes = pre @ [0, 0, 1, x] @ post \<and> t = x AND 0x1F"
  then obtain pre x post where b: "bytes = pre @ [0, 0, 1, x] @ post" "t = x AND 0x1F" by blast
  have "length pre \<in> set (filter (\<lambda>i. start_code_at bytes i \<and> nal_offset bytes i < length bytes) [0 ..< length bytes - 3])"
    by (simp add: b start_code_at_def nal_offset_def nth_append)
  moreover have "bytes ! nal_offset bytes (length pre) = x"
    by (simp add: b nal_offset_def nth_append)
  ultimately show "t \<in> set (nal_types bytes (length bytes))"
    unfolding nal_types_def b(2) by force
qed

text \<open>
  C20: the scan for an IDR slice is exact: the loop, with its two forms of the start code and its
  bounds, finds one if and only if the access unit contains the bytes 0, 0, 1 followed by a NAL
  header of type 5, at any position.
\<close>

theorem idr_scan_exact:
  "has_idr bytes \<longleftrightarrow> (\<exists>pre x post. bytes = pre @ [0, 0, 1, x] @ post \<and> x AND 0x1F = 5)"
  unfolding has_idr_def nal_types_reference by metis

end
