(* ===== verification/Video_Objects.thy ===== *)
theory Video_Objects
  imports Rx_Video
begin

text \<open>
  The objects of the video path of Rx_Video: events, handlers, packet pool, decoder, sink, and the
  buffers and locks of the packets.  One rule for each operation gives what it leaves alive, and one
  invariant is kept by all of them.
\<close>

section \<open>The objects of the decoder\<close>

text \<open>
  Objects and buffers; a running decoder or sink is a resource of its own.  Events, handlers and
  the pool are stopped also when their start has failed, so only their existence is on the ledger.
\<close>

datatype vres = V_obj vobj int | V_running vobj int | V_buf int | V_locked int

definition tracked :: "vobj \<Rightarrow> bool" where
  "tracked ob \<longleftrightarrow> ob = V_decoder \<or> ob = V_sink"

fun v_acq :: "vcall \<Rightarrow> reply \<Rightarrow> vres option" where
  "v_acq (VNew ob) r = (if fst r \<noteq> 0 then Some (V_obj ob (fst r)) else None)"
| "v_acq (VStart ob p) r = (if tracked ob \<and> fst r = QCAP_RS_SUCCESSFUL then Some (V_running ob p) else None)"
| "v_acq (PoolGet p n) r = (if fst r = QCAP_RS_SUCCESSFUL \<and> outp r 0 \<noteq> 0 then Some (V_buf (outp r 0)) else None)"
| "v_acq (LockData b) r = (if fst r \<noteq> 0 then Some (V_locked b) else None)"
| "v_acq (DecPop v) r = (if fst r = QCAP_RS_SUCCESSFUL then Some (V_buf (outp r 0)) else None)"
| "v_acq _ r = None"

fun v_rel :: "vcall \<Rightarrow> vres option" where
  "v_rel (VDelete ob p) = Some (V_obj ob p)"
| "v_rel (VStop ob p) = (if tracked ob then Some (V_running ob p) else None)"
| "v_rel (RcRelease b) = Some (V_buf b)"
| "v_rel (UnlockData b) = Some (V_locked b)"
| "v_rel _ = None"

interpretation vid: cleanup v_acq v_rel
proof unfold_locales
  show "v_rel c \<noteq> None \<Longrightarrow> v_acq c r = None" for c r by (cases c) auto
qed

abbreviation v_ledger :: "vcall event list \<Rightarrow> vres multiset option" where
  "v_ledger \<equiv> ledger v_acq v_rel"

definition obj_res :: "vobj \<Rightarrow> int \<Rightarrow> vres multiset" where
  "obj_res ob p = (if p = 0 then {#} else {#V_obj ob p#})"

definition run_res :: "vobj \<Rightarrow> bool \<Rightarrow> int \<Rightarrow> vres multiset" where
  "run_res ob b p = (if b then {#V_running ob p#} else {#})"

definition async_res :: "rx_video \<Rightarrow> vres multiset" where
  "async_res s = obj_res V_event (vdec_event s) + obj_res V_handlers (vdec_event_handlers s) +
     obj_res V_pool (vdec_packet_pool s)"

definition vdec_res :: "rx_video \<Rightarrow> vres multiset" where
  "vdec_res s = obj_res V_decoder (vdec s) + run_res V_decoder (vdec_started s) (vdec s)"

definition sink_res :: "rx_video \<Rightarrow> vres multiset" where
  "sink_res s = obj_res V_sink (vdec_sink s) + run_res V_sink (vdec_sink_started s) (vdec_sink s)"

definition video_res :: "rx_video \<Rightarrow> vres multiset" where
  "video_res s = async_res s + vdec_res s + sink_res s"

lemmas res_defs = video_res_def async_res_def vdec_res_def sink_res_def obj_res_def run_res_def tracked_def

text \<open>
  The display side: its own invariant, with buffer objects whose mode blob was refused at most, and
  a sink exactly while it is started.
\<close>

definition screen_inv :: "rx_video \<Rightarrow> bool" where
  "screen_inv s \<longleftrightarrow> (\<exists>L. (\<forall>x \<in># L. \<exists>h. x = D_bo h) \<and> disp_inv L (disp_of (screen s))) \<and> (vdec_sink s \<noteq> 0 \<longleftrightarrow> vdec_sink_started s)"

text \<open>
  The invariant between two steps: the live objects are those the record names; a decoder is
  running exactly if there is one, then with its event, handlers and pool, and otherwise with none
  of them; while its start is outstanding there is none.
\<close>

definition configured :: "rx_video \<Rightarrow> bool" where
  "configured s \<longleftrightarrow> extra_data s \<noteq> None \<and> extra_data s \<noteq> Some [] \<and> dec_width (disp_of (screen s)) \<noteq> 0 \<and>
     dec_height (disp_of (screen s)) \<noteq> 0"

text \<open>The state in which a decoder can be made: none, and none of the objects it needs.\<close>

definition async_none :: "rx_video \<Rightarrow> bool" where
  "async_none s \<longleftrightarrow> vdec_event s = 0 \<and> vdec_event_handlers s = 0 \<and> vdec_packet_pool s = 0"

definition video_inv :: "rx_video \<Rightarrow> bool" where
  "video_inv s \<longleftrightarrow> v_ledger (trace s) = Some (video_res s) \<and> screen_inv s \<and>
     (vdec s \<noteq> 0 \<longleftrightarrow> vdec_started s) \<and>
     (vdec_started s \<or> decoder_initializing s \<longrightarrow> configured s) \<and>
     (vdec_started s \<longrightarrow> vdec_event s \<noteq> 0 \<and> vdec_event_handlers s \<noteq> 0 \<and> vdec_packet_pool s \<noteq> 0 \<and>
        \<not> decoder_initializing s) \<and>
     (\<not> vdec_started s \<longrightarrow> async_none s)"

lemma forget_none:
  "vdec_event_handlers s = 0 \<Longrightarrow> s\<lparr>vdec_event_handlers := 0\<rparr> = s"
  "vdec_packet_pool s = 0 \<Longrightarrow> s\<lparr>vdec_packet_pool := 0\<rparr> = s"
  "vdec_event s = 0 \<Longrightarrow> s\<lparr>vdec_event := 0\<rparr> = s"
  by (cases s; simp)+

lemma wp_drop_object:
  assumes "v_ledger (trace s) = Some (M + obj_res ob p)" and "\<not> tracked ob" and "p = 0 \<Longrightarrow> f s = s"
    and "\<And>tr. v_ledger tr = Some M \<Longrightarrow> Q () (f (s\<lparr>trace := tr\<rparr>))"
  shows "wp (drop_object api ob p f) Q s"
proof (cases "p = 0")
  case True
  then show ?thesis using assms(1,3) assms(4) [of "trace s"] by (simp add: drop_object_def wp_rules obj_res_def)
next
  case False
  then show ?thesis using assms(1,2,4) by (simp add: drop_object_def wp_rules wp_call obj_res_def)
qed

text \<open>The trace is kept innermost in record updates.\<close>

lemma trace_first:
  "s\<lparr>vdec := x0, trace := tr\<rparr> = s\<lparr>trace := tr, vdec := x0\<rparr>"
  "s\<lparr>vdec_started := x1, trace := tr\<rparr> = s\<lparr>trace := tr, vdec_started := x1\<rparr>"
  "s\<lparr>vdec_event := x2, trace := tr\<rparr> = s\<lparr>trace := tr, vdec_event := x2\<rparr>"
  "s\<lparr>vdec_event_handlers := x3, trace := tr\<rparr> = s\<lparr>trace := tr, vdec_event_handlers := x3\<rparr>"
  "s\<lparr>vdec_packet_pool := x4, trace := tr\<rparr> = s\<lparr>trace := tr, vdec_packet_pool := x4\<rparr>"
  "s\<lparr>vdec_init_done := x5, trace := tr\<rparr> = s\<lparr>trace := tr, vdec_init_done := x5\<rparr>"
  "s\<lparr>vdec_sink := x6, trace := tr\<rparr> = s\<lparr>trace := tr, vdec_sink := x6\<rparr>"
  "s\<lparr>vdec_sink_started := x7, trace := tr\<rparr> = s\<lparr>trace := tr, vdec_sink_started := x7\<rparr>"
  "s\<lparr>screen := x8, trace := tr\<rparr> = s\<lparr>trace := tr, screen := x8\<rparr>"
  "s\<lparr>decoder_initializing := x9, trace := tr\<rparr> = s\<lparr>trace := tr, decoder_initializing := x9\<rparr>"
  "s\<lparr>decoder_wait_for_idr := x10, trace := tr\<rparr> = s\<lparr>trace := tr, decoder_wait_for_idr := x10\<rparr>"
  "s\<lparr>decoded_frames := x11, trace := tr\<rparr> = s\<lparr>trace := tr, decoded_frames := x11\<rparr>"
  "s\<lparr>decoder_display_errors := x12, trace := tr\<rparr> = s\<lparr>trace := tr, decoder_display_errors := x12\<rparr>"
  "s\<lparr>decoded_errors := x13, trace := tr\<rparr> = s\<lparr>trace := tr, decoded_errors := x13\<rparr>"
  by simp_all

text \<open>The record after \<open>StopVdecAsync\<close>.\<close>

definition async_cleared :: "rx_video \<Rightarrow> rx_video" where
  "async_cleared s = s\<lparr>vdec_event_handlers := 0, vdec_packet_pool := 0, vdec_event := 0, vdec_init_done := False\<rparr>"

lemma wp_StopVdecAsync:
  assumes "v_ledger (trace s) = Some (M + async_res s)"
    and "\<And>tr. v_ledger tr = Some M \<Longrightarrow> Q () (async_cleared (s\<lparr>trace := tr\<rparr>))"
  shows "wp (StopVdecAsync api) Q s"
  unfolding StopVdecAsync_def wp_bind wp_get
proof (rule wp_drop_object [where M = "M + obj_res V_event (vdec_event s) + obj_res V_pool (vdec_packet_pool s)"], goal_cases)
  case (4 tr)
  show ?case
  proof (rule wp_drop_object [where M = "M + obj_res V_event (vdec_event s)"], goal_cases)
    case (4 tr')
    show ?case
      by (rule wp_drop_object [where M = M])
        (use 4 assms(2) in \<open>simp_all add: tracked_def forget_none wp_modify async_cleared_def trace_first\<close>)
  qed (use 4 in \<open>simp_all add: tracked_def forget_none ac_simps\<close>)
qed (use assms(1) in \<open>simp_all add: tracked_def forget_none async_res_def ac_simps\<close>)

lemma wp_fail_setup:
  assumes "v_ledger (trace s) = Some (M + async_res s)"
    and "\<And>tr. v_ledger tr = Some M \<Longrightarrow> Q (- 1) (async_cleared (s\<lparr>trace := tr\<rparr>))"
  shows "wp (fail_setup api) Q s"
  unfolding fail_setup_def wp_bind by (rule wp_StopVdecAsync [OF assms(1)]) (simp add: wp_return assms(2))

lemma async_cleared_absorbs:
  "async_cleared (s\<lparr>vdec_event := i\<rparr>) = async_cleared s" "async_cleared (s\<lparr>vdec_event_handlers := i\<rparr>) = async_cleared s"
  "async_cleared (s\<lparr>vdec_packet_pool := i\<rparr>) = async_cleared s" "async_cleared (s\<lparr>vdec_init_done := b\<rparr>) = async_cleared s"
  by (simp_all add: async_cleared_def)

lemma async_res_trace [simp]: "async_res (s\<lparr>trace := tr\<rparr>) = async_res s"
  by (simp add: async_res_def)

text \<open>A call that neither acquires nor releases.\<close>

lemma ledger_neutral: "v_rel c = None \<Longrightarrow> v_acq c r = None \<Longrightarrow> v_ledger ((c, r) # tr) = v_ledger tr"
  by (simp split: option.split)

definition async_ready :: "rx_video \<Rightarrow> int \<Rightarrow> int \<Rightarrow> int \<Rightarrow> rx_video" where
  "async_ready s ev h p = s\<lparr>vdec_event := ev, vdec_event_handlers := h, vdec_packet_pool := p, vdec_init_done := True\<rparr>"

lemma wp_setup_pool:
  assumes "v_ledger (trace s) = Some (M + obj_res V_event (vdec_event s) + obj_res V_handlers (vdec_event_handlers s))"
    and "\<And>tr p. p \<noteq> 0 \<Longrightarrow> v_ledger tr = Some (M + obj_res V_event (vdec_event s) +
        obj_res V_handlers (vdec_event_handlers s) + obj_res V_pool p) \<Longrightarrow>
        Q 0 (s\<lparr>trace := tr, vdec_packet_pool := p, vdec_init_done := True\<rparr>)"
    and "\<And>tr. v_ledger tr = Some M \<Longrightarrow> Q (- 1) (async_cleared (s\<lparr>trace := tr\<rparr>))"
  shows "wp (setup_pool api) Q s"
  using assms(1) unfolding setup_pool_def wp_bind wp_if wp_modify wp_return wp_call
  by (auto simp: trace_first async_cleared_absorbs async_res_def obj_res_def tracked_def
      intro!: wp_fail_setup [where M = M] assms(2,3))

lemma wp_setup_handlers:
  assumes "v_ledger (trace s) = Some (M + obj_res V_event (vdec_event s))" and "vdec_packet_pool s = 0"
    and "\<And>tr h p. h \<noteq> 0 \<Longrightarrow> p \<noteq> 0 \<Longrightarrow> v_ledger tr = Some (M + obj_res V_event (vdec_event s) +
        obj_res V_handlers h + obj_res V_pool p) \<Longrightarrow>
        Q 0 (s\<lparr>trace := tr, vdec_event_handlers := h, vdec_packet_pool := p, vdec_init_done := True\<rparr>)"
    and "\<And>tr. v_ledger tr = Some M \<Longrightarrow> Q (- 1) (async_cleared (s\<lparr>trace := tr\<rparr>))"
  shows "wp (setup_handlers api ev) Q s"
  using assms(1,2) unfolding setup_handlers_def wp_bind wp_if wp_modify wp_return wp_call
  by (auto simp: trace_first async_cleared_absorbs async_res_def obj_res_def tracked_def
      intro!: wp_fail_setup [where M = M] wp_setup_pool [where M = M] assms(3,4))

lemma wp_SetupVdecAsync:
  assumes "v_ledger (trace s) = Some M" and "async_none s"
    and "\<And>tr ev h p. ev \<noteq> 0 \<Longrightarrow> h \<noteq> 0 \<Longrightarrow> p \<noteq> 0 \<Longrightarrow> v_ledger tr = Some (M + obj_res V_event ev +
        obj_res V_handlers h + obj_res V_pool p) \<Longrightarrow> Q 0 (async_ready (s\<lparr>trace := tr\<rparr>) ev h p)"
    and "\<And>tr b. v_ledger tr = Some M \<Longrightarrow> Q (- 1) ((async_cleared (s\<lparr>trace := tr\<rparr>))\<lparr>vdec_init_done := b\<rparr>)"
  shows "wp (SetupVdecAsync api) Q s"
proof -
  have fail: "Q (- 1) (async_cleared (s\<lparr>trace := tr\<rparr>))" if "v_ledger tr = Some M" for tr
    using assms(4) [OF that, of False] by (simp add: async_cleared_def)
  have none: "Q (- 1) (s\<lparr>trace := tr, vdec_event := 0\<rparr>)" if "v_ledger tr = Some M" for tr
  proof -
    have "s\<lparr>trace := tr, vdec_event := 0\<rparr> = (async_cleared (s\<lparr>trace := tr\<rparr>))\<lparr>vdec_init_done := vdec_init_done s\<rparr>"
      using assms(2) by (cases s) (simp add: async_cleared_def async_none_def)
    then show ?thesis using assms(4) [OF that, of "vdec_init_done s"] by simp
  qed
  show ?thesis
    using assms(1,2) unfolding SetupVdecAsync_def wp_bind wp_if wp_modify wp_return wp_call
    by (auto simp: trace_first async_cleared_absorbs async_res_def obj_res_def tracked_def async_none_def
        intro!: wp_fail_setup [where M = M] wp_setup_handlers [where M = M] none fail
          assms(3) [unfolded async_ready_def obj_res_def])
qed

lemma wp_VSet:
  assumes "\<And>r tr. v_ledger tr = v_ledger (trace s) \<Longrightarrow> Q r (s\<lparr>trace := tr\<rparr>)"
  shows "wp (call api (VSet ob k p xs)) Q s"
  unfolding wp_call by (rule assms) (simp split: option.split)

lemma wp_VNew:
  assumes "v_ledger (trace s) = Some M"
    and "\<And>r tr. fst r = 0 \<Longrightarrow> v_ledger tr = Some M \<Longrightarrow> Q r (s\<lparr>trace := tr\<rparr>)"
    and "\<And>r tr. fst r \<noteq> 0 \<Longrightarrow> v_ledger tr = Some (add_mset (V_obj ob (fst r)) M) \<Longrightarrow> Q r (s\<lparr>trace := tr\<rparr>)"
  shows "wp (call api (VNew ob)) Q s"
  unfolding wp_call using assms(1) by (cases "fst (api (trace s) (VNew ob)) = 0") (simp_all add: assms(2,3))

lemma wp_VStart:
  assumes "v_ledger (trace s) = Some M" and "tracked ob"
    and "\<And>r tr. fst r \<noteq> QCAP_RS_SUCCESSFUL \<Longrightarrow> v_ledger tr = Some M \<Longrightarrow> Q r (s\<lparr>trace := tr\<rparr>)"
    and "\<And>r tr. fst r = QCAP_RS_SUCCESSFUL \<Longrightarrow> v_ledger tr = Some (add_mset (V_running ob p) M) \<Longrightarrow> Q r (s\<lparr>trace := tr\<rparr>)"
  shows "wp (call api (VStart ob p)) Q s"
  unfolding wp_call using assms(1,2)
  by (cases "fst (api (trace s) (VStart ob p)) = QCAP_RS_SUCCESSFUL") (simp_all add: assms(3,4))

lemma wp_VDelete:
  assumes "v_ledger (trace s) = Some (add_mset (V_obj ob p) M)"
    and "\<And>r tr. v_ledger tr = Some M \<Longrightarrow> Q r (s\<lparr>trace := tr\<rparr>)"
  shows "wp (call api (VDelete ob p)) Q s"
  unfolding wp_call by (rule assms(2)) (simp add: assms(1))

lemma wp_VStop:
  assumes "v_ledger (trace s) = Some (add_mset (V_running ob p) M)" and "tracked ob"
    and "\<And>r tr. v_ledger tr = Some M \<Longrightarrow> Q r (s\<lparr>trace := tr\<rparr>)"
  shows "wp (call api (VStop ob p)) Q s"
  unfolding wp_call by (rule assms(3)) (simp add: assms(1,2))

lemma wp_init_vdec_decoder:
  assumes "v_ledger (trace s) = Some M"
    and "\<And>tr v. v \<noteq> 0 \<Longrightarrow> v_ledger tr = Some (M + {#V_obj V_decoder v, V_running V_decoder v#}) \<Longrightarrow>
        Q 0 (s\<lparr>trace := tr, vdec := v, vdec_started := True\<rparr>)"
    and "\<And>tr. v_ledger tr = Some M \<Longrightarrow> Q (- 1) (s\<lparr>trace := tr, vdec := 0\<rparr>)"
  shows "wp (init_vdec_decoder api) Q s"
  unfolding init_vdec_decoder_def wp_bind [of "call _ (VNew _)"]
proof (rule wp_VNew [OF assms(1)], goal_cases)
  case (1 r tr)
  then show ?case by (simp add: wp_rules assms(3))
next
  case (2 v tr)
  have start: "wp (call api (VStart V_decoder (fst v))) (\<lambda>r. wp (if fst r \<noteq> QCAP_RS_SUCCESSFUL then do {
       call api (VDelete V_decoder (fst v));
       modify (\<lambda>s. s\<lparr>vdec := 0\<rparr>);
       ret (- 1) }
     else do { modify (\<lambda>s. s\<lparr>vdec_started := True\<rparr>); ret 0 }) Q) (s\<lparr>trace := tr', vdec := fst v\<rparr>)"
    if "v_ledger tr' = Some (add_mset (V_obj V_decoder (fst v)) M)" for tr'
    by (rule wp_VStart [where M = "add_mset (V_obj V_decoder (fst v)) M"])
      (use 2 that assms(2,3) in \<open>auto simp: wp_rules tracked_def trace_first ac_simps intro!: wp_VDelete [where M = M]\<close>)
  show ?case
    unfolding wp_bind wp_modify wp_if wp_get if_not_P [OF 2(1)]
    by (rule wp_VSet)+ (use 2 in \<open>simp add: trace_first start [unfolded wp_bind wp_modify wp_if]\<close>)
qed

lemma async_ready_simps [simp]:
  "trace (async_ready s ev h p) = trace s" "(async_ready s ev h p)\<lparr>trace := tr\<rparr> = async_ready (s\<lparr>trace := tr\<rparr>) ev h p"
  "(async_ready s ev h p)\<lparr>vdec := v\<rparr> = async_ready (s\<lparr>vdec := v\<rparr>) ev h p"
  "(async_ready s ev h p)\<lparr>vdec_started := b\<rparr> = async_ready (s\<lparr>vdec_started := b\<rparr>) ev h p"
  "async_cleared (async_ready s ev h p) = async_cleared s"
  by (simp_all add: async_ready_def async_cleared_def)

lemma wp_start_decoder:
  assumes "v_ledger (trace s) = Some M" and "async_none s"
    and "\<And>tr ev h p v. ev \<noteq> 0 \<Longrightarrow> h \<noteq> 0 \<Longrightarrow> p \<noteq> 0 \<Longrightarrow> v \<noteq> 0 \<Longrightarrow>
        v_ledger tr = Some (M + {#V_obj V_event ev, V_obj V_handlers h, V_obj V_pool p, V_obj V_decoder v, V_running V_decoder v#}) \<Longrightarrow>
        Q True (async_ready (s\<lparr>trace := tr, vdec := v, vdec_started := True\<rparr>) ev h p)"
    and "\<And>tr v. v = vdec s \<or> v = 0 \<Longrightarrow> v_ledger tr = Some M \<Longrightarrow> Q False (async_cleared (s\<lparr>trace := tr, vdec := v\<rparr>))"
  shows "wp (start_decoder api) Q s"
  unfolding start_decoder_def wp_bind
proof (rule wp_SetupVdecAsync [OF assms(1,2)], goal_cases)
  case (1 tr ev h p)
  note a = this
  have ready: "wp (if \<not> True then StopVdecAsync api else ret ()) (\<lambda>x. Q True)
      ((async_ready (s\<lparr>trace := tr\<rparr>) ev h p)\<lparr>trace := tr', vdec := v, vdec_started := True\<rparr>)"
    if "v \<noteq> 0" "v_ledger tr' = Some (M + obj_res V_event ev + obj_res V_handlers h + obj_res V_pool p +
      {#V_obj V_decoder v, V_running V_decoder v#})" for tr' v
    using assms(3) [OF a(1-3) that(1), of tr'] that a(1-3)
    by (simp add: wp_return obj_res_def)
  show ?case
    unfolding if_P [OF refl] wp_bind wp_return
  proof (rule wp_init_vdec_decoder [where M = "M + obj_res V_event ev + obj_res V_handlers h + obj_res V_pool p"], goal_cases)
    case (3 tr')
    have "wp (StopVdecAsync api) (\<lambda>_. Q False) (async_ready (s\<lparr>trace := tr', vdec := 0\<rparr>) ev h p)"
      by (rule wp_StopVdecAsync [where M = M])
        (use 3 assms(4) [of 0] in \<open>simp_all add: async_res_def async_ready_def async_cleared_def trace_first ac_simps\<close>)
    then show ?case by simp
  qed (use a ready in \<open>simp_all add: wp_return\<close>)
next
  case (2 tr b)
  have "wp (StopVdecAsync api) (\<lambda>_. Q False) ((async_cleared (s\<lparr>trace := tr\<rparr>))\<lparr>vdec_init_done := b\<rparr>)"
    by (rule wp_StopVdecAsync [where M = M])
      (use 2 assms(4) [of "vdec s"] in \<open>simp_all add: async_res_def async_cleared_def obj_res_def trace_first\<close>)
  then show ?case by (auto simp: wp_bind wp_return elim!: wp_conseq)
qed

section \<open>The display\<close>

text \<open>
  The kernel interface of the display behaves as in Drm_Output, whatever else has been called.
\<close>

definition display_results :: "vcall api \<Rightarrow> bool" where
  "display_results api \<longleftrightarrow> (\<forall>tr. drm_results (\<lambda>_ q. api tr (Drm q)))"

lemma inner_results:
  assumes "display_results api" and "\<forall>tr c. \<exists>h. api' tr c = api h (Drm c)"
  shows "drm_results api'"
proof -
  have "\<exists>f. drm_results f \<and> api' tr c = f [] c" for tr c
    using assms unfolding display_results_def by metis
  then show ?thesis
    unfolding drm_results_def kernel_ids_def nonzero_ids_def by (metis (no_types, lifting))
qed

lemma ledger_drm: "v_ledger (map (\<lambda>(c, r). (Drm c, r)) new @ tr) = v_ledger tr"
  by (induction new) (auto split: option.split)

lemma wp_on_screen:
  assumes "\<And>api'. (\<forall>tr c. \<exists>h. api' tr c = api h (Drm c)) \<Longrightarrow> wp (prog api') P (disp_of (screen s))"
    and "\<And>a d tr. P a d \<Longrightarrow> v_ledger tr = v_ledger (trace s) \<Longrightarrow> Q a (s\<lparr>trace := tr, screen := Screen d\<rparr>)"
  shows "wp (on_screen api prog) Q s"
  unfolding on_screen_def by (rule wp_embed_at [where P = P]) (use assms in \<open>simp_all add: ledger_drm\<close>)

text \<open>What an operation on the display changes.\<close>

definition shown :: "rx_video \<Rightarrow> rx_video \<Rightarrow> bool" where
  "shown s t \<longleftrightarrow> (\<exists>tr d k b. t = s\<lparr>trace := tr, screen := Screen d, vdec_sink := k, vdec_sink_started := b\<rparr> \<and>
     same_source (disp_of (screen s)) d \<and> screen_inv t \<and>
     (\<forall>M. v_ledger (trace s) = Some (M + sink_res s) \<longrightarrow> v_ledger tr = Some (M + sink_res t)))"

lemma same_source_refl [simp]: "same_source d d"
  by (simp add: same_source_def)

lemma same_source_trans: "same_source a b \<Longrightarrow> same_source b c \<Longrightarrow> same_source a c"
  by (simp add: same_source_def)

lemma shown_refl: "screen_inv s \<Longrightarrow> shown s s"
  unfolding shown_def
  by (rule exI [of _ "trace s"], rule exI [of _ "disp_of (screen s)"], rule exI [of _ "vdec_sink s"],
      rule exI [of _ "vdec_sink_started s"]) (cases s, simp)

lemma shown_trans: "shown s t \<Longrightarrow> shown t u \<Longrightarrow> shown s u"
  unfolding shown_def
  apply (elim exE conjE)
  subgoal for tr tr' d d' k k' b b'
    by (rule exI [of _ tr'], rule exI [of _ d'], rule exI [of _ k'], rule exI [of _ b'])
      (auto intro: same_source_trans)
  done

lemma started_only_buffers:
  assumes "started api L e d r t" and "\<forall>x \<in># L. \<exists>h. x = D_bo h"
  shows "same_source d t \<and> (r = 0 \<longrightarrow> rx_drm_modeset_active t) \<and> (\<exists>L. (\<forall>x \<in># L. \<exists>h. x = D_bo h) \<and> disp_inv L t)"
proof (cases "r = 0")
  case True
  then have "disp_inv L t" "same_source d t" "rx_drm_modeset_active t" using assms(1) by (simp_all add: started_def)
  then show ?thesis using assms(2) by blast
next
  case False
  then obtain O1 where o: "orphan api O1" "disp_inv (L + O1) t" "same_source d t"
    using assms(1) unfolding started_def by blast
  have "\<forall>x \<in># L + O1. \<exists>h. x = D_bo h" using assms(2) o(1) by (auto simp: orphan_def)
  then show ?thesis using o False by blast
qed

lemma wp_display_on:
  assumes "display_results api" and "screen_inv s"
  shows "wp (on_screen api (\<lambda>d. start_drm_output d e)) (\<lambda>r t. shown s t \<and> vdec_sink t = vdec_sink s \<and>
    (r = 0 \<longrightarrow> rx_drm_modeset_active (disp_of (screen t)))) s"
proof -
  obtain L where L: "\<forall>x \<in># L. \<exists>h. x = D_bo h" "disp_inv L (disp_of (screen s))"
    using assms(2) unfolding screen_inv_def by blast
  let ?P = "\<lambda>r d. same_source (disp_of (screen s)) d \<and> (r = 0 \<longrightarrow> rx_drm_modeset_active d) \<and>
    (\<exists>L. (\<forall>x \<in># L. \<exists>h. x = D_bo h) \<and> disp_inv L d)"
  show ?thesis
  proof (rule wp_on_screen [where P = ?P])
    fix api' :: "drm_call api"
    assume "\<forall>tr c. \<exists>h. api' tr c = api h (Drm c)"
    then have "drm_results api'" using assms(1) by (rule inner_results [rotated])
    then show "wp (start_drm_output api' e) ?P (disp_of (screen s))"
      by (rule wp_conseq [OF wp_start_output [OF _ L(2)]]) (rule started_only_buffers [OF _ L(1)])
  next
    fix r d tr
    assume d: "?P r d" and tr: "v_ledger tr = v_ledger (trace s)"
    then have "shown s (s\<lparr>trace := tr, screen := Screen d\<rparr>)"
      using assms(2) unfolding shown_def
      by (intro exI [of _ tr] exI [of _ d] exI [of _ "vdec_sink s"] exI [of _ "vdec_sink_started s"])
        (auto simp: screen_inv_def sink_res_def)
    then show "shown s (s\<lparr>trace := tr, screen := Screen d\<rparr>) \<and> vdec_sink (s\<lparr>trace := tr, screen := Screen d\<rparr>) = vdec_sink s \<and>
        (r = 0 \<longrightarrow> rx_drm_modeset_active (disp_of (screen (s\<lparr>trace := tr, screen := Screen d\<rparr>))))"
      using d by simp
  qed
qed

lemma wp_display_off:
  assumes "screen_inv s"
  shows "wp (on_screen api (\<lambda>d. stop_drm_output d e)) (\<lambda>_ t. shown s t \<and> vdec_sink t = vdec_sink s \<and>
    output_off (disp_of (screen t))) s"
proof -
  obtain L where L: "\<forall>x \<in># L. \<exists>h. x = D_bo h" "disp_inv L (disp_of (screen s))"
    using assms unfolding screen_inv_def by blast
  show ?thesis
  proof (rule wp_on_screen [where P = "\<lambda>_. stopped L e (disp_of (screen s))"])
    fix api' :: "drm_call api"
    show "wp (stop_drm_output api' e) (\<lambda>_. stopped L e (disp_of (screen s))) (disp_of (screen s))"
      by (rule wp_stop_output [OF disp_inv_ok [OF L(2)]])
  next
    fix r d tr
    assume d: "stopped L e (disp_of (screen s)) d" and tr: "v_ledger tr = v_ledger (trace s)"
    then have "shown s (s\<lparr>trace := tr, screen := Screen d\<rparr>)"
      using assms L(1) unfolding shown_def
      by (intro exI [of _ tr] exI [of _ d] exI [of _ "vdec_sink s"] exI [of _ "vdec_sink_started s"])
        (auto simp: screen_inv_def sink_res_def stopped_def)
    then show "shown s (s\<lparr>trace := tr, screen := Screen d\<rparr>) \<and> vdec_sink (s\<lparr>trace := tr, screen := Screen d\<rparr>) = vdec_sink s \<and>
        output_off (disp_of (screen (s\<lparr>trace := tr, screen := Screen d\<rparr>)))"
      using d by (simp add: stopped_def)
  qed
qed

lemma shownI:
  assumes "screen_inv s" and "k \<noteq> 0 \<longleftrightarrow> b"
    and "\<And>M. v_ledger (trace s) = Some (M + sink_res s) \<Longrightarrow>
      v_ledger tr = Some (M + (obj_res V_sink k + run_res V_sink b k))"
  shows "shown s (s\<lparr>trace := tr, vdec_sink := k, vdec_sink_started := b\<rparr>)"
  unfolding shown_def
  by (rule exI [of _ tr], rule exI [of _ "disp_of (screen s)"], rule exI [of _ k], rule exI [of _ b])
    (use assms in \<open>simp add: screen_inv_def sink_res_def trace_first\<close>)

lemma no_sink: "screen_inv s \<Longrightarrow> \<not> vdec_sink_started s \<Longrightarrow> vdec_sink s = 0 \<and> sink_res s = {#}"
  by (auto simp: screen_inv_def sink_res_def obj_res_def run_res_def)

lemma shown_trace:
  assumes "screen_inv s" and "v_ledger tr = v_ledger (trace s)"
  shows "shown s (s\<lparr>trace := tr\<rparr>)"
proof -
  have "shown s (s\<lparr>trace := tr, vdec_sink := vdec_sink s, vdec_sink_started := vdec_sink_started s\<rparr>)"
    by (rule shownI) (use assms in \<open>simp_all add: screen_inv_def sink_res_def\<close>)
  then show ?thesis by simp
qed

lemma wp_drop_sink:
  assumes "screen_inv s" and "v_ledger (trace s) = Some M" and "v_ledger tr = Some (add_mset (V_obj V_sink k) M)"
  shows "wp (drop_sink api k) (\<lambda>r t. shown s t \<and> (r = 0 \<longrightarrow> vdec_sink_started t) \<and>
    disp_of (screen t) = disp_of (screen s)) (s\<lparr>trace := tr\<rparr>)"
  unfolding drop_sink_def wp_bind
  by (rule wp_VDelete [where M = M]) (use assms in \<open>simp_all add: wp_return shown_trace\<close>)

lemma trace_twice: "s\<lparr>trace := a, trace := b\<rparr> = s\<lparr>trace := (b :: vcall event list)\<rparr>"
  by simp

lemma if_intro: "(c \<Longrightarrow> P) \<Longrightarrow> (\<not> c \<Longrightarrow> R) \<Longrightarrow> (if c then P else R)"
  by simp

lemma wp_start_vdec_sink:
  assumes "screen_inv s" and "v_ledger (trace s) = Some M"
  shows "wp (start_vdec_sink api) (\<lambda>r t. shown s t \<and> (r = 0 \<longrightarrow> vdec_sink_started t) \<and>
    disp_of (screen t) = disp_of (screen s)) s"
proof (cases "vdec_sink_started s")
  case True
  then show ?thesis using assms by (simp add: start_vdec_sink_def wp_rules shown_refl)
next
  case False
  let ?Q = "\<lambda>r t. shown s t \<and> (r = 0 \<longrightarrow> vdec_sink_started t) \<and> disp_of (screen t) = disp_of (screen s)"
  have drop: "wp (drop_sink api k) ?Q (s\<lparr>trace := tr\<rparr>)"
    if "v_ledger tr = Some (add_mset (V_obj V_sink k) M)" for tr k
    by (rule wp_drop_sink [OF assms that])
  show ?thesis
    unfolding start_vdec_sink_def wp_bind [of State_Monad.get] wp_get if_not_P [OF False] Let_def
      wp_bind [of "call _ (VNew _)"]
  proof (rule wp_VNew [OF assms(2)], goal_cases)
    case (1 r tr)
    then show ?case
      using assms False by (auto simp: wp_return intro!: shown_trace)
  next
    case (2 v tr)
    have run: "wp (call api (VStart V_sink (fst v))) (\<lambda>r. wp (if fst r \<noteq> QCAP_RS_SUCCESSFUL then drop_sink api (fst v) else do {
        modify (\<lambda>s. s\<lparr>vdec_sink := fst v, vdec_sink_started := True\<rparr>);
        ret 0 }) ?Q) (s\<lparr>trace := tr'\<rparr>)"
      if "v_ledger tr' = Some (add_mset (V_obj V_sink (fst v)) M)" for tr'
    proof (rule wp_VStart [where M = "add_mset (V_obj V_sink (fst v)) M"], goal_cases)
      case (4 r tr'')
      have "shown s (s\<lparr>trace := tr'', vdec_sink := fst v, vdec_sink_started := True\<rparr>)"
        by (rule shownI)
          (use 2 4 assms no_sink [OF assms(1) False] in \<open>simp_all add: obj_res_def run_res_def add_mset_commute\<close>)
      then show ?case using 4 by (simp add: wp_rules)
    qed (use that drop in \<open>simp_all add: tracked_def\<close>)
    show ?case
      unfolding if_not_P [OF 2(1)] wp_bind wp_if
      by (rule wp_VSet if_intro drop run [unfolded wp_bind wp_if] | simp only: trace_twice | (simp add: 2; fail))+
  qed
qed

lemma wp_stop_vdec_sink:
  assumes "screen_inv s" and "v_ledger (trace s) = Some (M + sink_res s)"
  shows "wp (stop_vdec_sink api) (\<lambda>_ t. shown s t \<and> vdec_sink t = 0) s"
proof -
  have out: "shown s (s\<lparr>trace := tr, vdec_sink := 0, vdec_sink_started := False\<rparr>)" if "v_ledger tr = Some M" for tr
    by (rule shownI) (use assms that in \<open>simp_all add: obj_res_def run_res_def\<close>)
  show ?thesis
  proof (cases "vdec_sink_started s")
    case True
    then have k: "vdec_sink s \<noteq> 0" "v_ledger (trace s) = Some (add_mset (V_running V_sink (vdec_sink s))
        (add_mset (V_obj V_sink (vdec_sink s)) M))"
      using assms by (auto simp: screen_inv_def sink_res_def obj_res_def run_res_def)
    show ?thesis
      unfolding stop_vdec_sink_def wp_bind wp_get wp_if
      using True k(1) by (simp, intro wp_VStop [OF k(2)])
        (auto simp: tracked_def wp_rules trace_first intro!: wp_VDelete [where M = M] out)
  next
    case False
    then have z: "vdec_sink s = 0" "v_ledger (trace s) = Some M"
      using no_sink [OF assms(1) False] assms(2) by simp_all
    have eq: "s\<lparr>vdec_sink := 0, vdec_sink_started := False\<rparr> = s\<lparr>vdec_sink_started := False\<rparr>"
      using z(1) by (cases s) simp
    have "shown s (s\<lparr>vdec_sink := 0, vdec_sink_started := False\<rparr>)" using out [OF z(2)] by simp
    then show ?thesis unfolding eq using z(1) by (simp add: stop_vdec_sink_def wp_rules)
  qed
qed

lemma shown_ledger: "shown s t \<Longrightarrow> v_ledger (trace s) = Some (M + sink_res s) \<Longrightarrow> v_ledger (trace t) = Some (M + sink_res t)"
  by (auto simp: shown_def)

lemma shown_inv: "shown s t \<Longrightarrow> screen_inv t"
  by (auto simp: shown_def)

lemma shown_same:
  assumes "shown s t"
  shows "vdec t = vdec s" "vdec_started t = vdec_started s" "vdec_event t = vdec_event s"
    "vdec_event_handlers t = vdec_event_handlers s" "vdec_packet_pool t = vdec_packet_pool s"
    "decoder_initializing t = decoder_initializing s" "extra_data t = extra_data s"
    "h264_input_parsed t = h264_input_parsed s" "display_enabled t = display_enabled s" "same_source (disp_of (screen s)) (disp_of (screen t))"
  using assms by (auto simp: shown_def)

lemma shown_res:
  assumes "shown s t"
  shows "async_res t = async_res s" "vdec_res t = vdec_res s" "configured t = configured s" "async_none t = async_none s"
  using shown_same [OF assms]
  by (auto simp: async_res_def vdec_res_def configured_def async_none_def same_source_def)

lemma wp_stop_vdec_display:
  assumes "screen_inv s" and "v_ledger (trace s) = Some (M + sink_res s)"
  shows "wp (stop_vdec_display api e) (\<lambda>_ t. shown s t \<and> vdec_sink t = 0 \<and> output_off (disp_of (screen t))) s"
  unfolding stop_vdec_display_def wp_bind
proof (rule wp_conseq [OF wp_stop_vdec_sink [OF assms]], elim conjE)
  fix t :: rx_video
  assume t: "shown s t" "vdec_sink t = 0"
  show "wp (on_screen api (\<lambda>a. stop_drm_output a e)) (\<lambda>_ t. shown s t \<and> vdec_sink t = 0 \<and> output_off (disp_of (screen t))) t"
    by (rule wp_conseq [OF wp_display_off [OF shown_inv [OF t(1)]]]) (use t in \<open>auto intro: shown_trans\<close>)
qed

lemma wp_start_display:
  assumes "display_results api" and "screen_inv s" and "v_ledger (trace s) = Some (M + sink_res s)"
  shows "wp (start_display api e) (\<lambda>r t. shown s t \<and>
    (r \<longrightarrow> rx_drm_modeset_active (disp_of (screen t)) \<and> vdec_sink_started t)) s"
  unfolding start_display_def wp_bind
proof (rule wp_conseq [OF wp_display_on [OF assms(1,2)]], elim conjE)
  fix a :: int and t :: rx_video
  assume t: "shown s t" "a = 0 \<longrightarrow> rx_drm_modeset_active (disp_of (screen t))"
  have "wp (start_vdec_sink api) (\<lambda>b u. shown s u \<and> (b = 0 \<longrightarrow> vdec_sink_started u) \<and>
      disp_of (screen u) = disp_of (screen t)) t"
    by (rule wp_conseq [OF wp_start_vdec_sink [OF shown_inv [OF t(1)] shown_ledger [OF t(1) assms(3)]]])
      (use t in \<open>auto intro: shown_trans\<close>)
  note sink = this
  show "wp (if a \<noteq> 0 then ret False else do { b \<leftarrow> start_vdec_sink api; ret (b = 0) })
      (\<lambda>r t. shown s t \<and> (r \<longrightarrow> rx_drm_modeset_active (disp_of (screen t)) \<and> vdec_sink_started t)) t"
  proof (cases "a = 0")
    case True
    then show ?thesis
      using t by (auto simp: wp_bind wp_return intro: wp_conseq [OF sink])
  qed (use t in \<open>simp add: wp_return\<close>)
qed

section \<open>The decoder thread and the stop\<close>

text \<open>What the thread leaves: no start is outstanding, and a running decoder has its display.\<close>

definition thread_done :: "rx_video \<Rightarrow> rx_video \<Rightarrow> bool" where
  "thread_done s t \<longleftrightarrow> video_inv t \<and> \<not> decoder_initializing t \<and> extra_data t = extra_data s \<and>
     h264_input_parsed t = h264_input_parsed s \<and>
     same_source (disp_of (screen s)) (disp_of (screen t)) \<and>
     (vdec_started t \<and> display_enabled s \<longrightarrow> rx_drm_modeset_active (disp_of (screen t)) \<and> vdec_sink_started t)"

lemma initializing_none:
  assumes "video_inv s" and "decoder_initializing s"
  shows "vdec s = 0" "\<not> vdec_started s" "async_none s" "screen_inv s" "configured s" "v_ledger (trace s) = Some (sink_res s)"
  using assms by (auto simp: video_inv_def video_res_def async_none_def async_res_def vdec_res_def obj_res_def
      run_res_def split: if_splits)

lemma wp_thread_decoder:
  assumes "video_inv s" and "decoder_initializing s" and t: "shown s t"
    and "display_enabled s \<longrightarrow> rx_drm_modeset_active (disp_of (screen t)) \<and> vdec_sink_started t"
  shows "wp (start_decoder api) (\<lambda>ready u. \<forall>w. thread_done s (u\<lparr>decoder_wait_for_idr := w, decoder_initializing := False\<rparr>)) t"
proof -
  note z = initializing_none [OF assms(1,2)]
  have l: "v_ledger (trace t) = Some (sink_res t)" using shown_ledger [OF t, of "{#}"] z(6) by simp
  note same = shown_same [OF t] shown_res [OF t] shown_inv [OF t]
  show ?thesis
    by (rule wp_start_decoder [OF l])
      (use z same assms(2,4) in \<open>auto simp: thread_done_def video_inv_def video_res_def async_res_def vdec_res_def sink_res_def
        obj_res_def run_res_def async_ready_def async_cleared_def async_none_def screen_inv_def configured_def ac_simps\<close>)
qed

lemma wp_decoder_init_thread:
  assumes "display_results api" and "video_inv s" and "decoder_initializing s"
  shows "wp (decoder_init_thread api e) (\<lambda>_. thread_done s) s"
proof -
  note z = initializing_none [OF assms(2,3)]
  let ?finish = "\<lambda>ready. modify (\<lambda>t. t\<lparr>decoder_wait_for_idr := (if ready then decoder_wait_for_idr t else False),
       decoder_initializing := False\<rparr>)"
  have refused: "thread_done s (t\<lparr>decoder_wait_for_idr := b, decoder_initializing := False\<rparr>)" if t: "shown s t" for t b
    using shown_ledger [OF t, of "{#}"] z shown_same [OF t] shown_res [OF t] shown_inv [OF t]
    by (simp add: thread_done_def video_inv_def video_res_def async_res_def vdec_res_def sink_res_def obj_res_def run_res_def
        async_none_def screen_inv_def configured_def)
  have decoder: "wp (do { ready \<leftarrow> (if ok then start_decoder api else ret False); ?finish ready }) (\<lambda>_. thread_done s) t"
    if "shown s t" "ok \<and> display_enabled s \<longrightarrow> rx_drm_modeset_active (disp_of (screen t)) \<and> vdec_sink_started t" for ok t
  proof (cases ok)
    case True
    have "wp (start_decoder api) (\<lambda>ready u. thread_done s
        (u\<lparr>decoder_wait_for_idr := (if ready then decoder_wait_for_idr u else False), decoder_initializing := False\<rparr>)) t"
      by (rule wp_conseq [OF wp_thread_decoder [OF assms(2,3) that(1)]]) (use that True in simp_all)
    from wp_conseq [OF this] show ?thesis using True by (simp add: wp_bind wp_modify)
  next
    case False
    then show ?thesis using refused [OF that(1)] by (simp add: wp_rules)
  qed
  show ?thesis
  proof (cases "display_enabled s")
    case True
    have "wp (start_display api e) (\<lambda>r t. shown s t \<and> (r \<longrightarrow> rx_drm_modeset_active (disp_of (screen t)) \<and> vdec_sink_started t)) s"
      by (rule wp_start_display [OF assms(1) z(4), of "{#}"]) (simp add: z(6))
    then show ?thesis
      unfolding decoder_init_thread_def wp_bind [of State_Monad.get] wp_get if_P [OF True] wp_bind [of "start_display _ _"]
      by (rule wp_conseq) (rule decoder, simp_all)
  next
    case False
    have "wp (do { ready \<leftarrow> (if True then start_decoder api else ret False); ?finish ready }) (\<lambda>_. thread_done s) s"
      by (rule decoder) (use False shown_refl [OF z(4)] in simp_all)
    then show ?thesis
      unfolding decoder_init_thread_def wp_bind [of State_Monad.get] wp_get if_not_P [OF False] wp_bind [of "ret _"] wp_return .
  qed
qed

text \<open>What the stop leaves: no decoder and no outstanding start.\<close>

definition halted :: "rx_video \<Rightarrow> rx_video \<Rightarrow> bool" where
  "halted s t \<longleftrightarrow> video_inv t \<and> vdec t = 0 \<and> \<not> vdec_started t \<and> \<not> decoder_initializing t \<and> extra_data t = extra_data s \<and>
     h264_input_parsed t = h264_input_parsed s \<and> same_source (disp_of (screen s)) (disp_of (screen t))"

lemma wp_get_bind: "wp (State_Monad.bind State_Monad.get f) Q s = wp (f s) Q s"
  by (simp add: wp_rules)

lemma wp_halt:
  assumes "video_inv s" and "\<not> decoder_initializing s"
  shows "wp (do {
     s \<leftarrow> State_Monad.get;
     drop_object api V_handlers (vdec_event_handlers s) (\<lambda>s. s\<lparr>vdec_event_handlers := 0\<rparr>);
     (if vdec s \<noteq> 0 then do {
        (if vdec_started s then do { call api (VStop V_decoder (vdec s)); ret () } else ret ());
        call api (VDelete V_decoder (vdec s));
        modify (\<lambda>s. s\<lparr>vdec := 0, vdec_started := False\<rparr>) } else ret ());
     StopVdecAsync api }) (\<lambda>_. halted s) s"
proof -
  have l: "v_ledger (trace s) = Some (sink_res s + vdec_res s + obj_res V_event (vdec_event s) +
      obj_res V_pool (vdec_packet_pool s) + obj_res V_handlers (vdec_event_handlers s))"
    using assms(1) by (simp add: video_inv_def video_res_def async_res_def ac_simps)
  have final: "wp (StopVdecAsync api) (\<lambda>_. halted s) (s\<lparr>trace := tr, vdec_event_handlers := 0, vdec := 0, vdec_started := False\<rparr>)"
    if "v_ledger tr = Some (sink_res s + obj_res V_event (vdec_event s) + obj_res V_pool (vdec_packet_pool s))" for tr
    by (rule wp_StopVdecAsync [where M = "sink_res s"])
      (use that assms in \<open>simp_all add: halted_def video_inv_def video_res_def async_res_def vdec_res_def sink_res_def
        obj_res_def run_res_def async_cleared_def async_none_def screen_inv_def configured_def ac_simps\<close>)
  show ?thesis
    unfolding wp_bind [of State_Monad.get] wp_get wp_bind [of "drop_object _ _ _ _"]
  proof (rule wp_drop_object [OF l], goal_cases)
    case (3 tr)
    note l3 = this
    show ?case
    proof (cases "vdec_started s")
      case True
      then have v: "vdec s \<noteq> 0" using assms(1) by (simp add: video_inv_def)
      have l4: "v_ledger tr = Some (add_mset (V_running V_decoder (vdec s)) (add_mset (V_obj V_decoder (vdec s))
          (sink_res s + obj_res V_event (vdec_event s) + obj_res V_pool (vdec_packet_pool s))))"
        using l3 True v by (simp add: vdec_res_def obj_res_def run_res_def)
      show ?thesis
        unfolding wp_bind wp_if wp_modify wp_return using True v
        by (simp add: l4 tracked_def trace_first, intro wp_VStop)
          (auto simp: l4 tracked_def trace_first intro!: wp_VDelete final)
    next
      case False
      then have v: "vdec s = 0" using assms(1) by (simp add: video_inv_def)
      have eq: "s\<lparr>trace := tr, vdec_event_handlers := 0, vdec := 0, vdec_started := False\<rparr> =
          s\<lparr>trace := tr, vdec_event_handlers := 0\<rparr>" using False v by (cases s) simp
      have "wp (StopVdecAsync api) (\<lambda>_. halted s) (s\<lparr>trace := tr, vdec_event_handlers := 0, vdec := 0, vdec_started := False\<rparr>)"
        by (rule final) (use l3 False v in \<open>simp add: vdec_res_def obj_res_def run_res_def\<close>)
      then show ?thesis unfolding eq using v by (simp add: wp_rules)
    qed
  qed (simp_all add: tracked_def forget_none)
qed

lemma wp_stop_vdec_decoder:
  assumes "display_results api" and "video_inv s"
  shows "wp (stop_vdec_decoder api e) (\<lambda>_. halted s) s"
proof (cases "decoder_initializing s")
  case True
  show ?thesis
    unfolding stop_vdec_decoder_def wp_get_bind
      if_P [OF True] wp_bind [of "decoder_init_thread _ _"]
  proof (rule wp_conseq [OF wp_decoder_init_thread [OF assms True]], goal_cases)
    case (1 a t)
    then have "video_inv t" "\<not> decoder_initializing t" by (simp_all add: thread_done_def)
    then show ?case
      by (rule wp_conseq [OF wp_halt [unfolded wp_get_bind]]) (use 1 in \<open>auto simp: thread_done_def halted_def intro: same_source_trans\<close>)
  qed
next
  case False
  show ?thesis
    unfolding stop_vdec_decoder_def wp_get_bind
      if_not_P [OF False] wp_bind [of "ret _"] wp_return
    by (rule wp_halt [OF assms(2) False, unfolded wp_get_bind])
qed

lemma halted_facts:
  assumes "halted s t"
  shows "async_none t" "screen_inv t" "v_ledger (trace t) = Some ({#} + sink_res t)"
    "vdec t = 0" "\<not> vdec_started t" "\<not> decoder_initializing t" "extra_data t = extra_data s"
    "h264_input_parsed t = h264_input_parsed s" "same_source (disp_of (screen s)) (disp_of (screen t))"
proof -
  show n: "async_none t" using assms by (simp add: halted_def video_inv_def)
  show "v_ledger (trace t) = Some ({#} + sink_res t)"
    using assms n by (simp add: halted_def video_inv_def video_res_def async_res_def vdec_res_def obj_res_def run_res_def async_none_def)
qed (use assms in \<open>auto simp: halted_def video_inv_def\<close>)

lemma wp_stop_video:
  assumes "display_results api" and "video_inv s"
  shows "wp (stop_video api e) (\<lambda>_ t. halted s t \<and> vdec_sink t = 0 \<and> output_off (disp_of (screen t))) s"
  unfolding stop_video_def wp_bind
proof (rule wp_conseq [OF wp_stop_vdec_decoder [OF assms]], goal_cases)
  case (1 a t)
  note t = halted_facts [OF \<open>halted s t\<close>]
  show ?case
  proof (rule wp_conseq [OF wp_stop_vdec_display [OF t(2,3)]], goal_cases)
    case (1 b u)
    then have u: "shown t u" by simp
    have "video_inv u"
      using shown_ledger [OF u t(3)] shown_same [OF u] shown_res [OF u] shown_inv [OF u] t(1,4-6)
      by (simp add: video_inv_def video_res_def async_res_def vdec_res_def obj_res_def run_res_def async_none_def)
    then show ?case
      using 1 shown_same [OF u] t(4-9) by (auto simp: halted_def intro: same_source_trans)
  qed
qed

lemma stopped_empty:
  assumes "halted s t" and "vdec_sink t = 0"
  shows "v_ledger (trace t) = Some {#}"
  using halted_facts(2,3) [OF assms(1)] assms(2) by (simp add: screen_inv_def sink_res_def obj_res_def run_res_def)

lemma screen_off_ledger:
  assumes "halted s t" and "output_off (disp_of (screen t))"
  shows "\<exists>L. drm_ledger (trace (disp_of (screen t))) = Some L \<and> (\<forall>x \<in># L. \<exists>h. x = D_bo h)"
  using halted_facts(2) [OF assms(1)] assms(2)
  by (auto simp: screen_inv_def disp_inv_def output_off_def disp_res_def fb_res_def blob_res_def dev_res_def)

section \<open>Every operation keeps the invariant\<close>

interpretation kept: step_relation "\<lambda>s t. video_inv s \<longrightarrow> video_inv t"
  by unfold_locales auto

abbreviation vkeeps :: "'a rv \<Rightarrow> bool" where "vkeeps \<equiv> stays (\<lambda>s t. video_inv s \<longrightarrow> video_inv t)"

lemma vkeepsI: "(\<And>s. video_inv s \<Longrightarrow> wp m (\<lambda>_. video_inv) s) \<Longrightarrow> vkeeps m"
  unfolding stays_def by (simp add: wp_run)

lemma vkeepsD: "vkeeps m \<Longrightarrow> video_inv s \<Longrightarrow> wp m (\<lambda>_. video_inv) s"
  unfolding stays_def by (simp add: wp_run)

text \<open>The counters are not in the invariant.\<close>

lemma video_inv_counters [simp]:
  "video_inv (s\<lparr>decoder_dropped_packets := n\<rparr>) = video_inv s" "video_inv (s\<lparr>packet_pool_dropped_packets := n\<rparr>) = video_inv s"
  "video_inv (s\<lparr>decoded_errors := n\<rparr>) = video_inv s" "video_inv (s\<lparr>decoder_pushed_packets := n\<rparr>) = video_inv s"
  "video_inv (s\<lparr>decoder_push_failed_packets := n\<rparr>) = video_inv s" "video_inv (s\<lparr>decoded_frames := n\<rparr>) = video_inv s"
  "video_inv (s\<lparr>decoder_display_errors := n\<rparr>) = video_inv s" "video_inv (s\<lparr>decoder_input_packets := n\<rparr>) = video_inv s"
  "video_inv (s\<lparr>no_sps_count := n\<rparr>) = video_inv s" "video_inv (s\<lparr>video_stats := v\<rparr>) = video_inv s"
  "video_inv (s\<lparr>decoder_wait_for_idr := b\<rparr>) = video_inv s" "video_inv (s\<lparr>reconstructed_file := b\<rparr>) = video_inv s"
  by (simp_all add: video_inv_def video_res_def async_res_def vdec_res_def sink_res_def screen_inv_def configured_def
      async_none_def)

lemma video_inv_trace: "video_inv s \<Longrightarrow> v_ledger tr = v_ledger (trace s) \<Longrightarrow> video_inv (s\<lparr>trace := tr\<rparr>)"
  by (simp add: video_inv_def video_res_def async_res_def vdec_res_def sink_res_def screen_inv_def configured_def async_none_def)

lemma vkeeps_call:
  assumes "v_rel c = None" and "\<And>r. v_acq c r = None"
  shows "vkeeps (call api c)"
  by (rule vkeepsI, unfold wp_call, erule video_inv_trace) (simp add: assms split: option.split)

lemma vkeeps_modify: "(\<And>s. video_inv s \<Longrightarrow> video_inv (f s)) \<Longrightarrow> vkeeps (modify f)"
  by (rule vkeepsI) (simp add: wp_modify)

lemma vkeeps_if: "(b \<Longrightarrow> vkeeps m) \<Longrightarrow> (\<not> b \<Longrightarrow> vkeeps n) \<Longrightarrow> vkeeps (if b then m else n)"
  by simp

lemmas vkeeps_intros = kept.ret kept.get kept.bind vkeeps_modify vkeeps_if vkeeps_call

lemma wp_neutral:
  assumes "v_rel c = None" "\<And>r. v_acq c r = None" and "\<And>r tr. v_ledger tr = v_ledger (trace s) \<Longrightarrow> Q r (s\<lparr>trace := tr\<rparr>)"
  shows "wp (call api c) Q s"
  unfolding wp_call by (rule assms(3)) (simp add: assms(1,2) split: option.split)

lemma wp_release:
  assumes "v_rel c = Some x" and "v_ledger (trace s) = Some (add_mset x M)"
    and "\<And>r tr. v_ledger tr = Some M \<Longrightarrow> Q r (s\<lparr>trace := tr\<rparr>)"
  shows "wp (call api c) Q s"
  unfolding wp_call by (rule assms(3)) (simp add: assms(1,2))

text \<open>A buffer that is given back, and a lock that is.\<close>

lemma wp_PoolGet:
  assumes "v_ledger (trace s) = Some M"
    and "\<And>r tr. fst r \<noteq> QCAP_RS_SUCCESSFUL \<or> outp r 0 = 0 \<Longrightarrow> v_ledger tr = Some M \<Longrightarrow> Q r (s\<lparr>trace := tr\<rparr>)"
    and "\<And>r tr. fst r = QCAP_RS_SUCCESSFUL \<Longrightarrow> outp r 0 \<noteq> 0 \<Longrightarrow>
      v_ledger tr = Some (add_mset (V_buf (outp r 0)) M) \<Longrightarrow> Q r (s\<lparr>trace := tr\<rparr>)"
  shows "wp (call api (PoolGet p n)) Q s"
proof (cases "fst (api (trace s) (PoolGet p n)) = QCAP_RS_SUCCESSFUL \<and> outp (api (trace s) (PoolGet p n)) 0 \<noteq> 0")
  case True
  then show ?thesis unfolding wp_call using assms(1) by (intro assms(3)) simp_all
next
  case False
  then show ?thesis unfolding wp_call using assms(1) by (intro assms(2)) auto
qed

lemma wp_LockData:
  assumes "v_ledger (trace s) = Some M"
    and "\<And>r tr. fst r = 0 \<Longrightarrow> v_ledger tr = Some M \<Longrightarrow> Q r (s\<lparr>trace := tr\<rparr>)"
    and "\<And>r tr. fst r \<noteq> 0 \<Longrightarrow> v_ledger tr = Some (add_mset (V_locked b) M) \<Longrightarrow> Q r (s\<lparr>trace := tr\<rparr>)"
  shows "wp (call api (LockData b)) Q s"
  unfolding wp_call using assms(1) by (cases "fst (api (trace s) (LockData b)) = 0") (simp_all add: assms(2,3))

lemma wp_RcRelease:
  assumes "v_ledger (trace s) = Some (add_mset (V_buf b) M)"
    and "\<And>r tr. v_ledger tr = Some M \<Longrightarrow> Q r (s\<lparr>trace := tr\<rparr>)"
  shows "wp (call api (RcRelease b)) Q s"
  by (rule wp_release [where M = M]) (use assms in simp_all)

lemma wp_UnlockData:
  assumes "v_ledger (trace s) = Some (add_mset (V_locked b) M)"
    and "\<And>r tr. v_ledger tr = Some M \<Longrightarrow> Q r (s\<lparr>trace := tr\<rparr>)"
  shows "wp (call api (UnlockData b)) Q s"
  by (rule wp_release [where M = M]) (use assms in simp_all)

lemmas wp_packet_calls = wp_neutral [of "PktGet p" for p, simplified] wp_neutral [of "PktFill p b k ts" for p b k ts, simplified]
  wp_neutral [of "DecPush v b" for v b, simplified]

lemma vkeeps_submit: "vkeeps (submit_vdec_packet api bytes key ts)"
proof (rule vkeepsI)
  fix s :: rx_video
  assume inv: "video_inv s"
  then obtain M where l: "v_ledger (trace s) = Some M" by (simp add: video_inv_def)
  have keep: "video_inv (s\<lparr>trace := tr\<rparr>)" if "v_ledger tr = Some M" for tr
    by (rule video_inv_trace [OF inv]) (simp add: that l)
  show "wp (submit_vdec_packet api bytes key ts) (\<lambda>_. video_inv) s"
    unfolding submit_vdec_packet_def wp_bind [of State_Monad.get] wp_get wp_bind [of "call _ (PoolGet _ _)"] Let_def
  proof (rule wp_PoolGet [OF l], goal_cases)
    case (1 r tr)
    then show ?case using keep by (auto simp: wp_rules)
  next
    case (2 r tr)
    let ?b = "outp r 0"
    let ?M = "add_mset (V_buf ?b) M"
    show ?case
      unfolding wp_if using 2(1,2)
    proof (simp only: simp_thms if_False, unfold wp_bind [of "call _ (LockData _)"], intro wp_LockData [where M = ?M], goal_cases)
      case 1
      then show ?case using 2 by simp
    next
      case (2 p tr')
      then show ?case
        using keep by (auto simp: wp_rules intro!: wp_RcRelease [where M = M])
    next
      case (3 p tr')
      have unlock: "wp (call api (UnlockData ?b)) Q (s\<lparr>trace := tr1\<rparr>)"
        if "v_ledger tr1 = Some (add_mset (V_locked ?b) ?M)" "\<And>r tr. v_ledger tr = Some ?M \<Longrightarrow> Q r (s\<lparr>trace := tr\<rparr>)"
        for Q :: "reply \<Rightarrow> rx_video \<Rightarrow> bool" and tr1
        by (rule wp_UnlockData [where M = ?M]) (use that in simp_all)
      have give: "wp (call api (RcRelease ?b)) Q (s\<lparr>trace := tr1\<rparr>)"
        if "v_ledger tr1 = Some ?M" "\<And>r tr. v_ledger tr = Some M \<Longrightarrow> Q r (s\<lparr>trace := tr\<rparr>)"
        for Q :: "reply \<Rightarrow> rx_video \<Rightarrow> bool" and tr1
        by (rule wp_RcRelease [where M = M]) (use that in simp_all)
      show ?case
        unfolding if_P [OF 3(3)] wp_bind wp_if wp_return wp_modify
        by (simp only: trace_twice | (simp add: 3 keep; fail) | rule wp_packet_calls unlock give if_intro)+
    qed
  qed
qed

lemma wp_DecPop:
  assumes "v_ledger (trace s) = Some M"
    and "\<And>r tr. fst r \<noteq> QCAP_RS_SUCCESSFUL \<Longrightarrow> v_ledger tr = Some M \<Longrightarrow> Q r (s\<lparr>trace := tr\<rparr>)"
    and "\<And>r tr. fst r = QCAP_RS_SUCCESSFUL \<Longrightarrow> v_ledger tr = Some (add_mset (V_buf (outp r 0)) M) \<Longrightarrow> Q r (s\<lparr>trace := tr\<rparr>)"
  shows "wp (call api (DecPop v)) Q s"
  unfolding wp_call using assms(1)
  by (cases "fst (api (trace s) (DecPop v)) = QCAP_RS_SUCCESSFUL") (simp_all add: assms(2,3))

text \<open>The callback gives every frame back, however many rounds it makes.\<close>

lemma wp_show_frame:
  assumes "video_inv s" and "v_ledger (trace s) = Some M" and "v_ledger tr = Some (add_mset (V_buf f) M)"
  shows "wp (show_frame api f) (\<lambda>_. video_inv) (s\<lparr>trace := tr\<rparr>)"
proof -
  have keep: "video_inv (s\<lparr>trace := tr\<rparr>)" if "v_ledger tr = Some M" for tr
    by (rule video_inv_trace [OF assms(1)]) (simp add: that assms(2))
  show ?thesis
    unfolding show_frame_def
    by (auto simp: wp_rules assms(3) trace_first keep intro!: wp_neutral wp_RcRelease [where M = M])
qed

lemma vkeeps_callback: "vkeeps (on_vdec_event_callback api n)"
proof (induction n)
  case (Suc n)
  show ?case
  proof (rule vkeepsI)
    fix s :: rx_video
    assume inv: "video_inv s"
    then obtain M where l: "v_ledger (trace s) = Some M" by (simp add: video_inv_def)
    have keep: "video_inv (s\<lparr>trace := tr\<rparr>)" if "v_ledger tr = Some M" for tr
      by (rule video_inv_trace [OF inv]) (simp add: that l)
    show "wp (on_vdec_event_callback api (Suc n)) (\<lambda>_. video_inv) s"
    proof (cases "vdec s = 0 \<or> \<not> vdec_started s")
      case True
      then show ?thesis using inv by (simp add: wp_rules)
    next
      case False
      show ?thesis
        unfolding on_vdec_event_callback.simps wp_bind [of State_Monad.get] wp_get if_not_P [OF False] wp_bind [of "call _ (DecPop _)"]
      proof (rule wp_DecPop [OF l], goal_cases)
        case (1 r tr)
        then show ?case using keep by (simp add: wp_rules)
      next
        case (2 r tr)
        have "wp (show_frame api (outp r 0)) (\<lambda>_ t. wp (on_vdec_event_callback api n) (\<lambda>_. video_inv) t) (s\<lparr>trace := tr\<rparr>)"
          by (rule wp_conseq [OF wp_show_frame [OF inv l 2(2)]]) (rule vkeepsD [OF Suc.IH])
        then show ?case using 2 by (simp add: wp_bind)
      qed
    qed
  qed
qed (simp add: kept.ret)

lemma vkeeps_apply_caps: "vkeeps (rx_h264_apply_caps api c)"
  unfolding rx_h264_apply_caps_def
proof (cases "caps_values c")
  case (Some v)
  obtain avcc w h fps where v: "v = (avcc, w, h, fps)" by (cases v)
  have "video_inv (set_format avcc w h fps s)" if "video_inv s" "\<not> vdec_started s" "\<not> decoder_initializing s" for s
    using that by (auto simp: video_inv_def set_format_def video_res_def async_res_def vdec_res_def sink_res_def screen_inv_def
        configured_def async_none_def disp_inv_def output_off_def disp_res_def)
  then show "vkeeps (case caps_values c of None \<Rightarrow> ret () | Some (avcc, width, height, fps) \<Rightarrow> do {
      m \<leftarrow> call api (Malloc (length avcc));
      if fst m = 0 then ret ()
      else modify (\<lambda>s. if vdec_started s \<or> decoder_initializing s then s else set_format avcc width height fps s) })"
    unfolding Some v option.case prod.case by (intro vkeeps_intros) auto
qed (simp add: kept.ret)

lemma vkeeps_all_caps: "vkeeps (apply_all_caps api cs)"
  by (induction cs) (auto intro!: vkeeps_intros vkeeps_apply_caps)

lemma vkeeps_parser_push: "vkeeps (rx_h264_parser_push api bytes ts cs)"
  unfolding rx_h264_parser_push_def by (auto intro!: vkeeps_intros vkeeps_all_caps)

lemma vkeeps_reconstructed: "vkeeps (write_reconstructed api bytes)"
  unfolding write_reconstructed_def by (auto intro!: vkeeps_intros)

lemma vkeeps_count_drop: "vkeeps count_drop"
  unfolding count_drop_def by (auto intro!: vkeeps_intros)

lemma vkeeps_decode: 
  assumes "video_inv s" and "\<not> decoder_initializing s"
  shows "wp (decode_unit api au) (\<lambda>_. video_inv) s"
proof -
  have start: "video_inv (s\<lparr>decoder_input_packets := n, no_sps_count := 0, decoder_initializing := True, decoder_wait_for_idr := True\<rparr>)"
    if "\<not> vdec_started s" "configured s" for n
    using assms that by (simp add: video_inv_def video_res_def async_res_def vdec_res_def sink_res_def screen_inv_def
        configured_def async_none_def)
  show ?thesis
    using assms start unfolding decode_unit_def start_vdec_decoder_async_def count_drop_def
    by (auto simp: wp_rules Let_def configured_def intro!: vkeepsD [OF vkeeps_submit])
qed

text \<open>The feeding of the decoder, for any invariant of its parts.\<close>

lemma wp_feed:
  assumes "I s" and drop: "\<And>t. I t \<Longrightarrow> wp count_drop (\<lambda>_. I) t"
    and lost: "\<And>t v. I t \<Longrightarrow> wp (call api (DecDiscontinuity v)) (\<lambda>_. I) t"
    and observe: "\<not> h264_input_parsed s \<Longrightarrow> wp (rx_h264_parser_push api (au_data au) (au_pts au) (au_caps au)) (\<lambda>_. I) s"
    and written: "\<And>t. I t \<Longrightarrow> wp (write_reconstructed api (au_data au)) (\<lambda>_. I) t"
    and decode: "\<And>t. I t \<Longrightarrow> \<not> decoder_initializing t \<Longrightarrow> wp (decode_unit api au) (\<lambda>_. I) t"
  shows "wp (rx_video_feed_decoder api au) (\<lambda>_. I) s"
proof -
  have rest: "wp (do {
       s \<leftarrow> State_Monad.get;
       if decoder_initializing s then count_drop
       else do {
         write_reconstructed api (au_data au);
         if \<not> decode_enabled s then ret () else decode_unit api au } }) (\<lambda>_. I) t" if t: "I t" for t
  proof (cases "decoder_initializing t")
    case True
    then show ?thesis using drop [OF t] by (simp add: wp_get_bind)
  next
    case False
    have "wp (write_reconstructed api (au_data au)) (\<lambda>_ u. I u \<and> \<not> decoder_initializing u) t"
      by (rule wp_conj [OF written [OF t]]) (use False in \<open>simp add: write_reconstructed_def wp_rules wp_call\<close>)
    then show ?thesis
      unfolding wp_get_bind if_not_P [OF False] wp_bind [of "write_reconstructed _ _"]
      by (rule wp_conseq) (auto simp: wp_return decode)
  qed
  show ?thesis
  proof (cases "length (au_data au) < 4 \<or> decoder_initializing s \<or> au_drop au")
    case True
    have "wp (do { count_drop; if b then do { call api (DecDiscontinuity v); ret () } else ret () }) (\<lambda>_. I) s" for b v
      unfolding wp_bind by (rule wp_conseq [OF drop [OF assms(1)]])
        (auto simp: wp_bind wp_return intro: wp_conseq [OF lost])
    then show ?thesis
      using True assms(1) unfolding rx_video_feed_decoder_def wp_get_bind
      by (auto simp: wp_return drop)
  next
    case False
    have observe': "wp (if decode_enabled s \<and> \<not> h264_input_parsed s
        then rx_h264_parser_push api (au_data au) (au_pts au) (au_caps au) else ret ()) (\<lambda>_. I) s"
      using observe assms(1) by (simp add: wp_return)
    have ifs: "\<not> length (au_data au) < 4" "\<not> decoder_initializing s" "\<not> au_drop au" using False by simp_all
    show ?thesis
      unfolding rx_video_feed_decoder_def wp_get_bind if_not_P [OF ifs(1)] if_not_P [OF ifs(2)] if_not_P [OF ifs(3)]
        wp_bind [of "if _ then rx_h264_parser_push _ _ _ _ else _"]
      by (rule wp_conseq [OF observe']) (rule rest [unfolded wp_get_bind])
  qed
qed

lemma vkeeps_feed: "vkeeps (rx_video_feed_decoder api au)"
proof (rule vkeepsI, rule wp_feed)
  show "wp (call api (DecDiscontinuity v)) (\<lambda>_. video_inv) t" if "video_inv t" for t v
    by (rule vkeepsD [OF vkeeps_call that]) simp_all
qed (simp_all add: vkeepsD [OF vkeeps_count_drop] vkeepsD [OF vkeeps_parser_push] vkeepsD [OF vkeeps_reconstructed] vkeeps_decode)

lemma vkeeps_sink_push: "vkeeps (rx_video_sink_push api au)"
  unfolding rx_video_sink_push_def by (auto intro!: vkeeps_intros vkeeps_feed)

lemma vkeeps_rtsp_frame: "vkeeps (rtsp_video_frame api au)"
  unfolding rtsp_video_frame_def by (auto intro!: vkeeps_intros vkeeps_feed)

lemma vkeeps_stop:
  assumes "display_results api"
  shows "vkeeps (stop_video api e)"
  by (rule vkeepsI, rule wp_conseq [OF wp_stop_video [OF assms]]) (auto simp: halted_def)

lemma vkeeps_rtsp_event:
  assumes "display_results api"
  shows "vkeeps (rtsp_video_sink_event api e c)"
proof -
  have "vkeeps (do { stop_vdec_decoder api e; stop_vdec_display api e })"
    using vkeeps_stop [OF assms, of e] by (simp add: stop_video_def)
  then show ?thesis
    unfolding rtsp_video_sink_event_def
    by (auto intro!: vkeeps_intros vkeeps_apply_caps split: option.split)
qed

lemma vkeeps_connected: "vkeeps (qcap_dante_connected_callback h w ht fps)"
proof -
  have "video_inv (let d = disp_of (screen s) in if vdec_started s then s
          else s\<lparr>screen := Screen (d\<lparr>dec_width := (if dec_width d = 0 then w else dec_width d),
                 dec_height := (if dec_height d = 0 then ht else dec_height d),
                 dec_fps := (if 1 \<le> fps \<and> fps \<le> 240 then fps else dec_fps d)\<rparr>)\<rparr>)" if "video_inv s" for s
    using that by (auto simp: Let_def video_inv_def video_res_def async_res_def vdec_res_def sink_res_def screen_inv_def
        configured_def async_none_def disp_inv_def output_off_def disp_res_def)
  then show ?thesis
    unfolding qcap_dante_connected_callback_def start_qcap_decoder_from_format_def by (auto intro!: vkeeps_intros)
qed

lemma vkeeps_thread:
  assumes "display_results api"
  shows "vkeeps (do { s \<leftarrow> State_Monad.get; if decoder_initializing s then decoder_init_thread api e else ret () })"
  by (rule vkeepsI)
    (auto simp: wp_rules thread_done_def intro!: wp_conseq [OF wp_decoder_init_thread [OF assms]])

lemma vkeeps_video_callback: "vkeeps (qcap_dante_video_callback api x payload key cs)"
  unfolding qcap_dante_video_callback_def Let_def by (auto intro!: vkeeps_intros vkeeps_feed)

section \<open>Sessions\<close>

text \<open>
  The steps of the receiver's threads, in any order: an access unit from the pipeline, the QCAP
  callback or the RTSP source, the outstanding start of the decoder, the event callback, the
  announcements of a format, and a stop.
\<close>

datatype video_op =
    Sink_push access_unit
  | Rtsp_frame access_unit
  | Rtsp_caps caps
  | Qcap_video rat "u8 list" bool "caps list"
  | Qcap_connected bool nat nat rat
  | Decoder_thread
  | Frames_ready nat
  | Stop_video

definition video_step :: "vcall api \<Rightarrow> out_env \<Rightarrow> video_op \<Rightarrow> unit rv" where
  "video_step api e q =
     (case q of
        Sink_push au \<Rightarrow> rx_video_sink_push api au
      | Rtsp_frame au \<Rightarrow> rtsp_video_frame api au
      | Rtsp_caps c \<Rightarrow> rtsp_video_sink_event api e c
      | Qcap_video x payload key cs \<Rightarrow> qcap_dante_video_callback api x payload key cs
      | Qcap_connected b w h fps \<Rightarrow> qcap_dante_connected_callback b w h fps
      | Decoder_thread \<Rightarrow> do {
          s \<leftarrow> State_Monad.get;
          if decoder_initializing s then decoder_init_thread api e else ret () }
      | Frames_ready n \<Rightarrow> do { on_vdec_event_callback api n; ret () }
      | Stop_video \<Rightarrow> stop_video api e)"

primrec video_session :: "vcall api \<Rightarrow> out_env \<Rightarrow> video_op list \<Rightarrow> unit rv" where
  "video_session api e [] = ret ()"
| "video_session api e (q # qs) = do { video_step api e q; video_session api e qs }"

definition video_init :: "bool \<Rightarrow> bool \<Rightarrow> bool \<Rightarrow> rx_video" where
  "video_init decode display parsed =
     \<lparr>trace = [], video_stats = \<lparr>total_packets = 0, total_bytes = 0, keyframes = 0, sps_pps = 0, idr_slices = 0,
        non_idr_slices = 0, no_sc = 0, nal_other = 0, last_pts = 0, first_pts = 0\<rparr>,
      vdec = 0, vdec_started = False, vdec_event = 0, vdec_event_handlers = 0, vdec_packet_pool = 0,
      vdec_init_done = False, vdec_sink = 0, vdec_sink_started = False, screen = Screen disp_init,
      display_enabled = display, decode_enabled = decode, h264_input_parsed = parsed, h264_parser = True,
      extra_data = None, decoder_initializing = False, decoder_wait_for_idr = False, reconstructed_file = False,
      decoded_frames = 0, decoded_errors = 0, decoder_display_errors = 0, decoder_input_packets = 0,
      decoder_pushed_packets = 0, decoder_dropped_packets = 0, packet_pool_dropped_packets = 0,
      decoder_push_failed_packets = 0, no_sps_count = 0\<rparr>"

lemma video_init_inv: "video_inv (video_init decode display parsed)"
  using disp_init_inv
  by (auto simp: video_inv_def video_init_def video_res_def async_res_def vdec_res_def sink_res_def obj_res_def run_res_def
      screen_inv_def async_none_def intro!: exI [of _ "{#}"])

lemma vkeeps_step:
  assumes "display_results api"
  shows "vkeeps (video_step api e q)"
  by (cases q) (auto simp: video_step_def intro!: vkeeps_sink_push vkeeps_rtsp_frame vkeeps_rtsp_event [OF assms]
      vkeeps_video_callback vkeeps_connected vkeeps_thread [OF assms] vkeeps_callback vkeeps_stop [OF assms] vkeeps_intros)

lemma vkeeps_session: "display_results api \<Longrightarrow> vkeeps (video_session api e qs)"
  by (induction qs) (auto intro!: vkeeps_intros vkeeps_step)

text \<open>
  C14: the video path over its life: for any sequence of access units, caps, decoder starts, decoded
  frames and stops, whatever the qcap2 library and the display answer, the live objects are those the
  record names and no others; a decoder is there exactly if it is running, then with its event,
  handlers and packet pool and a complete format; while its start is outstanding there is none.
  A stop, from any of these states and also during a start, leaves nothing alive and the display off.
\<close>

theorem video_lifecycle:
  assumes "display_results api"
  shows "wp (video_session api e qs) (\<lambda>_ t.
    v_ledger (trace t) = Some (video_res t) \<and>
    (vdec t \<noteq> 0 \<longleftrightarrow> vdec_started t) \<and>
    (if vdec_started t
     then vdec_event t \<noteq> 0 \<and> vdec_event_handlers t \<noteq> 0 \<and> vdec_packet_pool t \<noteq> 0 \<and> \<not> decoder_initializing t
     else vdec_event t = 0 \<and> vdec_event_handlers t = 0 \<and> vdec_packet_pool t = 0) \<and>
    (vdec_started t \<or> decoder_initializing t \<longrightarrow> extra_data t \<noteq> None \<and>
       dec_width (disp_of (screen t)) \<noteq> 0 \<and> dec_height (disp_of (screen t)) \<noteq> 0) \<and>
    wp (stop_video api e) (\<lambda>_ u. v_ledger (trace u) = Some {#} \<and> vdec u = 0 \<and> vdec_sink u = 0 \<and>
       \<not> decoder_initializing u \<and> output_off (disp_of (screen u)) \<and>
       (\<exists>L. drm_ledger (trace (disp_of (screen u))) = Some L \<and> (\<forall>x \<in># L. \<exists>h. x = D_bo h))) t)
    (video_init decode display parsed)"
proof (rule wp_conseq [OF vkeepsD [OF vkeeps_session [OF assms] video_init_inv]], goal_cases)
  case (1 a t)
  have "wp (stop_video api e) (\<lambda>_ u. v_ledger (trace u) = Some {#} \<and> vdec u = 0 \<and> vdec_sink u = 0 \<and>
       \<not> decoder_initializing u \<and> output_off (disp_of (screen u)) \<and>
       (\<exists>L. drm_ledger (trace (disp_of (screen u))) = Some L \<and> (\<forall>x \<in># L. \<exists>h. x = D_bo h))) t"
    by (rule wp_conseq [OF wp_stop_video [OF assms 1]])
      (auto simp: stopped_empty halted_facts screen_off_ledger)
  then show ?case using 1 by (auto simp: video_inv_def configured_def async_none_def)
qed

text \<open>A library and a display that grant everything, and a session with an RTSP source.\<close>

definition video_api :: "vcall api" where
  "video_api tr q =
     (case q of
        Drm d \<Rightarrow> grant_api [] d
      | VNew ob \<Rightarrow> (1, [])
      | PoolGet p n \<Rightarrow> (0, [1])
      | LockData b \<Rightarrow> (1, [])
      | PktGet p \<Rightarrow> (0, case tr of e1 # (PoolGet q n, r) # es \<Rightarrow> [1, int n] | _ \<Rightarrow> [1, 0])
      | Malloc n \<Rightarrow> (1, [])
      | ParserBuffer \<Rightarrow> (1, [])
      | _ \<Rightarrow> (0, []))"

lemma video_api_display: "display_results video_api"
  by (simp add: display_results_def drm_results_def kernel_ids_def nonzero_ids_def video_api_def grant_api_def outp_def)

definition idr_unit :: access_unit where
  "idr_unit = \<lparr>au_data = [0, 0, 0, 1, 0x65, 0x88], au_drop = False, au_key = False, au_pts = 0, au_caps = []\<rparr>"

definition slice_unit :: access_unit where
  "slice_unit = \<lparr>au_data = [0, 0, 0, 1, 0x41, 0x9A], au_drop = False, au_key = False, au_pts = 0, au_caps = []\<rparr>"

definition hd_caps :: caps where
  "hd_caps = \<lparr>caps_h264 = True, caps_avcc = Some [1, 0x64, 0, 0x28, 0xFF, 0xE1, 0, 1, 0x67, 1, 0], caps_width = Some 1920,
     caps_height = Some 1080, caps_fps = Some 60\<rparr>"

theorem video_lifecycle_witness:
  "wp (video_session video_api grant_env [Rtsp_caps hd_caps, Rtsp_frame idr_unit, Rtsp_frame slice_unit, Decoder_thread,
       Rtsp_frame slice_unit, Rtsp_frame idr_unit, Frames_ready 3]) (\<lambda>_ t.
     v_ledger (trace t) = Some (video_res t) \<and> (vdec t \<noteq> 0 \<longleftrightarrow> vdec_started t) \<and>
     wp (stop_video video_api grant_env) (\<lambda>_ u. v_ledger (trace u) = Some {#} \<and> vdec u = 0) t) (video_init True True True)"
  by (rule wp_conseq [OF video_lifecycle [OF video_api_display]], elim conjE, intro conjI, assumption, assumption, erule wp_conseq)
    simp

end
