(* ===== verification/Video_Flow.thy ===== *)
theory Video_Flow
  imports Video_Objects
begin

text \<open>
  What the video path of Rx_Video does with its input: the format a decoder runs with, the first
  packet it is given, and what becomes of every access unit.
\<close>

section \<open>The format of the RTSP client\<close>

text \<open>Programs that leave the format alone.\<close>

definition same_format :: "rx_video \<Rightarrow> rx_video \<Rightarrow> bool" where
  "same_format s t \<longleftrightarrow> extra_data t = extra_data s \<and> h264_input_parsed t = h264_input_parsed s \<and>
     same_source (disp_of (screen s)) (disp_of (screen t))"

interpretation fmt: step_relation same_format
  by unfold_locales (auto simp: same_format_def intro: same_source_trans)

lemma fmt_call: "stays same_format (call api c)"
  by (simp add: stays_def wp_call same_format_def)

lemma fmt_modify: "(\<And>s. same_format s (f s)) \<Longrightarrow> stays same_format (modify f)"
  by (simp add: stays_def wp_modify)

lemma fmt_if: "(b \<Longrightarrow> stays same_format m) \<Longrightarrow> (\<not> b \<Longrightarrow> stays same_format n) \<Longrightarrow> stays same_format (if b then m else n)"
  by simp

lemmas fmt_intros = fmt.ret fmt.get fmt.bind fmt_call fmt_modify fmt_if

lemma fmt_decode: "stays same_format (decode_unit api au)"
  unfolding decode_unit_def submit_vdec_packet_def count_drop_def start_vdec_decoder_async_def
  by (auto simp: same_format_def Let_def intro!: fmt_intros)

lemma fmt_callback: "stays same_format (on_vdec_event_callback api n)"
proof (induction n)
  case (Suc n)
  show ?case
    unfolding on_vdec_event_callback.simps show_frame_def by (intro fmt_intros Suc.IH) (simp_all add: same_format_def)
qed (simp add: fmt.ret)

text \<open>An access unit of a parsed source does not touch the format.\<close>

lemma parsed_feed:
  assumes "h264_input_parsed s"
  shows "wp (rx_video_feed_decoder api au) (\<lambda>_. same_format s) s"
proof (rule wp_feed)
  have trans: "wp m (\<lambda>_. same_format s) t" if "same_format s t" "stays same_format m" for t and m :: "'a rv"
    using that by (auto simp: stays_def intro: wp_conseq fmt.trans)
  show "wp count_drop (\<lambda>_. same_format s) t" if "same_format s t" for t
    by (rule trans [OF that]) (auto simp: count_drop_def same_format_def intro!: fmt_intros)
  show "wp (call api (DecDiscontinuity v)) (\<lambda>_. same_format s) t" if "same_format s t" for t v
    by (rule trans [OF that fmt_call])
  show "wp (write_reconstructed api (au_data au)) (\<lambda>_. same_format s) t" if "same_format s t" for t
    by (rule trans [OF that]) (auto simp: write_reconstructed_def same_format_def intro!: fmt_intros)
  show "wp (decode_unit api au) (\<lambda>_. same_format s) t" if "same_format s t" for t
    by (rule trans [OF that fmt_decode])
qed (use assms fmt.refl in simp_all)

text \<open>The format that the last valid caps have announced.\<close>

definition has_format :: "(u8 list \<times> nat \<times> nat \<times> rat) option \<Rightarrow> rx_video \<Rightarrow> bool" where
  "has_format f s \<longleftrightarrow> (case f of None \<Rightarrow> True
     | Some (avcc, width, height, fps) \<Rightarrow> extra_data s = Some avcc \<and> dec_width (disp_of (screen s)) = width \<and>
         dec_height (disp_of (screen s)) = height \<and> \<bar>dec_fps (disp_of (screen s)) - fps\<bar> \<le> 5 / 1000)"

lemma has_format_same: "has_format f s \<Longrightarrow> same_format s t \<Longrightarrow> has_format f t"
  by (auto simp: has_format_def same_format_def same_source_def split: option.splits)

text \<open>The steps of the RTSP client.\<close>

datatype rtsp_op = Frame access_unit | Caps_event caps | Start_thread | Decoded nat | Halt

definition rtsp_step :: "rtsp_op \<Rightarrow> video_op" where
  "rtsp_step q = (case q of Frame au \<Rightarrow> Rtsp_frame au | Caps_event c \<Rightarrow> Rtsp_caps c | Start_thread \<Rightarrow> Decoder_thread
     | Decoded n \<Rightarrow> Frames_ready n | Halt \<Rightarrow> Stop_video)"

definition announced :: "rtsp_op \<Rightarrow> (u8 list \<times> nat \<times> nat \<times> rat) option \<Rightarrow> (u8 list \<times> nat \<times> nat \<times> rat) option" where
  "announced q f = (case q of Caps_event c \<Rightarrow> (case caps_values c of None \<Rightarrow> f | Some v \<Rightarrow> Some v) | _ \<Rightarrow> f)"

lemma caps_set:
  assumes "\<not> vdec_started s \<and> \<not> decoder_initializing s \<or> has_format (caps_values c) s"
    and "\<forall>tr n. fst (api tr (Malloc n)) \<noteq> 0" and "caps_values c = Some v"
  shows "wp (rx_h264_apply_caps api c) (\<lambda>_ t. has_format (caps_values c) t \<and> h264_input_parsed t = h264_input_parsed s) s"
  using assms by (cases v) (auto simp: rx_h264_apply_caps_def wp_rules wp_call has_format_def set_format_def)

lemma event_format:
  assumes "display_results api" and "video_inv s" and "h264_input_parsed s"
    and "\<forall>tr n. fst (api tr (Malloc n)) \<noteq> 0" and "has_format f s"
  shows "wp (rtsp_video_sink_event api e c) (\<lambda>_ t. h264_input_parsed t \<and> has_format (announced (Caps_event c) f) t) s"
proof (cases "caps_values c")
  case None
  then show ?thesis using assms by (simp add: rtsp_video_sink_event_def wp_rules announced_def)
next
  case (Some v)
  obtain avcc w h fps where v: "v = (avcc, w, h, fps)" by (cases v)
  let ?Q = "\<lambda>_ t. h264_input_parsed t \<and> has_format (announced (Caps_event c) f) t"
  have set: "wp (rx_h264_apply_caps api c) ?Q t"
    if "\<not> vdec_started t \<and> \<not> decoder_initializing t \<or> has_format (caps_values c) t" "h264_input_parsed t" for t
    by (rule wp_conseq [OF caps_set [OF that(1) assms(4) Some]]) (use that Some in \<open>auto simp: announced_def\<close>)
  show ?thesis
  proof (cases "(decoder_initializing s \<or> vdec_started s \<or> rx_drm_modeset_active (disp_of (screen s))) \<and>
      source_differs s avcc w h fps")
    case True
    have "wp (do { stop_vdec_decoder api e; stop_vdec_display api e }) (\<lambda>_ t. halted s t) s"
      by (rule wp_conseq [OF wp_stop_video [OF assms(1,2), unfolded stop_video_def]]) simp
    then have "wp (do { stop_vdec_decoder api e; stop_vdec_display api e }) (\<lambda>_. wp (rx_h264_apply_caps api c) ?Q) s"
      by (rule wp_conseq) (use assms(3) in \<open>auto intro!: set simp: halted_def\<close>)
    then show ?thesis
      using True unfolding rtsp_video_sink_event_def Some v option.case prod.case wp_get_bind
      by (auto simp: wp_bind elim!: wp_conseq)
  next
    case False
    then have "wp (rx_h264_apply_caps api c) ?Q s"
      by (intro set) (use assms(3) Some v in \<open>auto simp: has_format_def source_differs_def\<close>)
    then show ?thesis
      unfolding rtsp_video_sink_event_def Some v option.case prod.case wp_get_bind if_not_P [OF False] wp_bind [of "ret _"] wp_return .
  qed
qed

lemma rtsp_step_format:
  assumes "display_results api" and "video_inv s" and "h264_input_parsed s"
    and "\<forall>tr n. fst (api tr (Malloc n)) \<noteq> 0" and "has_format f s"
  shows "wp (video_step api e (rtsp_step q)) (\<lambda>_ t. video_inv t \<and> h264_input_parsed t \<and> has_format (announced q f) t) s"
proof (rule wp_conj [OF vkeepsD [OF vkeeps_step [OF assms(1)] assms(2)]])
  have same: "h264_input_parsed t \<and> has_format f t" if "same_format s t" for t
    using has_format_same [OF assms(5) that] that assms(3) by (simp add: same_format_def)
  show "wp (video_step api e (rtsp_step q)) (\<lambda>_ t. h264_input_parsed t \<and> has_format (announced q f) t) s"
  proof (cases q)
    case (Frame au)
    let ?s = "s\<lparr>video_stats := (video_stats s)\<lparr>total_packets := total_packets (video_stats s) + 1,
       total_bytes := total_bytes (video_stats s) + of_nat (length (au_data au))\<rparr>\<rparr>"
    have "wp (rx_video_feed_decoder api au) (\<lambda>_. same_format ?s) ?s" by (rule parsed_feed) (simp add: assms(3))
    then have "wp (rx_video_feed_decoder api au) (\<lambda>_. same_format s) ?s" by (rule wp_conseq) (simp add: same_format_def)
    then show ?thesis
      using same by (auto simp: Frame rtsp_step_def video_step_def rtsp_video_frame_def wp_bind wp_modify announced_def
          elim!: wp_conseq)
  next
    case (Caps_event c)
    then show ?thesis using event_format [OF assms] by (simp add: rtsp_step_def video_step_def)
  next
    case Start_thread
    have "same_format s t" if "thread_done s t" for t using that by (simp add: thread_done_def same_format_def)
    then show ?thesis
      using same fmt.refl [of s] by (auto simp: Start_thread rtsp_step_def video_step_def wp_get_bind wp_return announced_def
          intro!: wp_conseq [OF wp_decoder_init_thread [OF assms(1,2)]])
  next
    case (Decoded n)
    have "wp (on_vdec_event_callback api n) (\<lambda>_. same_format s) s" using fmt_callback by (simp add: stays_def)
    then show ?thesis
      using same by (auto simp: Decoded rtsp_step_def video_step_def wp_bind wp_return announced_def elim!: wp_conseq)
  next
    case Halt
    have "same_format s t" if "halted s t" for t using that by (simp add: halted_def same_format_def)
    then show ?thesis
      using same by (auto simp: Halt rtsp_step_def video_step_def announced_def
          intro!: wp_conseq [OF wp_stop_video [OF assms(1,2)]])
  qed
qed

lemma rtsp_session_format:
  assumes "display_results api" and "\<forall>tr n. fst (api tr (Malloc n)) \<noteq> 0"
    and "video_inv s" and "h264_input_parsed s" and "has_format f s"
  shows "wp (video_session api e (map rtsp_step qs)) (\<lambda>_ t. video_inv t \<and> has_format (fold announced qs f) t) s"
  using assms(3-5)
proof (induction qs arbitrary: s f)
  case (Cons q qs)
  show ?case
    unfolding list.map video_session.simps wp_bind
    by (rule wp_conseq [OF rtsp_step_format [OF assms(1) Cons.prems(1,2) assms(2) Cons.prems(3), of e q]])
      (use Cons.IH in simp)
qed (simp add: wp_rules)

text \<open>
  C18: the RTSP client follows its source: after any sequence of access units, caps, decoder starts,
  decoded frames and stops, the format of the receiver is the one that the last valid caps announced
  - avcC, width and height exactly, the rate to 0.005 Hz -; in particular a decoder that runs, or whose
  start is outstanding, has that format, however the caps fell between the start and the end of its
  asynchronous initialization.
\<close>

theorem rtsp_follows_source:
  assumes "display_results api" and "\<forall>tr n. fst (api tr (Malloc n)) \<noteq> 0"
    and "fold announced qs None = Some (avcc, width, height, fps)"
  shows "wp (video_session api e (map rtsp_step qs)) (\<lambda>_ t. extra_data t = Some avcc \<and>
    dec_width (disp_of (screen t)) = width \<and> dec_height (disp_of (screen t)) = height \<and>
    \<bar>dec_fps (disp_of (screen t)) - fps\<bar> \<le> 5 / 1000) (video_init True display True)"
proof -
  have "h264_input_parsed (video_init True display True)" by (simp add: video_init_def)
  from rtsp_session_format [OF assms(1,2) video_init_inv this, of None e qs] show ?thesis
    by (rule wp_conseq) (use assms(3) in \<open>simp_all add: has_format_def\<close>)
qed

theorem rtsp_follows_source_witness:
  "wp (video_session video_api grant_env (map rtsp_step [Caps_event hd_caps, Frame idr_unit, Start_thread, Frame slice_unit]))
     (\<lambda>_ t. extra_data t = Some [1, 0x64, 0, 0x28, 0xFF, 0xE1, 0, 1, 0x67, 1, 0] \<and> dec_width (disp_of (screen t)) = 1920 \<and>
       dec_height (disp_of (screen t)) = 1080 \<and> \<bar>dec_fps (disp_of (screen t)) - 60\<bar> \<le> 5 / 1000) (video_init True True True)"
  by (rule rtsp_follows_source [OF video_api_display])
    (simp_all add: video_api_def announced_def caps_values_def hd_caps_def)

section \<open>The first packet of a decoder\<close>

text \<open>An IDR slice in Annex B: a start code and a NAL header of type 5.\<close>

fun idr_in :: "u8 list \<Rightarrow> bool" where
  "idr_in (a # b # c # x # rest) = (a = 0 \<and> b = 0 \<and> c = 1 \<and> x AND 0x1F = 5 \<or> idr_in (b # c # x # rest))"
| "idr_in bytes = False"

text \<open>
  What a decoder has been given since its start, read off the trace; \<open>K\<close> says which data come from a
  source that has flagged them as a key frame.  \<open>Held b n p f\<close>: no packet so far, the buffer \<open>b\<close> for
  \<open>n\<close> bytes is out of the pool, \<open>p\<close> is its locked packet and \<open>f\<close> what it was filled with.  \<open>Flowing\<close>:
  the decoder has accepted a first packet, and it was a key frame.  \<open>Lost\<close>: before that the library
  has refused a buffer, its packet or the push.  \<open>Violated\<close>: the first packet that was pushed was no
  key frame, or a buffer that nothing had refused was released without having been pushed.
\<close>

datatype gate = Waiting | Held int nat int "(u8 list \<times> bool) option" | Flowing | Lost | Violated

definition key_packet :: "(u8 list \<Rightarrow> bool) \<Rightarrow> (u8 list \<times> bool) option \<Rightarrow> bool" where
  "key_packet K f = (case f of None \<Rightarrow> False | Some (bytes, flag) \<Rightarrow> flag \<and> (idr_in bytes \<or> K bytes))"

definition gate_step :: "(u8 list \<Rightarrow> bool) \<Rightarrow> vcall \<Rightarrow> reply \<Rightarrow> gate \<Rightarrow> gate" where
  "gate_step K c r g =
     (case c of
        VStart ob p \<Rightarrow> if ob = V_decoder \<and> g \<noteq> Violated then Waiting else g
      | PoolGet q n \<Rightarrow> if g \<noteq> Waiting then g
          else if fst r = QCAP_RS_SUCCESSFUL \<and> outp r 0 \<noteq> 0 then Held (outp r 0) n 0 None else Lost
      | LockData b' \<Rightarrow> (case g of Held b n p f \<Rightarrow>
          if b' \<noteq> b then g else if fst r = 0 then Lost else Held b n (fst r) f | _ \<Rightarrow> g)
      | PktGet p' \<Rightarrow> (case g of Held b n p f \<Rightarrow>
          if p' = p \<and> (outp r 0 = 0 \<or> outp r 1 < int n) then Lost else g | _ \<Rightarrow> g)
      | PktFill p' bytes flag ts \<Rightarrow> (case g of Held b n p f \<Rightarrow>
          if p' = p then Held b n p (Some (bytes, flag)) else g | _ \<Rightarrow> g)
      | DecPush v b' \<Rightarrow> (case g of
            Waiting \<Rightarrow> Violated
          | Held b n p f \<Rightarrow> if b' \<noteq> b \<or> \<not> key_packet K f then Violated
              else if fst r = QCAP_RS_SUCCESSFUL then Flowing else Lost
          | _ \<Rightarrow> g)
      | RcRelease b' \<Rightarrow> (case g of Held b n p f \<Rightarrow> if b' = b then Violated else g | _ \<Rightarrow> g)
      | _ \<Rightarrow> g)"

primrec idr_gate :: "(u8 list \<Rightarrow> bool) \<Rightarrow> vcall event list \<Rightarrow> gate" where
  "idr_gate K [] = Waiting"
| "idr_gate K (ev # tr) = gate_step K (fst ev) (snd ev) (idr_gate K tr)"

text \<open>Between two access units no buffer is out.\<close>

definition settled :: "gate \<Rightarrow> bool" where
  "settled g \<longleftrightarrow> g = Waiting \<or> g = Flowing \<or> g = Lost"

definition gated :: "(u8 list \<Rightarrow> bool) \<Rightarrow> rx_video \<Rightarrow> bool" where
  "gated K s \<longleftrightarrow> settled (idr_gate K (trace s)) \<and>
     (idr_gate K (trace s) = Waiting \<and> vdec_started s \<longrightarrow> decoder_wait_for_idr s) \<and>
     (decoder_initializing s \<longrightarrow> decoder_wait_for_idr s)"

text \<open>Calls that change nothing between two access units.\<close>

fun gate_free :: "vcall \<Rightarrow> bool" where
  "gate_free (VStart ob p) = (ob \<noteq> V_decoder)"
| "gate_free (PoolGet p n) = False"
| "gate_free (DecPush v b) = False"
| "gate_free _ = True"

lemma idr_gate_free: "gate_free c \<Longrightarrow> settled (idr_gate K tr) \<Longrightarrow> idr_gate K ((c, r) # tr) = idr_gate K tr"
  by (cases c) (auto simp: gate_step_def settled_def)

lemma idr_gate_drm: "idr_gate K (map (\<lambda>(c, r). (Drm c, r)) new @ tr) = idr_gate K tr"
  by (induction new) (auto simp: gate_step_def)

text \<open>Programs that neither start a decoder nor hand out a packet.\<close>

definition gate_same :: "(u8 list \<Rightarrow> bool) \<Rightarrow> rx_video \<Rightarrow> rx_video \<Rightarrow> bool" where
  "gate_same K s t \<longleftrightarrow> (settled (idr_gate K (trace s)) \<longrightarrow> idr_gate K (trace t) = idr_gate K (trace s)) \<and> vdec_started t = vdec_started s \<and>
     decoder_wait_for_idr t = decoder_wait_for_idr s \<and> decoder_initializing t = decoder_initializing s"

interpretation gate: step_relation "gate_same K" for K
  by unfold_locales (auto simp: gate_same_def)

lemma gate_call: "gate_free c \<Longrightarrow> stays (gate_same K) (call api c)"
  by (simp add: stays_def wp_call gate_same_def idr_gate_free del: idr_gate.simps)

lemma gate_modify: "(\<And>s. gate_same K s (f s)) \<Longrightarrow> stays (gate_same K) (modify f)"
  by (simp add: stays_def wp_modify)

lemma gate_if: "(b \<Longrightarrow> stays (gate_same K) m) \<Longrightarrow> (\<not> b \<Longrightarrow> stays (gate_same K) n) \<Longrightarrow> stays (gate_same K) (if b then m else n)"
  by simp

lemma gate_screen: "stays (gate_same K) (on_screen api prog)"
proof -
  have "wp (prog api') (\<lambda>_ _. True) d" for api' d by (simp add: wp_def)
  then show ?thesis
    unfolding stays_def on_screen_def
    by (intro allI, intro wp_embed_at [where P = "\<lambda>_ _. True"]) (simp_all add: gate_same_def idr_gate_drm)
qed

lemmas gate_intros = gate.ret gate.get gate.bind gate_call gate_modify gate_if gate_screen

lemma gate_drop: "stays (gate_same K) (drop_object api ob p (\<lambda>s. s\<lparr>vdec_event_handlers := i\<rparr>))"
  "stays (gate_same K) (drop_object api ob p (\<lambda>s. s\<lparr>vdec_packet_pool := i\<rparr>))"
  "stays (gate_same K) (drop_object api ob p (\<lambda>s. s\<lparr>vdec_event := i\<rparr>))"
  unfolding drop_object_def by (intro gate_intros; simp add: gate_same_def)+

lemma gate_async_stop: "stays (gate_same K) (StopVdecAsync api)"
  unfolding StopVdecAsync_def by (intro gate_drop gate_intros; simp add: gate_same_def)

lemma gate_async_start: "stays (gate_same K) (SetupVdecAsync api)"
  unfolding SetupVdecAsync_def setup_handlers_def setup_pool_def fail_setup_def
  by (intro gate_async_stop gate_intros; simp add: gate_same_def)

lemma gate_sink: "stays (gate_same K) (start_vdec_sink api)" "stays (gate_same K) (stop_vdec_sink api)"
  unfolding start_vdec_sink_def stop_vdec_sink_def drop_sink_def Let_def
  by (intro gate_intros; simp add: gate_same_def)+

lemma gate_display: "stays (gate_same K) (start_display api e)" "stays (gate_same K) (stop_vdec_display api e)"
  unfolding start_display_def stop_vdec_display_def by (intro gate_intros gate_sink)+

lemma gate_apply_caps: "stays (gate_same K) (rx_h264_apply_caps api c)"
proof (cases "caps_values c")
  case (Some v)
  then show ?thesis
    unfolding rx_h264_apply_caps_def
    by (cases v) (simp, intro gate_intros; simp add: gate_same_def set_format_def)
qed (simp add: rx_h264_apply_caps_def gate.ret)

lemma gate_parser: "stays (gate_same K) (rx_h264_parser_push api bytes ts cs)"
proof -
  have "stays (gate_same K) (apply_all_caps api cs)" for cs
    by (induction cs) (auto intro: gate.ret gate.bind gate_apply_caps)
  then show ?thesis
    unfolding rx_h264_parser_push_def by (intro gate_intros; simp)
qed

lemma gate_file: "stays (gate_same K) (write_reconstructed api bytes)"
  unfolding write_reconstructed_def by (intro gate_intros; simp add: gate_same_def)

lemma gate_callback: "stays (gate_same K) (on_vdec_event_callback api n)"
proof (induction n)
  case (Suc n)
  show ?case
    unfolding on_vdec_event_callback.simps show_frame_def by (intro gate_intros Suc.IH) (simp_all add: gate_same_def)
qed (simp add: gate.ret)

lemma gateD: "stays (gate_same K) m \<Longrightarrow> wp m (\<lambda>_. gate_same K s) s"
  by (simp add: stays_def)

lemma gated_same: "gated K s \<Longrightarrow> gate_same K s t \<Longrightarrow> gated K t"
  by (auto simp: gated_def gate_same_def)

lemma gated_stays: "stays (gate_same K) m \<Longrightarrow> gated K s \<Longrightarrow> wp m (\<lambda>_. gated K) s"
  by (rule wp_conseq [OF gateD]) (auto intro: gated_same)

text \<open>The start of a decoder.\<close>

definition open_gate :: "(u8 list \<Rightarrow> bool) \<Rightarrow> rx_video \<Rightarrow> bool" where
  "open_gate K s \<longleftrightarrow> settled (idr_gate K (trace s)) \<and> \<not> vdec_started s"

lemma wp_init_gate:
  assumes "open_gate K s"
  shows "wp (init_vdec_decoder api) (\<lambda>r t. decoder_wait_for_idr t = decoder_wait_for_idr s \<and>
    (if r = 0 then settled (idr_gate K (trace t)) else open_gate K t)) s"
proof -
  have free: "wp (call api c) Q t" if "gate_free c" "settled (idr_gate K (trace t))"
    "\<And>r tr. settled (idr_gate K tr) \<Longrightarrow> Q r (t\<lparr>trace := tr\<rparr>)" for c Q and t :: rx_video
    unfolding wp_call by (rule that(3)) (use idr_gate_free [OF that(1,2)] that(2) in simp)
  note vset = free [of "VSet ob k p xs" for ob k p xs, simplified]
  note vnew = free [of "VNew ob" for ob, simplified]
  note vdel = free [of "VDelete ob p" for ob p, simplified]
  have start: "settled (gate_step K (VStart V_decoder p) r g)" if "settled g" for p r g
    using that by (auto simp: gate_step_def settled_def)
  show ?thesis
    unfolding init_vdec_decoder_def wp_bind wp_if wp_modify wp_return wp_get wp_call [of _ "VStart _ _"]
    by (rule vset vnew if_intro vdel | simp only: trace_twice
      | (use assms in \<open>auto simp: open_gate_def trace_first start; fail\<close>))+
qed

lemma open_gate_same: "open_gate K s \<Longrightarrow> gate_same K s t \<Longrightarrow> open_gate K t"
  by (auto simp: open_gate_def gate_same_def)

lemma wp_start_gate:
  assumes "open_gate K s"
  shows "wp (start_decoder api) (\<lambda>ready t. decoder_wait_for_idr t = decoder_wait_for_idr s \<and>
    (if ready then settled (idr_gate K (trace t)) else open_gate K t)) s"
proof -
  let ?Q = "\<lambda>ready t. decoder_wait_for_idr t = decoder_wait_for_idr s \<and>
    (if ready then settled (idr_gate K (trace t)) else open_gate K t)"
  have finish: "wp (do { (if \<not> ready then StopVdecAsync api else ret ()); ret ready }) ?Q t"
    if "?Q ready t" for ready t
  proof (cases ready)
    case False
    show ?thesis
      unfolding wp_bind by (simp add: False, rule wp_conseq [OF gateD [OF gate_async_stop]])
        (use that False in \<open>auto simp: wp_return gate_same_def open_gate_def\<close>)
  qed (use that in \<open>simp add: wp_rules\<close>)
  have init: "wp (if a = 0 then do { b \<leftarrow> init_vdec_decoder api; ret (b = 0) } else ret False)
      (\<lambda>ready. wp (do { (if \<not> ready then StopVdecAsync api else ret ()); ret ready }) ?Q) t"
    if "gate_same K s t" for a :: int and t
  proof (cases "a = 0")
    case True
    have t: "open_gate K t" "decoder_wait_for_idr t = decoder_wait_for_idr s"
      using open_gate_same [OF assms that] that by (simp_all add: gate_same_def)
    show ?thesis
      unfolding if_P [OF True] wp_bind [of "init_vdec_decoder _"]
      by (rule wp_conseq [OF wp_init_gate [OF t(1)]], unfold wp_return, rule finish) (simp add: t(2))
  next
    case False
    have "open_gate K t" "decoder_wait_for_idr t = decoder_wait_for_idr s"
      using open_gate_same [OF assms that] that by (simp_all add: gate_same_def)
    then show ?thesis unfolding if_not_P [OF False] wp_return by (intro finish) simp
  qed
  show ?thesis
    unfolding start_decoder_def wp_bind [of "SetupVdecAsync _"] wp_bind [of "if _ = 0 then _ else _"]
    by (rule wp_conseq [OF gateD [OF gate_async_start]]) (rule init)
qed

lemma thread_gated:
  assumes "gated K s" and "decoder_initializing s" and "\<not> vdec_started s"
  shows "wp (decoder_init_thread api e) (\<lambda>_. gated K) s"
proof -
  have s: "open_gate K s" "decoder_wait_for_idr s" using assms by (auto simp: gated_def open_gate_def)
  have finish: "wp (do { ready \<leftarrow> (if ok then start_decoder api else ret False);
      modify (\<lambda>t. t\<lparr>decoder_wait_for_idr := (if ready then decoder_wait_for_idr t else False), decoder_initializing := False\<rparr>) })
      (\<lambda>_. gated K) t" if t: "gate_same K s t" for ok t
  proof -
    have "open_gate K t" "decoder_wait_for_idr t" using open_gate_same [OF s(1) t] s(2) t by (simp_all add: gate_same_def)
    then show ?thesis
      by (auto simp: wp_bind wp_modify wp_return gated_def open_gate_def
          intro!: wp_conseq [OF wp_start_gate [of K t]] split: if_splits)
  qed
  have "stays (gate_same K) (if display_enabled s then start_display api e else ret True)"
    by (simp add: gate_display gate.ret)
  from gateD [OF this, of s] show ?thesis
    unfolding decoder_init_thread_def wp_get_bind wp_bind [of "if _ then start_display _ _ else _"]
    by (rule wp_conseq) (rule finish)
qed

lemma stop_gated:
  assumes "gated K s" and "decoder_initializing s \<longrightarrow> \<not> vdec_started s"
  shows "wp (stop_vdec_decoder api e) (\<lambda>_. gated K) s"
proof -
  have rest: "wp (do {
     s \<leftarrow> State_Monad.get;
     drop_object api V_handlers (vdec_event_handlers s) (\<lambda>s. s\<lparr>vdec_event_handlers := 0\<rparr>);
     (if vdec s \<noteq> 0 then do {
        (if vdec_started s then do { call api (VStop V_decoder (vdec s)); ret () } else ret ());
        call api (VDelete V_decoder (vdec s));
        modify (\<lambda>s. s\<lparr>vdec := 0, vdec_started := False\<rparr>) } else ret ());
     StopVdecAsync api }) (\<lambda>_. gated K) t" if t: "gated K t" for t
  proof -
    have calls: "stays (gate_same K) (do {
        (if b then do { call api (VStop V_decoder v); ret () } else ret ());
        call api (VDelete V_decoder v) })" for b v
      by (intro gate_intros; simp)
    have "gated K (u\<lparr>vdec := 0, vdec_started := False\<rparr>)" if "gated K u" for u
      using that by (auto simp: gated_def)
    then have remove: "wp (if v \<noteq> 0 then do {
        (if b then do { call api (VStop V_decoder v); ret () } else ret ());
        call api (VDelete V_decoder v);
        modify (\<lambda>s. s\<lparr>vdec := 0, vdec_started := False\<rparr>) } else ret ()) (\<lambda>_. gated K) u" if "gated K u" for v b u
      using gated_stays [OF calls that, of b v]
      by (auto simp: wp_bind wp_modify wp_return that elim!: wp_conseq)
    show ?thesis
      unfolding wp_get_bind wp_bind [of "drop_object _ _ _ _"]
    proof (rule wp_conseq [OF gated_stays [OF gate_drop(1) t]])
      fix u :: rx_video
      assume "gated K u"
      then have "wp (if vdec t \<noteq> 0 then do {
        (if vdec_started t then do { call api (VStop V_decoder (vdec t)); ret () } else ret ());
        call api (VDelete V_decoder (vdec t));
        modify (\<lambda>s. s\<lparr>vdec := 0, vdec_started := False\<rparr>) } else ret ()) (\<lambda>_. gated K) u" by (rule remove)
      then show "wp (do {
        (if vdec t \<noteq> 0 then do {
          (if vdec_started t then do { call api (VStop V_decoder (vdec t)); ret () } else ret ());
          call api (VDelete V_decoder (vdec t));
          modify (\<lambda>s. s\<lparr>vdec := 0, vdec_started := False\<rparr>) } else ret ());
        StopVdecAsync api }) (\<lambda>_. gated K) u"
        unfolding wp_bind [of "if _ then _ else _"] by (rule wp_conseq) (rule gated_stays [OF gate_async_stop])
    qed
  qed
  show ?thesis
  proof (cases "decoder_initializing s")
    case True
    then have "wp (decoder_init_thread api e) (\<lambda>_. gated K) s" using thread_gated assms by blast
    then show ?thesis
      unfolding stop_vdec_decoder_def wp_get_bind if_P [OF True] wp_bind [of "decoder_init_thread _ _"]
      by (rule wp_conseq) (rule rest [unfolded wp_get_bind])
  next
    case False
    show ?thesis
      unfolding stop_vdec_decoder_def wp_get_bind if_not_P [OF False] wp_bind [of "ret _"] wp_return
      by (rule rest [OF assms(1), unfolded wp_get_bind])
  qed
qed

lemma trace_of: "trace (s\<lparr>trace := a\<rparr>) = (a :: vcall event list)"
  by simp

lemma wp_call_eq:
  "(\<And>r. r = api (trace s) c \<Longrightarrow> Q r (s\<lparr>trace := (c, r) # trace s\<rparr>)) \<Longrightarrow> wp (call api c) Q s"
  by (simp add: wp_call)

text \<open>The scan finds what the specification asks for.\<close>

lemma idr_in_iff: "idr_in bytes \<longleftrightarrow> (\<exists>pre x post. bytes = pre @ [0, 0, 1, x] @ post \<and> x AND 0x1F = 5)"
proof (induction bytes rule: idr_in.induct)
  case (1 a b c x rest)
  have "(\<exists>pre y post. a # b # c # x # rest = pre @ [0, 0, 1, y] @ post \<and> y AND 0x1F = 5) \<longleftrightarrow>
      a = 0 \<and> b = 0 \<and> c = 1 \<and> x AND 0x1F = 5 \<or> (\<exists>pre y post. b # c # x # rest = pre @ [0, 0, 1, y] @ post \<and> y AND 0x1F = 5)"
    (is "?L \<longleftrightarrow> ?H \<or> ?T")
  proof
    assume ?L
    then obtain pre y post where e: "a # b # c # x # rest = pre @ [0, 0, 1, y] @ post" "y AND 0x1F = 5" by blast
    then show "?H \<or> ?T" by (cases pre) auto
  next
    assume "?H \<or> ?T"
    then show ?L
    proof
      assume ?H
      then show ?L by (intro exI [of _ "[]"] exI [of _ x] exI [of _ rest]) simp
    next
      assume ?T
      then obtain pre y post where "b # c # x # rest = pre @ [0, 0, 1, y] @ post" "y AND 0x1F = 5" by blast
      then show ?L by (intro exI [of _ "a # pre"] exI [of _ y] exI [of _ post]) simp
    qed
  qed
  then show ?case using 1 by simp
qed (auto simp: Cons_eq_append_conv)

lemma has_idr_in: "has_idr bytes = idr_in bytes"
  unfolding has_idr_def nal_types_reference idr_in_iff by metis

text \<open>A submission: once past \<open>Waiting\<close> nothing changes; before that, a key packet gets through or is refused.\<close>

lemma gate_past: "g = Flowing \<or> g = Lost \<Longrightarrow> (\<And>p. c \<noteq> VStart V_decoder p) \<Longrightarrow> gate_step K c r g = g"
  by (cases c) (auto simp: gate_step_def)

lemma submit_past:
  assumes "idr_gate K (trace s) = Flowing \<or> idr_gate K (trace s) = Lost"
  shows "wp (submit_vdec_packet api bytes key ts) (\<lambda>_ t. (idr_gate K (trace t) = Flowing \<or> idr_gate K (trace t) = Lost) \<and>
    decoder_initializing t = decoder_initializing s) s"
  unfolding submit_vdec_packet_def Let_def wp_get wp_bind wp_if wp_return wp_modify
  by (rule wp_callI if_intro | simp only: trace_twice trace_of | (use assms in \<open>simp add: gate_past; fail\<close>))+

lemma submit_first:
  assumes "idr_gate K (trace s) = Waiting" and "key_packet K (Some (bytes, key))"
  shows "wp (submit_vdec_packet api bytes key ts) (\<lambda>_ t. (idr_gate K (trace t) = Flowing \<or> idr_gate K (trace t) = Lost) \<and>
    decoder_initializing t = decoder_initializing s) s"
  unfolding submit_vdec_packet_def Let_def wp_get wp_bind wp_if wp_return wp_modify
  by (rule wp_callI if_intro | simp only: trace_twice trace_of
    | (use assms in \<open>simp add: gate_step_def; fail\<close>) | (use assms in \<open>auto simp: gate_step_def; fail\<close>))+

lemma submit_gated:
  assumes "settled (idr_gate K (trace s))" and "idr_gate K (trace s) = Waiting \<longrightarrow> key_packet K (Some (bytes, key))"
    and "\<not> decoder_initializing s"
  shows "wp (submit_vdec_packet api bytes key ts) (\<lambda>_. gated K) s"
proof -
  have "wp (submit_vdec_packet api bytes key ts) (\<lambda>_ t. (idr_gate K (trace t) = Flowing \<or> idr_gate K (trace t) = Lost) \<and>
    decoder_initializing t = decoder_initializing s) s"
    using assms(1,2) submit_first submit_past by (auto simp: settled_def)
  then show ?thesis by (rule wp_conseq) (use assms(3) in \<open>auto simp: gated_def settled_def\<close>)
qed

lemma decode_gated:
  assumes "au_key au \<longrightarrow> K (au_data au)" and "gated K s" and "\<not> decoder_initializing s"
  shows "wp (decode_unit api au) (\<lambda>_. gated K) s"
proof -
  have key: "key_packet K (Some (au_data au, has_idr (au_data au) \<or> au_key au))" if "has_idr (au_data au) \<or> au_key au"
    using that assms(1) by (auto simp: key_packet_def has_idr_in)
  show ?thesis
    unfolding decode_unit_def count_drop_def start_vdec_decoder_async_def Let_def wp_bind wp_modify wp_get wp_if wp_return
    using assms(2,3) key by (auto simp: gated_def intro!: submit_gated [simplified gated_def])
qed

lemma feed_gated:
  assumes "au_key au \<longrightarrow> K (au_data au)" and "gated K s"
  shows "wp (rx_video_feed_decoder api au) (\<lambda>_. gated K) s"
proof (rule wp_feed)
  show "wp count_drop (\<lambda>_. gated K) t" if "gated K t" for t
    by (rule gated_stays [OF _ that]) (unfold count_drop_def, rule gate_modify, simp add: gate_same_def)
  show "wp (call api (DecDiscontinuity v)) (\<lambda>_. gated K) t" if "gated K t" for t v
    by (rule gated_stays [OF gate_call that]) simp
qed (simp_all add: assms gated_stays [OF gate_parser] gated_stays [OF gate_file] decode_gated)

text \<open>The data that a source hands over with the key flag set.\<close>

definition flagged :: "video_op list \<Rightarrow> u8 list \<Rightarrow> bool" where
  "flagged qs bytes \<longleftrightarrow> list_ex (\<lambda>q. case q of
       Sink_push au \<Rightarrow> au_key au \<and> au_data au = bytes
     | Rtsp_frame au \<Rightarrow> au_key au \<and> au_data au = bytes
     | Qcap_video x payload flag cs \<Rightarrow> flag \<and> take (length bytes) payload = bytes
     | _ \<Rightarrow> False) qs"

lemma step_gated:
  assumes "display_results api" and "\<And>bytes. flagged [q] bytes \<Longrightarrow> K bytes" and "video_inv s" and "gated K s"
  shows "wp (video_step api e q) (\<lambda>_. gated K) s"
proof -
  have stats: "wp (modify (\<lambda>s. s\<lparr>video_stats := f s\<rparr>)) (\<lambda>_. gated K) t" if "gated K t" for f t
    by (rule gated_stays [OF gate_modify that]) (simp add: gate_same_def)
  have lock: "wp (call api c) (\<lambda>_. gated K) t" if "gated K t" "gate_free c" for c t
    by (rule gated_stays [OF gate_call [OF that(2)] that(1)])
  have display: "wp (stop_vdec_display api e) (\<lambda>_. gated K) t" if "gated K t" for t
    by (rule gated_stays [OF gate_display(2) that])
  have init: "decoder_initializing s \<longrightarrow> \<not> vdec_started s" using assms(3) by (auto simp: video_inv_def)
  have stop: "wp (do { stop_vdec_decoder api e; stop_vdec_display api e }) (\<lambda>_. gated K) s"
    unfolding wp_bind by (rule wp_conseq [OF stop_gated [OF assms(4) init]]) (rule display)
  have feed: "wp (rx_video_feed_decoder api au) (\<lambda>_. gated K) t" if "gated K t" "au_key au \<longrightarrow> K (au_data au)" for au t
    by (rule feed_gated [OF that(2,1)])
  show ?thesis
  proof (cases q)
    case (Sink_push au)
    have K: "au_key au \<longrightarrow> K (au_data au)" using assms(2) Sink_push by (auto simp: flagged_def)
    with Sink_push show ?thesis
      using assms(4) by (auto simp: video_step_def rx_video_sink_push_def wp_bind wp_return intro!: wp_conseq [OF stats] feed)
  next
    case (Rtsp_frame au)
    have K: "au_key au \<longrightarrow> K (au_data au)" using assms(2) Rtsp_frame by (auto simp: flagged_def)
    with Rtsp_frame show ?thesis
      using assms(4) by (auto simp: video_step_def rtsp_video_frame_def wp_bind intro!: wp_conseq [OF stats] feed)
  next
    case (Rtsp_caps c)
    have "wp (do { (if b then do { stop_vdec_decoder api e; stop_vdec_display api e } else ret ());
        rx_h264_apply_caps api c }) (\<lambda>_. gated K) s" for b
      unfolding wp_bind [of "if b then _ else _"]
      by (rule wp_conseq [where P = "\<lambda>_. gated K"])
        (use stop assms(4) in \<open>auto simp: wp_return intro: gated_stays [OF gate_apply_caps]\<close>)
    then show ?thesis
      using assms(4) by (auto simp: Rtsp_caps video_step_def rtsp_video_sink_event_def wp_get_bind wp_return split: option.split)
  next
    case (Qcap_video x payload key cs)
    have K: "key \<longrightarrow> K (take n payload)" for n
      using assms(2) [of "take n payload"] Qcap_video by (simp add: flagged_def min_def)
    have "wp (qcap_dante_video_callback api x payload key cs) (\<lambda>_. gated K) s"
      unfolding qcap_dante_video_callback_def Let_def wp_bind wp_if wp_return
      by (rule wp_conseq [OF lock [OF assms(4)]], simp, intro if_intro wp_conseq [OF lock] wp_conseq [OF stats] wp_conseq [OF feed])
        (use K in \<open>auto intro: wp_conseq [OF stats] wp_conseq [OF feed] wp_conseq [OF lock]\<close>)
    then show ?thesis by (simp add: Qcap_video video_step_def)
  next
    case (Qcap_connected b w h fps)
    have "stays (gate_same K) (qcap_dante_connected_callback b w h fps)"
      unfolding qcap_dante_connected_callback_def start_qcap_decoder_from_format_def
      by (intro gate_intros; simp add: gate_same_def Let_def)
    then show ?thesis using gated_stays [OF _ assms(4)] by (simp add: Qcap_connected video_step_def)
  next
    case Decoder_thread
    then show ?thesis
      using thread_gated [OF assms(4)] init assms(4) by (simp add: video_step_def wp_get_bind wp_return)
  next
    case (Frames_ready n)
    have "stays (gate_same K) (do { on_vdec_event_callback api n; ret () })" by (intro gate_intros gate_callback)
    then show ?thesis using gated_stays [OF _ assms(4)] by (simp add: Frames_ready video_step_def)
  next
    case Stop_video
    then show ?thesis using stop by (simp add: video_step_def stop_video_def)
  qed
qed

lemma session_gated:
  assumes "display_results api" and "\<And>bytes. flagged qs bytes \<Longrightarrow> K bytes" and "video_inv s" and "gated K s"
  shows "wp (video_session api e qs) (\<lambda>_. gated K) s"
  using assms(2-4)
proof (induction qs arbitrary: s)
  case (Cons q qs)
  have K: "K bytes" if "flagged [q] bytes \<or> flagged qs bytes" for bytes
    by (rule Cons.prems(1)) (use that in \<open>auto simp: flagged_def\<close>)
  show ?case
    unfolding video_session.simps wp_bind
    by (rule wp_conseq [OF wp_conj [OF vkeepsD [OF vkeeps_step [OF assms(1)] Cons.prems(2)]
          step_gated [OF assms(1) _ Cons.prems(2,3)]]])
      (use K Cons.IH in auto)
qed (simp add: wp_rules)



text \<open>
  After a refusal the next packet need not be a key frame: the flag is cleared before the packet is
  handed over.
\<close>

definition pool_once_empty :: "vcall api" where
  "pool_once_empty tr q =
     (case q of
        PoolGet p n \<Rightarrow> if tr = [(VStart V_decoder 1, (0, []))] then (1, []) else (0, [1])
      | LockData b \<Rightarrow> (1, [])
      | PktGet p \<Rightarrow> (0, [1, 1048576])
      | _ \<Rightarrow> (0, []))"

definition just_started :: rx_video where
  "just_started = (video_init True True True)\<lparr>trace := [(VStart V_decoder 1, (0, []))], vdec := 1, vdec_started := True,
     vdec_event := 1, vdec_event_handlers := 1, vdec_packet_pool := 1, extra_data := Some [1], decoder_wait_for_idr := True\<rparr>"

lemma unit_idr: "has_idr (au_data idr_unit)" "\<not> has_idr (au_data slice_unit)"
  by code_simp+

lemma wait_for_idr_lost:
  "wp (do { decode_unit pool_once_empty idr_unit; decode_unit pool_once_empty slice_unit })
     (\<lambda>_ t. idr_gate K (trace t) = Lost \<and> decoder_pushed_packets t = 1 \<and> decoder_dropped_packets t = 1) just_started"
  using unit_idr
  by (simp add: decode_unit_def submit_vdec_packet_def wp_rules wp_call just_started_def video_init_def pool_once_empty_def
      Let_def outp_def QCAP_RS_SUCCESSFUL_def gate_step_def) (simp add: idr_unit_def slice_unit_def)

section \<open>What becomes of an access unit\<close>

definition tally :: "rx_video \<Rightarrow> u64 \<times> u64 \<times> u64 \<times> u64" where
  "tally s = (decoder_input_packets s, decoder_pushed_packets s, decoder_dropped_packets s, no_sps_count s)"

definition tally_same :: "rx_video \<Rightarrow> rx_video \<Rightarrow> bool" where
  "tally_same s t \<longleftrightarrow> tally t = tally s \<and> vdec_started t = vdec_started s \<and> decode_enabled t = decode_enabled s \<and>
     decoder_initializing t = decoder_initializing s"

interpretation tl: step_relation tally_same
  by unfold_locales (auto simp: tally_same_def)

lemma tally_call: "stays tally_same (call api c)"
  by (simp add: stays_def wp_call tally_same_def tally_def)

lemma tally_modify: "(\<And>s. tally_same s (f s)) \<Longrightarrow> stays tally_same (modify f)"
  by (simp add: stays_def wp_modify)

lemma tally_if: "(b \<Longrightarrow> stays tally_same m) \<Longrightarrow> (\<not> b \<Longrightarrow> stays tally_same n) \<Longrightarrow> stays tally_same (if b then m else n)"
  by simp

lemmas tally_intros = tl.ret tl.get tl.bind tally_call tally_modify tally_if

lemma tally_apply_caps: "stays tally_same (rx_h264_apply_caps api c)"
proof (cases "caps_values c")
  case (Some v)
  then show ?thesis
    unfolding rx_h264_apply_caps_def
    by (cases v) (simp, intro tally_intros; simp add: tally_same_def tally_def set_format_def)
qed (simp add: rx_h264_apply_caps_def tl.ret)

lemma tally_parser: "stays tally_same (rx_h264_parser_push api bytes ts cs)"
proof -
  have "stays tally_same (apply_all_caps api cs)" for cs
    by (induction cs) (auto intro: tl.ret tl.bind tally_apply_caps)
  then show ?thesis unfolding rx_h264_parser_push_def by (intro tally_intros; simp)
qed

lemma tally_file: "stays tally_same (write_reconstructed api bytes)"
  unfolding write_reconstructed_def by (intro tally_intros; simp add: tally_same_def tally_def)

text \<open>A submission counts the packet as pushed or as dropped, once.\<close>

lemma submit_tally:
  assumes "tally s = (i, p, d, w)"
  shows "wp (submit_vdec_packet api bytes key ts) (\<lambda>_ t. tally t = (i, p + 1, d, w) \<or> tally t = (i, p, d + 1, w)) s"
  unfolding submit_vdec_packet_def Let_def wp_get wp_bind wp_if wp_return wp_modify
  by (rule wp_callI if_intro | simp only: trace_twice trace_of | (use assms in \<open>simp add: tally_def; fail\<close>))+

lemma decode_tally:
  assumes "tally s = (i, p, d, w)"
  shows "wp (decode_unit api au) (\<lambda>_ t.
    (if vdec_started s
     then tally t = (i + 1, p + 1, d, w) \<or> tally t = (i + 1, p, d + 1, w)
     else tally t = (i + 1, p, d, w + 1) \<or> (tally t = (i + 1, p, d, 0) \<and> decoder_initializing t))) s"
  unfolding decode_unit_def count_drop_def start_vdec_decoder_async_def Let_def wp_bind wp_modify wp_get wp_if wp_return
  using assms by (auto simp: tally_def [symmetric] intro!: wp_conseq [OF submit_tally [where i = "i + 1" and p = p and d = d and w = w]])
    (auto simp: tally_def)

text \<open>
  C19: every access unit of four bytes or more is accounted for once.  While the decoder is being set
  up, and when the unit carries the drop flag, it counts as dropped and nothing else; otherwise, with
  decoding enabled, it counts as input, and then, with a running decoder, either as pushed or as
  dropped, and without one either as waiting for the parameter sets or it starts the decoder.
\<close>

theorem access_unit_accounted:
  assumes "4 \<le> length (au_data au)" and "tally s = (i, p, d, w)"
  shows "wp (rx_video_feed_decoder api au) (\<lambda>_ t.
    (if decoder_initializing s then tally t = (i, p, d + 1, w)
     else if \<not> decode_enabled s then tally t = (i, p, d, w)
     else if au_drop au then tally t = (i, p, d + 1, w)
     else if vdec_started s then tally t = (i + 1, p + 1, d, w) \<or> tally t = (i + 1, p, d + 1, w)
     else tally t = (i + 1, p, d, w + 1) \<or> (tally t = (i + 1, p, d, 0) \<and> decoder_initializing t))) s"
proof -
  let ?Q = "\<lambda>_ t. if \<not> decode_enabled s then tally t = (i, p, d, w)
     else if vdec_started s then tally t = (i + 1, p + 1, d, w) \<or> tally t = (i + 1, p, d + 1, w)
     else tally t = (i + 1, p, d, w + 1) \<or> (tally t = (i + 1, p, d, 0) \<and> decoder_initializing t)"
  have observe: "wp (if b then rx_h264_parser_push api x y z else ret ()) (\<lambda>_. tally_same s) s" for b x y z
    using tally_parser by (simp add: stays_def wp_return tl.refl)
  have rest: "wp (do {
       s \<leftarrow> State_Monad.get;
       if decoder_initializing s then count_drop
       else do {
         write_reconstructed api (au_data au);
         if \<not> decode_enabled s then ret () else decode_unit api au } }) ?Q t"
    if t: "tally_same s t" "\<not> decoder_initializing s" for t
  proof -
    have i: "\<not> decoder_initializing t" using t by (simp add: tally_same_def)
    have "wp (write_reconstructed api (au_data au)) (\<lambda>_. tally_same s) t"
      using tally_file t(1) by (auto simp: stays_def intro: wp_conseq tl.trans)
    then show ?thesis
      unfolding wp_get_bind if_not_P [OF i] wp_bind [of "write_reconstructed _ _"]
    proof (rule wp_conseq)
      fix u :: rx_video
      assume u: "tally_same s u"
      then have "tally u = (i, p, d, w)" using assms(2) by (simp add: tally_same_def)
      from decode_tally [OF this, of api au] show "wp (if \<not> decode_enabled t then ret () else decode_unit api au) ?Q u"
        using u t assms(2) by (auto simp: tally_same_def wp_return)
    qed
  qed
  note go = rest [unfolded wp_get_bind]
  show ?thesis
  proof (cases "decoder_initializing s \<or> au_drop au")
    case True
    then show ?thesis
      using assms unfolding rx_video_feed_decoder_def wp_get_bind
      by (auto simp: count_drop_def wp_rules wp_call tally_def)
  next
    case False
    have ifs: "\<not> length (au_data au) < 4" "\<not> decoder_initializing s" "\<not> au_drop au" using False assms(1) by simp_all
    have "wp (rx_video_feed_decoder api au) ?Q s"
      unfolding rx_video_feed_decoder_def wp_get_bind if_not_P [OF ifs(1)] if_not_P [OF ifs(2)] if_not_P [OF ifs(3)]
        wp_bind [of "if _ then rx_h264_parser_push _ _ _ _ else _"]
      by (rule wp_conseq [OF observe]) (rule go [OF _ ifs(2)])
    then show ?thesis by (rule wp_conseq) (use False in \<open>auto split: if_splits\<close>)
  qed
qed

theorem access_unit_accounted_witness:
  "wp (rx_video_feed_decoder pool_once_empty idr_unit) (\<lambda>_ t. tally t = (1, 1, 0, 0) \<or> tally t = (1, 0, 1, 0)) just_started"
  by (rule wp_conseq [OF access_unit_accounted [where i = 0 and p = 0 and d = 0 and w = 0]])
    (simp_all add: idr_unit_def just_started_def video_init_def tally_def)

end
