(* ===== verification/Rx_Pipeline.thy ===== *)
theory Rx_Pipeline
  imports Video_Flow
begin

text \<open>
  The life of a receiver in src/src/tests/sc6f0-dante-rx.cpp: \<open>start_dante_rx\<close> builds the zstreamer
  pipeline, the observer of the parameter sets and the worker threads around the video and audio
  paths, \<open>stop_dante_rx\<close> takes them down; \<open>start_qcap_dante_rx\<close> and \<open>stop_qcap_dante_rx\<close> do the same
  on the QCAP library.  Calls of zstreamer, QCAP and the C library are \<open>zcall\<close>; the video path is the
  component of Rx_Video, reached through \<open>Vid\<close>.  The reply 0 stands for \<open>ZST_OK\<close>.
\<close>

section \<open>Calls and state\<close>

datatype factory = F_session string | F_coordinator | F_dep_source | F_h26x_parser

datatype worker = W_scheduler | W_bus

datatype zvalue = Z_str string | Z_uint nat

text \<open>The kinds of objects that calls make and destroy.\<close>

datatype zkind = K_object | K_memory | K_pipeline | K_element | K_pad | K_clock | K_scheduler | K_server | K_client

datatype zcall =
    New zkind                       \<comment> \<open>\<open>new\<close>, \<open>calloc\<close> and the create functions; the address, 0 for NULL\<close>
  | Delete zkind int                \<comment> \<open>\<open>delete\<close>, \<open>free\<close> and the destroy functions\<close>
  | ElemNew factory                 \<comment> \<open>an element of the library, 0 for NULL\<close>
  | ElemCreate string int           \<comment> \<open>an element with private data, which belong to it on success\<close>
  | ElemSet int string zvalue
  | ElemState int string
  | GetPad int string
  | AddPad int int                  \<comment> \<open>the pad belongs to the element on success\<close>
  | PadLink int int
  | RequestRxPad int
  | AttachSession int int
  | SetBus int int
  | ApplyFlow int string string nat
  | PipeAdd int int                 \<comment> \<open>the element belongs to the pipeline from here on\<close>
  | PipeSetClock int int
  | PipeSetState int string
  | SchedAttach int int
  | SchedStop int
  | ThreadCreate worker             \<comment> \<open>0 on success; replies \<open>[thread]\<close>\<close>
  | ThreadJoin worker
  | FOpen string                    \<comment> \<open>0 for NULL\<close>
  | FClose
  | QCreate zkind int               \<comment> \<open>the result; replies \<open>[handle]\<close>, 0 when the handle was not written\<close>
  | QSet zkind int string
  | QStart zkind int
  | QStop zkind int
  | Vid vcall

text \<open>The video path, behind a constructor.\<close>

datatype vpath = Vpath (video_of: rx_video)

record rx_pipe = "zcall io" +
  rx_self :: int                    \<comment> \<open>the object\<close>
  pipe :: int
  sched :: int
  rx_clock :: int
  session :: int
  coordinator :: int
  rx_dep_src :: int
  rx_video_sink :: int
  h264_parser_el :: int
  h264_caps_sink :: int
  rx_audio_sink :: int
  rx_video_pad :: int
  video_stats_p :: int
  audio_stats_p :: int
  bus_th :: int
  running :: bool
  vpath :: vpath

type_synonym 'a zp = "(rx_pipe, 'a) state"

text \<open>The arguments of \<open>start_dante_rx\<close>, and the option for batched audio.\<close>

record rx_config =
  g_dvr_socket :: string
  g_dep_name :: string
  g_channels :: string
  g_sample_rate :: nat
  g_path :: string                  \<comment> \<open>\<open>reconstructed_path\<close>\<close>
  g_decode :: bool
  g_stats_only :: bool
  g_direct :: bool
  g_peer :: string
  g_local :: string
  g_port :: nat
  g_display :: bool
  g_reorder_window :: nat
  g_reorder_timeout :: nat
  g_auto :: bool
  g_batched :: bool

definition new_rx :: "bool \<Rightarrow> bool \<Rightarrow> int \<Rightarrow> rx_pipe \<Rightarrow> rx_pipe" where
  "new_rx decode display p s =
     \<lparr>trace = trace s, rx_self = p, pipe = 0, sched = 0, rx_clock = 0, session = 0, coordinator = 0, rx_dep_src = 0,
      rx_video_sink = 0, h264_parser_el = 0, h264_caps_sink = 0, rx_audio_sink = 0, rx_video_pad = 0, video_stats_p = 0,
      audio_stats_p = 0, bus_th = 0, running = False,
      vpath = Vpath ((video_init decode display False)\<lparr>h264_parser := False\<rparr>)\<rparr>"

definition on_video :: "zcall api \<Rightarrow> (vcall api \<Rightarrow> 'a rv) \<Rightarrow> 'a zp" where
  "on_video = embed_at Vid (\<lambda>s. video_of (vpath s)) (\<lambda>v s. s\<lparr>vpath := Vpath v\<rparr>)"

definition set_video :: "(rx_video \<Rightarrow> rx_video) \<Rightarrow> unit zp" where
  "set_video f = modify (\<lambda>s. s\<lparr>vpath := Vpath (f (video_of (vpath s)))\<rparr>)"

text \<open>The audio sink of the receiver, below its display.\<close>

definition rx_start_sound :: "zcall api \<Rightarrow> out_env \<Rightarrow> int zp" where
  "rx_start_sound api e = on_video api (\<lambda>v. on_screen v (\<lambda>d. start_sound d e))"

definition rx_stop_sound :: "zcall api \<Rightarrow> unit zp" where
  "rx_stop_sound api = on_video api (\<lambda>v. on_screen v stop_sound)"

section \<open>The elements\<close>

primrec destroy_all :: "zcall api \<Rightarrow> int list \<Rightarrow> unit zp" where
  "destroy_all api [] = ret ()"
| "destroy_all api (x # xs) = do { call api (Delete K_element x); destroy_all api xs }"

text \<open>\<open>if (x) zst_element_destroy(x)\<close>, as a list.\<close>

definition opt :: "int \<Rightarrow> int list" where
  "opt x = (if x = 0 then [] else [x])"

text \<open>
  \<open>create_rx_video_sink\<close> and \<open>create_rx_audio_sink\<close>, which differ in the name and the push
  function: the element and its statistics, or 0.
\<close>

definition create_rx_sink :: "zcall api \<Rightarrow> string \<Rightarrow> (int \<times> int) zp" where
  "create_rx_sink api name = do {
     priv \<leftarrow> call api (New K_memory);
     if fst priv = 0 then ret (0, 0) else do {
     el \<leftarrow> call api (ElemCreate name (fst priv));
     if fst el = 0 then do { call api (Delete K_memory (fst priv)); ret (0, 0) } else do {
     pad \<leftarrow> call api (New K_pad);
     if fst pad = 0 then do { call api (Delete K_element (fst el)); ret (0, 0) } else do {
     r \<leftarrow> call api (AddPad (fst el) (fst pad));
     if fst r \<noteq> 0 then do { call api (Delete K_pad (fst pad)); call api (Delete K_element (fst el)); ret (0, 0) }
     else ret (fst el, fst priv) } } } }"

definition create_rx_video_sink :: "zcall api \<Rightarrow> (int \<times> int) zp" where
  "create_rx_video_sink api = create_rx_sink api ''dante_rx_video_sink''"

definition create_rx_audio_sink :: "zcall api \<Rightarrow> (int \<times> int) zp" where
  "create_rx_audio_sink api = create_rx_sink api ''dante_rx_audio_sink''"

definition link_elements :: "zcall api \<Rightarrow> int \<Rightarrow> int \<Rightarrow> bool zp" where
  "link_elements api a b = do {
     src \<leftarrow> call api (GetPad a ''src'');
     snk \<leftarrow> call api (GetPad b ''sink'');
     r \<leftarrow> call api (PadLink (fst src) (fst snk));
     ret (fst r = 0) }"

text \<open>A chain of calls that ends at the first that is refused.\<close>

primrec all_ok :: "zcall api \<Rightarrow> zcall list \<Rightarrow> bool zp" where
  "all_ok api [] = ret True"
| "all_ok api (c # cs) = do { r \<leftarrow> call api c; if fst r \<noteq> 0 then ret False else all_ok api cs }"

definition configure_parser :: "zcall api \<Rightarrow> int \<Rightarrow> int \<Rightarrow> bool zp" where
  "configure_parser api p c = do {
     a \<leftarrow> all_ok api [ElemSet p ''codec'' (Z_str ''h264''), ElemSet p ''input-stream-format'' (Z_str ''byte-stream'')];
     if \<not> a then ret False else do {
     l \<leftarrow> link_elements api p c;
     if \<not> l then ret False
     else all_ok api [ElemState p ''READY'', ElemState c ''READY'', ElemState p ''PLAYING'', ElemState c ''PLAYING''] } }"

definition set_parser :: "int \<Rightarrow> int \<Rightarrow> unit zp" where
  "set_parser p c = do {
     modify (\<lambda>s. s\<lparr>h264_parser_el := p, h264_caps_sink := c\<rparr>);
     set_video (\<lambda>v. v\<lparr>h264_parser := p \<noteq> 0\<rparr>) }"

text \<open>The label \<open>fail\<close>.\<close>

definition fail_parser :: "zcall api \<Rightarrow> int \<Rightarrow> int \<Rightarrow> int zp" where
  "fail_parser api p c = do { destroy_all api (opt p @ opt c); set_parser 0 0; ret (- 1) }"

definition rx_h264_parser_create :: "zcall api \<Rightarrow> int zp" where
  "rx_h264_parser_create api = do {
     p \<leftarrow> call api (ElemNew F_h26x_parser);
     priv \<leftarrow> call api (New K_memory);
     if fst p = 0 \<or> fst priv = 0 then do { call api (Delete K_memory (fst priv)); fail_parser api (fst p) 0 } else do {
     c \<leftarrow> call api (ElemCreate ''dante_rx_h264_caps_sink'' (fst priv));
     if fst c = 0 then do { call api (Delete K_memory (fst priv)); fail_parser api (fst p) 0 } else do {
     pad \<leftarrow> call api (New K_pad);
     if fst pad = 0 then fail_parser api (fst p) (fst c) else do {
     r \<leftarrow> call api (AddPad (fst c) (fst pad));
     if fst r \<noteq> 0 then do { call api (Delete K_pad (fst pad)); fail_parser api (fst p) (fst c) } else do {
     ok \<leftarrow> configure_parser api (fst p) (fst c);
     if \<not> ok then fail_parser api (fst p) (fst c)
     else do { set_parser (fst p) (fst c); ret 0 } } } } } }"

definition null_state :: "zcall api \<Rightarrow> int \<Rightarrow> unit zp" where
  "null_state api x = (if x \<noteq> 0 then do { call api (ElemState x ''NULL''); ret () } else ret ())"

definition rx_h264_parser_destroy :: "zcall api \<Rightarrow> unit zp" where
  "rx_h264_parser_destroy api = do {
     s \<leftarrow> State_Monad.get;
     null_state api (h264_parser_el s);
     null_state api (h264_caps_sink s);
     destroy_all api (opt (h264_parser_el s) @ opt (h264_caps_sink s));
     set_parser 0 0 }"

section \<open>The start\<close>

text \<open>The end of an error path: the elements in the order of the code, the pipeline, the receiver.\<close>

definition abandon :: "zcall api \<Rightarrow> int list \<Rightarrow> bool zp" where
  "abandon api es = do {
     destroy_all api es;
     s \<leftarrow> State_Monad.get;
     call api (Delete K_pipeline (pipe s));
     call api (Delete K_object (rx_self s));
     ret False }"

definition open_session :: "zcall api \<Rightarrow> rx_config \<Rightarrow> bool zp" where
  "open_session api g =
     (if g_direct g then ret True else do {
        x \<leftarrow> call api (ElemNew (F_session (g_dvr_socket g)));
        modify (\<lambda>s. s\<lparr>session := fst x\<rparr>);
        if fst x = 0 then ret False else do {
        call api (ElemSet (fst x) ''tx-video-channels'' (Z_uint 0));
        call api (ElemSet (fst x) ''rx-video-channels'' (Z_uint 1));
        ret True } })"

definition configure_dep_audio_batch :: "zcall api \<Rightarrow> rx_config \<Rightarrow> int \<Rightarrow> bool zp" where
  "configure_dep_audio_batch api g source =
     (if \<not> g_batched g then ret True
      else all_ok api [ElemSet source ''queue-time-ms'' (Z_str ''100''), ElemSet source ''block-time-ms'' (Z_str ''20'')])"

text \<open>The audio part: the elements, or an error with everything released.\<close>

definition abandon_audio :: "zcall api \<Rightarrow> int \<Rightarrow> bool zp" where
  "abandon_audio api dep = do {
     destroy_all api (opt dep);
     rx_h264_parser_destroy api;
     s \<leftarrow> State_Monad.get;
     abandon api ([rx_video_sink s, coordinator s] @ opt (session s)) }"

definition open_audio :: "zcall api \<Rightarrow> out_env \<Rightarrow> rx_config \<Rightarrow> bool zp" where
  "open_audio api e g =
     (if g_direct g \<or> g_stats_only g then ret True else do {
        x \<leftarrow> call api (ElemNew F_dep_source);
        modify (\<lambda>s. s\<lparr>rx_dep_src := fst x\<rparr>);
        ok \<leftarrow> (if fst x = 0 then ret False else configure_dep_audio_batch api g (fst x));
        if \<not> ok then abandon_audio api (fst x) else do {
        call api (ElemSet (fst x) ''shm-name'' (Z_str (g_dep_name g)));
        call api (ElemSet (fst x) ''channels'' (Z_str (g_channels g)));
        call api (ElemSet (fst x) ''expected-sample-rate'' (Z_uint (g_sample_rate g)));
        k \<leftarrow> create_rx_audio_sink api;
        modify (\<lambda>s. s\<lparr>rx_audio_sink := fst k, audio_stats_p := snd k\<rparr>);
        if fst k = 0 then abandon_audio api (fst x) else do {
        link_elements api (fst x) (fst k);
        (if \<not> g_auto g then do { rx_start_sound api e; ret () } else ret ());
        ret True } } })"

definition open_dump :: "zcall api \<Rightarrow> rx_config \<Rightarrow> bool zp" where
  "open_dump api g =
     (if g_path g = [] then ret True else do {
        f \<leftarrow> call api (FOpen (g_path g));
        if fst f = 0 then ret False
        else do { set_video (\<lambda>v. v\<lparr>reconstructed_file := True\<rparr>); ret True } })"

definition run_pipeline :: "zcall api \<Rightarrow> rx_config \<Rightarrow> unit zp" where
  "run_pipeline api g = do {
     s \<leftarrow> State_Monad.get;
     c \<leftarrow> call api (New K_clock);
     modify (\<lambda>s. s\<lparr>rx_clock := fst c\<rparr>);
     call api (PipeSetClock (pipe s) (fst c));
     call api (PipeSetState (pipe s) ''PLAYING'');
     (if session s \<noteq> 0 then do {
        call api (SetBus (session s) (pipe s));
        call api (ElemState (session s) ''PLAYING'');
        ret () } else ret ());
     x \<leftarrow> call api (New K_scheduler);
     modify (\<lambda>s. s\<lparr>sched := fst x\<rparr>);
     call api (SchedAttach (fst x) (pipe s));
     call api (ThreadCreate W_scheduler);
     (if g_direct g then do {
        call api (ApplyFlow (coordinator s) (g_local g) (g_peer g) (g_port g));
        ret () } else ret ());
     modify (\<lambda>s. s\<lparr>running := True\<rparr>);
     t \<leftarrow> call api (ThreadCreate W_bus);
     modify (\<lambda>s. s\<lparr>bus_th := outp t 0\<rparr>) }"

definition launch :: "zcall api \<Rightarrow> rx_config \<Rightarrow> bool zp" where
  "launch api g = do {
     s \<leftarrow> State_Monad.get;
     call api (PipeAdd (pipe s) (coordinator s));
     call api (PipeAdd (pipe s) (rx_video_sink s));
     (if \<not> g_direct g \<and> \<not> g_stats_only g then do {
        call api (PipeAdd (pipe s) (rx_dep_src s));
        call api (PipeAdd (pipe s) (rx_audio_sink s));
        ret () } else ret ());
     ok \<leftarrow> open_dump api g;
     if \<not> ok then ret False else do { run_pipeline api g; ret True } }"

definition open_video :: "zcall api \<Rightarrow> out_env \<Rightarrow> rx_config \<Rightarrow> bool zp" where
  "open_video api e g = do {
     s \<leftarrow> State_Monad.get;
     k \<leftarrow> create_rx_video_sink api;
     modify (\<lambda>s. s\<lparr>rx_video_sink := fst k, video_stats_p := snd k\<rparr>);
     if fst k = 0 then abandon api [coordinator s, session s] else do {
     h \<leftarrow> rx_h264_parser_create api;
     if h \<noteq> 0 then abandon api ([fst k, coordinator s] @ opt (session s)) else do {
     q \<leftarrow> call api (GetPad (fst k) ''sink'');
     call api (PadLink (rx_video_pad s) (fst q));
     a \<leftarrow> open_audio api e g;
     if \<not> a then ret False else launch api g } } }"

definition open_coordinator :: "zcall api \<Rightarrow> out_env \<Rightarrow> rx_config \<Rightarrow> bool zp" where
  "open_coordinator api e g = do {
     s \<leftarrow> State_Monad.get;
     c \<leftarrow> call api (ElemNew F_coordinator);
     modify (\<lambda>s. s\<lparr>coordinator := fst c\<rparr>);
     if fst c = 0 then abandon api (opt (session s)) else do {
     (if session s \<noteq> 0 then do { call api (AttachSession (fst c) (session s)); ret () } else ret ());
     call api (ElemSet (fst c) ''reorder-window'' (Z_uint (g_reorder_window g)));
     call api (ElemSet (fst c) ''reorder-timeout-ms'' (Z_uint (g_reorder_timeout g)));
     v \<leftarrow> call api (RequestRxPad (fst c));
     modify (\<lambda>s. s\<lparr>rx_video_pad := fst v\<rparr>);
     if fst v = 0 then abandon api [fst c, session s] else open_video api e g } }"

definition start_dante_rx :: "zcall api \<Rightarrow> out_env \<Rightarrow> rx_config \<Rightarrow> bool zp" where
  "start_dante_rx api e g = do {
     x \<leftarrow> call api (New K_object);
     modify (new_rx (g_decode g) (g_display g) (fst x));
     p \<leftarrow> call api (New K_pipeline);
     modify (\<lambda>s. s\<lparr>pipe := fst p\<rparr>);
     if fst p = 0 then do { call api (Delete K_object (fst x)); ret False } else do {
     ok \<leftarrow> open_session api g;
     if \<not> ok then abandon api [] else open_coordinator api e g } }"

section \<open>The stop\<close>

definition stop_workers :: "zcall api \<Rightarrow> unit zp" where
  "stop_workers api = do {
     modify (\<lambda>s. s\<lparr>running := False\<rparr>);
     s \<leftarrow> State_Monad.get;
     (if bus_th s \<noteq> 0 then do { call api (ThreadJoin W_bus); modify (\<lambda>s. s\<lparr>bus_th := 0\<rparr>) } else ret ());
     (if sched s \<noteq> 0 then do {
        call api (SchedStop (sched s));
        call api (ThreadJoin W_scheduler);
        call api (Delete K_scheduler (sched s));
        modify (\<lambda>s. s\<lparr>sched := 0\<rparr>) } else ret ()) }"

definition close_dump :: "zcall api \<Rightarrow> unit zp" where
  "close_dump api = do {
     s \<leftarrow> State_Monad.get;
     (if reconstructed_file (video_of (vpath s)) then do {
        call api FClose;
        set_video (\<lambda>v. v\<lparr>reconstructed_file := False\<rparr>) } else ret ()) }"

definition stop_session :: "zcall api \<Rightarrow> unit zp" where
  "stop_session api = do {
     s \<leftarrow> State_Monad.get;
     (if session s \<noteq> 0 then do {
        call api (ElemState (session s) ''NULL'');
        call api (Delete K_element (session s));
        modify (\<lambda>s. s\<lparr>session := 0\<rparr>) } else ret ()) }"

definition stop_pipe :: "zcall api \<Rightarrow> unit zp" where
  "stop_pipe api = do {
     s \<leftarrow> State_Monad.get;
     (if pipe s \<noteq> 0 then do {
        call api (PipeSetState (pipe s) ''NULL'');
        call api (Delete K_pipeline (pipe s));
        modify (\<lambda>s. s\<lparr>pipe := 0\<rparr>) } else ret ()) }"

definition stop_clock :: "zcall api \<Rightarrow> unit zp" where
  "stop_clock api = do {
     s \<leftarrow> State_Monad.get;
     (if rx_clock s \<noteq> 0 then do {
        call api (Delete K_clock (rx_clock s));
        modify (\<lambda>s. s\<lparr>rx_clock := 0\<rparr>) } else ret ()) }"

definition stop_dante_rx :: "zcall api \<Rightarrow> out_env \<Rightarrow> unit zp" where
  "stop_dante_rx api e = do {
     stop_workers api;
     rx_stop_sound api;
     on_video api (\<lambda>v. stop_video v e);
     stop_session api;
     close_dump api;
     stop_pipe api;
     rx_h264_parser_destroy api;
     set_video (\<lambda>v. v\<lparr>extra_data := None\<rparr>);
     stop_clock api;
     s \<leftarrow> State_Monad.get;
     call api (Delete K_object (rx_self s));
     ret () }"

section \<open>The ledger\<close>

text \<open>
  Objects that are alive and servers and clients that run.  A call may pass an object on: private
  data to an element, a pad to an element, an element to a pipeline, which destroy it with
  themselves.  A step of the ledger fails when a call takes what is not there, and when something
  is torn down while a worker of the receiver runs: its scheduler, its bus thread or the client of
  the QCAP library.  Destroying NULL does nothing for \<open>delete\<close>, \<open>free\<close> and
  \<open>zst_element_destroy\<close>.
\<close>

datatype zres = Z_own zkind int | Z_on zkind int | Z_thread worker | Z_file

definition zr :: "zkind \<Rightarrow> int \<Rightarrow> zres multiset" where
  "zr k p = (if p = 0 then {#} else {#Z_own k p#})"

fun z_takes :: "zcall \<Rightarrow> reply \<Rightarrow> zres multiset" where
  "z_takes (Delete k p) r = (if k = K_object \<or> k = K_memory \<or> k = K_element then zr k p else {#Z_own k p#})"
| "z_takes (ElemCreate n p) r = (if fst r = 0 then {#} else {#Z_own K_memory p#})"
| "z_takes (AddPad x p) r = (if fst r = 0 then {#Z_own K_pad p#} else {#})"
| "z_takes (PipeAdd p x) r = {#Z_own K_element x#}"
| "z_takes (ThreadJoin w) r = {#Z_thread w#}"
| "z_takes FClose r = {#Z_file#}"
| "z_takes (QStop k x) r = {#Z_on k x#}"
| "z_takes (Vid FileClose) r = {#Z_file#}"
| "z_takes _ r = {#}"

fun z_gives :: "zcall \<Rightarrow> reply \<Rightarrow> zres multiset" where
  "z_gives (New k) r = zr k (fst r)"
| "z_gives (ElemNew f) r = zr K_element (fst r)"
| "z_gives (ElemCreate n p) r = zr K_element (fst r)"
| "z_gives (ThreadCreate w) r = (if fst r = 0 then {#Z_thread w#} else {#})"
| "z_gives (FOpen n) r = (if fst r = 0 then {#} else {#Z_file#})"
| "z_gives (QCreate k x) r = zr k (outp r 0)"
| "z_gives (QStart k x) r = (if fst r = QCAP_RS_SUCCESSFUL then {#Z_on k x#} else {#})"
| "z_gives _ r = {#}"

fun z_teardown :: "zcall \<Rightarrow> bool" where
  "z_teardown (Delete k p) = True"
| "z_teardown FClose = True"
| "z_teardown _ = False"

fun working :: "zres \<Rightarrow> bool" where
  "working (Z_thread w) = True"
| "working (Z_on k x) = (k = K_client)"
| "working _ = False"

definition at_rest :: "zres multiset \<Rightarrow> bool" where
  "at_rest M \<longleftrightarrow> filter_mset working M = {#}"

fun z_ledger :: "zcall event list \<Rightarrow> zres multiset option" where
  "z_ledger [] = Some {#}"
| "z_ledger ((c, r) # tr) =
     (case z_ledger tr of
        None \<Rightarrow> None
      | Some M \<Rightarrow> if z_takes c r \<subseteq># M \<and> (z_teardown c \<longrightarrow> at_rest M) then Some (M - z_takes c r + z_gives c r) else None)"

lemma at_rest_simps [simp]:
  "at_rest {#}" "at_rest (M + N) = (at_rest M \<and> at_rest N)" "at_rest (add_mset x M) = (\<not> working x \<and> at_rest M)"
  by (auto simp: at_rest_def)

lemma at_rest_zr [simp]: "at_rest (zr k p)"
  by (simp add: zr_def)

lemma zr_0 [simp]: "zr k 0 = {#}"
  by (simp add: zr_def)

lemma trace_of_z: "trace (s\<lparr>trace := a\<rparr>) = (a :: zcall event list)"
  by simp

text \<open>The rule for a call: \<open>N\<close> is what the call does not take.\<close>

lemma wp_z:
  assumes "z_ledger (trace s) = Some M" and "\<And>r. \<exists>N. M = N + z_takes c r" and "z_teardown c \<Longrightarrow> at_rest M"
    and "\<And>r tr. z_ledger tr = Some (M - z_takes c r + z_gives c r) \<Longrightarrow> Q r (s\<lparr>trace := tr\<rparr>)"
  shows "wp (call api c) Q s"
proof -
  obtain N where "M = N + z_takes c (api (trace s) c)" using assms(2) by blast
  then have "z_takes c (api (trace s) c) \<subseteq># M" by simp
  then show ?thesis unfolding wp_call by (intro assms(4)) (use assms(1,3) in simp)
qed

lemma wp_z_take:
  assumes "z_ledger (trace s) = Some (N + X)" and "\<And>r. z_takes c r = X" and "\<And>r. z_gives c r = {#}"
    and "z_teardown c \<Longrightarrow> at_rest (N + X)"
    and "\<And>r tr. z_ledger tr = Some N \<Longrightarrow> Q r (s\<lparr>trace := tr\<rparr>)"
  shows "wp (call api c) Q s"
  by (rule wp_z [OF assms(1)]) (use assms in auto)

lemma wp_z_give:
  assumes "z_ledger (trace s) = Some M" and "\<And>r. z_takes c r = {#}" and "z_teardown c \<Longrightarrow> at_rest M"
    and "\<And>r tr. z_ledger tr = Some (M + z_gives c r) \<Longrightarrow> Q r (s\<lparr>trace := tr\<rparr>)"
  shows "wp (call api c) Q s"
  by (rule wp_z [OF assms(1)]) (use assms in auto)

text \<open>Programs that leave the objects as they are.\<close>

definition z_same :: "rx_pipe \<Rightarrow> rx_pipe \<Rightarrow> bool" where
  "z_same s t \<longleftrightarrow> (\<exists>tr. t = s\<lparr>trace := tr\<rparr> \<and> z_ledger tr = z_ledger (trace s))"

interpretation zs: step_relation z_same
proof unfold_locales
  show "z_same s s" for s unfolding z_same_def by (rule exI [of _ "trace s"]) simp
qed (auto simp: z_same_def)

lemma z_sameI: "z_ledger tr = z_ledger (trace s) \<Longrightarrow> z_same s (s\<lparr>trace := tr\<rparr>)"
  unfolding z_same_def by blast

lemma zs_call: "(\<And>r. z_takes c r = {#}) \<Longrightarrow> (\<And>r. z_gives c r = {#}) \<Longrightarrow> \<not> z_teardown c \<Longrightarrow> stays z_same (call api c)"
  unfolding stays_def wp_call by (intro allI z_sameI) (simp split: option.split)

lemmas zs_intros = zs.ret zs.get zs.bind zs_call

lemma zs_step:
  assumes "stays z_same m" and "\<And>x tr. z_ledger tr = z_ledger (trace s) \<Longrightarrow> wp (f x) Q (s\<lparr>trace := tr\<rparr>)"
  shows "wp (State_Monad.bind m f) Q s"
  unfolding wp_bind
  by (rule wp_conseq [where P = "\<lambda>_ t. z_same s t"]) (use assms in \<open>auto simp: stays_def z_same_def\<close>)

fun z_config :: "zcall \<Rightarrow> bool" where
  "z_config (ElemSet x n v) = True"
| "z_config (ElemState x n) = True"
| "z_config _ = False"

lemma zs_all_ok: "list_all z_config cs \<Longrightarrow> stays z_same (all_ok api cs)"
proof (induction cs)
  case (Cons c cs)
  then have "z_config c" by simp
  then show ?case using Cons by (cases c) (auto intro!: zs_intros)
qed (simp add: zs.ret)

lemma zs_link: "stays z_same (link_elements api a b)"
  unfolding link_elements_def by (intro zs_intros) simp_all

lemma zs_configure: "stays z_same (configure_parser api p c)"
  unfolding configure_parser_def by (auto intro!: zs_intros zs_all_ok zs_link)

lemma zs_batch: "stays z_same (configure_dep_audio_batch api g x)"
  unfolding configure_dep_audio_batch_def by (auto intro!: zs_intros zs_all_ok)

lemma zs_null: "stays z_same (null_state api x)"
  unfolding null_state_def by (auto intro!: zs_intros)

section \<open>Taking down\<close>

text \<open>
  The part of a call sequence that takes a receiver down, latest call first, on top of what was called
  before: every call into the video path, every release and every change of an element's state is made
  when nothing is at work, so that no thread or callback can meet what it takes away.
\<close>

fun dismantles :: "zcall \<Rightarrow> bool" where
  "dismantles (Vid v) = True"
| "dismantles (ElemState x n) = True"
| "dismantles (PipeSetState p n) = True"
| "dismantles (QStop k x) = (k \<noteq> K_client)"
| "dismantles c = z_teardown c"

fun dismantled_at_rest :: "zcall event list \<Rightarrow> zcall event list \<Rightarrow> bool" where
  "dismantled_at_rest base [] = True"
| "dismantled_at_rest base ((c, r) # new) =
     (dismantled_at_rest base new \<and>
      (dismantles c \<longrightarrow> (case z_ledger (new @ base) of Some M \<Rightarrow> at_rest M | None \<Rightarrow> False)))"

text \<open>What sets a worker to work.\<close>

fun hires :: "zcall \<Rightarrow> bool" where
  "hires (ThreadCreate w) = True"
| "hires (QStart k x) = True"
| "hires c = False"

lemma dismantled_append:
  "dismantled_at_rest base (new2 @ new1) = (dismantled_at_rest base new1 \<and> dismantled_at_rest (new1 @ base) new2)"
  by (induction new2) auto

lemma dismantled_plain:
  "list_all (\<lambda>(c, r). dismantles c \<longrightarrow> z_teardown c) new \<Longrightarrow> z_ledger (new @ base) \<noteq> None \<Longrightarrow> dismantled_at_rest base new"
  by (induction new) (auto split: option.splits if_splits)

lemma hires_gives: "\<not> hires c \<Longrightarrow> at_rest (z_gives c r)"
  by (cases c) simp_all

lemma at_rest_mono: "at_rest M \<Longrightarrow> at_rest (M - N)"
  unfolding at_rest_def filter_diff_mset by (erule ssubst) simp

lemma dismantled_idle:
  assumes "z_ledger base = Some M" and "at_rest M" and "list_all (\<lambda>(c, r). \<not> hires c) new" and "z_ledger (new @ base) \<noteq> None"
  shows "dismantled_at_rest base new \<and> at_rest (the (z_ledger (new @ base)))"
  using assms(3,4)
proof (induction new)
  case (Cons e new)
  obtain c r where e: "e = (c, r)" by (cases e)
  obtain N where n: "z_ledger (new @ base) = Some N" using Cons.prems(2) e by (auto split: option.splits)
  then have "dismantled_at_rest base new \<and> at_rest N" using Cons.IH Cons.prems(1) by simp
  then show ?case
    using Cons.prems e n by (auto simp: hires_gives at_rest_mono split: if_splits)
qed (use assms(1,2) in simp)

text \<open>Programs whose calls all have a property.\<close>

definition only_calls :: "('c \<Rightarrow> bool) \<Rightarrow> ('c, 'z) io_scheme \<Rightarrow> ('c, 'z) io_scheme \<Rightarrow> bool" where
  "only_calls P s t \<longleftrightarrow> (\<exists>new. trace t = new @ trace s \<and> list_all (\<lambda>(c, r). P c) new)"

interpretation oc: step_relation "only_calls P" for P
proof unfold_locales
  show "only_calls P s u" if "only_calls P s t" "only_calls P t u" for s t u
  proof -
    obtain new1 new2 where "trace t = new1 @ trace s" "list_all (\<lambda>(c, r). P c) new1" "trace u = new2 @ trace t"
      "list_all (\<lambda>(c, r). P c) new2"
      using \<open>only_calls P s t\<close> \<open>only_calls P t u\<close> unfolding only_calls_def by blast
    then show ?thesis unfolding only_calls_def by (intro exI [of _ "new2 @ new1"]) simp
  qed
qed (simp add: only_calls_def)

lemma oc_call: "P c \<Longrightarrow> stays (only_calls P) (call api c)"
  by (simp add: stays_def wp_call only_calls_def)

lemma oc_modify: "(\<And>s. trace (f s) = trace s) \<Longrightarrow> stays (only_calls P) (modify f)"
  by (simp add: stays_def wp_modify only_calls_def)

lemmas oc_intros = oc.ret oc.get oc.bind oc_call oc_modify

lemma oc_on_video:
  assumes "\<And>v. P (Vid v)"
  shows "stays (only_calls P) (on_video api prog)"
proof -
  have "wp (on_video api prog) (\<lambda>_ t. only_calls P s t) s" for s
    unfolding on_video_def
    by (rule wp_embed_at [where P = "\<lambda>_ _. True"])
      (auto simp: only_calls_def list_all_iff wp_def assms)
  then show ?thesis by (simp add: stays_def)
qed

lemma oc_set_video: "stays (only_calls P) (set_video f)"
  unfolding set_video_def by (intro oc_modify) simp

lemma oc_destroy_all: "(\<And>x. P (Delete K_element x)) \<Longrightarrow> stays (only_calls P) (destroy_all api xs)"
  by (induction xs) (auto intro!: oc_intros)

lemma oc_parser_destroy:
  assumes "\<And>x. P (Delete K_element x)" and "\<And>x n. P (ElemState x n)"
  shows "stays (only_calls P) (rx_h264_parser_destroy api)"
  unfolding rx_h264_parser_destroy_def null_state_def set_parser_def
  by (auto intro!: oc_intros oc_destroy_all oc_set_video assms)

text \<open>A first part that ends the workers, and a second that takes down what they used.\<close>

lemma wp_in_order:
  assumes "wp m (\<lambda>_ t. P t \<and> (\<exists>N. z_ledger (trace t) = Some N \<and> at_rest N)) s"
    and "stays (only_calls (\<lambda>c. dismantles c \<longrightarrow> z_teardown c)) m"
    and "\<And>t. P t \<Longrightarrow> wp n (\<lambda>_ u. Q u \<and> z_ledger (trace u) \<noteq> None) t"
    and "stays (only_calls (\<lambda>c. \<not> hires c)) n"
  shows "wp (State_Monad.bind m (\<lambda>_. n)) (\<lambda>_ u. Q u \<and> (\<exists>new. trace u = new @ trace s \<and> dismantled_at_rest (trace s) new)) s"
  unfolding wp_bind
proof (rule wp_conseq)
  have "wp m (\<lambda>_ t. only_calls (\<lambda>c. dismantles c \<longrightarrow> z_teardown c) s t) s" using assms(2) unfolding stays_def by blast
  with assms(1) show "wp m (\<lambda>_ t. (P t \<and> (\<exists>N. z_ledger (trace t) = Some N \<and> at_rest N)) \<and>
      only_calls (\<lambda>c. dismantles c \<longrightarrow> z_teardown c) s t) s" by (rule wp_conj)
next
  fix a t
  assume t: "(P t \<and> (\<exists>N. z_ledger (trace t) = Some N \<and> at_rest N)) \<and> only_calls (\<lambda>c. dismantles c \<longrightarrow> z_teardown c) s t"
  then obtain N where N: "z_ledger (trace t) = Some N" "at_rest N" by blast
  obtain new1 where n1: "trace t = new1 @ trace s" "list_all (\<lambda>(c, r). dismantles c \<longrightarrow> z_teardown c) new1"
    using t by (auto simp: only_calls_def)
  have first: "dismantled_at_rest (trace s) new1" by (rule dismantled_plain) (use n1 N in simp_all)
  have "wp n (\<lambda>_ u. Q u \<and> z_ledger (trace u) \<noteq> None) t" using assms(3) t by blast
  moreover have "wp n (\<lambda>_ u. only_calls (\<lambda>c. \<not> hires c) t u) t" using assms(4) unfolding stays_def by blast
  ultimately have "wp n (\<lambda>_ u. (Q u \<and> z_ledger (trace u) \<noteq> None) \<and> only_calls (\<lambda>c. \<not> hires c) t u) t" by (rule wp_conj)
  then show "wp n (\<lambda>_ u. Q u \<and> (\<exists>new. trace u = new @ trace s \<and> dismantled_at_rest (trace s) new)) t"
  proof (rule wp_conseq)
    fix b u
    assume u: "(Q u \<and> z_ledger (trace u) \<noteq> None) \<and> only_calls (\<lambda>c. \<not> hires c) t u"
    then obtain new2 where n2: "trace u = new2 @ trace t" "list_all (\<lambda>(c, r). \<not> hires c) new2" by (auto simp: only_calls_def)
    have "dismantled_at_rest (trace t) new2" using dismantled_idle [OF N n2(2)] u n2(1) by auto
    then show "Q u \<and> (\<exists>new. trace u = new @ trace s \<and> dismantled_at_rest (trace s) new)"
      using u first n1(1) n2(1) by (intro conjI exI [of _ "new2 @ new1"]) (simp_all add: dismantled_append)
  qed
qed

end
