(* ===== verification/Pipeline_Life.thy ===== *)
theory Pipeline_Life
  imports Rx_Pipeline
begin

text \<open>
  The objects of a receiver over its life, for the programs of Rx_Pipeline.
\<close>

section \<open>Elements\<close>

definition elems :: "int list \<Rightarrow> zres multiset" where
  "elems xs = sum_list (map (zr K_element) xs)"

lemma elems_simps [simp]: "elems [] = {#}" "elems (x # xs) = zr K_element x + elems xs" "elems (xs @ ys) = elems xs + elems ys"
  "elems (opt x) = zr K_element x"
  by (simp_all add: elems_def opt_def)

lemma at_rest_elems [simp]: "at_rest (elems xs)"
  by (induction xs) simp_all

lemma wp_destroy_all:
  assumes "z_ledger (trace s) = Some (M + elems xs)" and "at_rest M"
    and "\<And>tr. z_ledger tr = Some M \<Longrightarrow> Q () (s\<lparr>trace := tr\<rparr>)"
  shows "wp (destroy_all api xs) Q s"
  using assms(1,3)
proof (induction xs arbitrary: s)
  case Nil
  from Nil(2) [of "trace s"] Nil(1) show ?case by (simp add: wp_return)
next
  case (Cons x xs)
  show ?case
    unfolding destroy_all.simps wp_bind
  proof (rule wp_z_take [where N = "M + elems xs" and X = "zr K_element x"], goal_cases)
    case (5 r tr)
    then show ?case by (intro Cons.IH) (use Cons.prems(2) in simp_all)
  qed (use Cons.prems(1) assms(2) in \<open>simp_all add: ac_simps\<close>)
qed

lemma wp_create_sink:
  assumes "z_ledger (trace s) = Some M" and "at_rest M"
    and "\<And>tr x p. z_ledger tr = Some (M + zr K_element x) \<Longrightarrow> Q (x, p) (s\<lparr>trace := tr\<rparr>)"
  shows "wp (create_rx_sink api n) Q s"
proof -
  have none: "Q (0, 0) (s\<lparr>trace := tr\<rparr>)" if "z_ledger tr = Some M" for tr using assms(3) [of tr 0] that by simp
  have destroy: "wp (do { call api (Delete K_element x); ret (0, 0) }) Q (s\<lparr>trace := tr\<rparr>)"
    if "z_ledger tr = Some (M + zr K_element x)" for tr x
    unfolding wp_bind
    by (rule wp_z_take [where N = M and X = "zr K_element x"])
      (use that assms(2) none in \<open>simp_all add: wp_return\<close>)
  have add: "wp (do { r \<leftarrow> call api (AddPad x p);
      if fst r \<noteq> 0 then do { call api (Delete K_pad p); call api (Delete K_element x); ret (0, 0) } else ret (x, q) }) Q (s\<lparr>trace := tr\<rparr>)"
    if tr: "z_ledger tr = Some (M + zr K_element x + {#Z_own K_pad p#})" for tr x p q
    unfolding wp_bind [of "call _ (AddPad _ _)"]
  proof (rule wp_z [where M = "M + zr K_element x + {#Z_own K_pad p#}"], goal_cases)
    case (2 r)
    show ?case by (rule exI [of _ "M + zr K_element x + (if fst r = 0 then {#} else {#Z_own K_pad p#})"]) simp
  next
    case (4 r tr')
    show ?case
    proof (cases "fst r = 0")
      case True
      then show ?thesis using 4 assms(3) by (simp add: wp_return)
    next
      case False
      then show ?thesis
        unfolding if_P [OF False] wp_bind [of "call _ (Delete K_pad _)"]
        by (intro wp_z_take [where N = "M + zr K_element x" and X = "{#Z_own K_pad p#}"])
          (use 4 assms(2) destroy in simp_all)
    qed
  qed (use tr in simp_all)
  show ?thesis
    unfolding create_rx_sink_def wp_bind [of "call _ (New K_memory)"]
  proof (rule wp_z_give [OF assms(1)], goal_cases)
    case (3 priv tr)
    show ?case
    proof (cases "fst priv = 0")
      case True
      then show ?thesis using 3 none by (simp add: wp_return)
    next
      case False
      note priv = this
      show ?thesis
        unfolding if_not_P [OF False] wp_bind [of "call _ (ElemCreate _ _)"]
      proof (rule wp_z [where M = "M + {#Z_own K_memory (fst priv)#}"], goal_cases)
        case (2 r)
        show ?case by (rule exI [of _ "M + (if fst r = 0 then {#Z_own K_memory (fst priv)#} else {#})"]) simp
      next
        case (4 el tr')
        show ?case
        proof (cases "fst el = 0")
          case True
          then show ?thesis
            unfolding if_P [OF True] wp_bind
            by (intro wp_z_take [where N = M and X = "{#Z_own K_memory (fst priv)#}"])
              (use 4 priv assms(2) none in \<open>simp_all add: wp_return zr_def\<close>)
        next
          case False
          show ?thesis
            unfolding if_not_P [OF False] wp_bind [of "call _ (New K_pad)"]
          proof (rule wp_z_give [where M = "M + zr K_element (fst el)"], goal_cases)
            case (4 pad tr'')
            show ?case
              using 4 add destroy by (cases "fst pad = 0") (simp_all add: zr_def)
          qed (use 4 False in simp_all)
        qed
      qed (use 3 priv in \<open>simp_all add: zr_def\<close>)
    qed
  qed simp_all
qed

section \<open>The video path inside the receiver\<close>

text \<open>The calls of an embedded program, exactly: those it adds to its own trace.\<close>

lemma wp_embed_new:
  assumes "\<And>api'. (\<forall>tr c. \<exists>h. api' tr c = api h (tag c)) \<Longrightarrow>
      wp (prog api') (\<lambda>a t. P a t \<and> (\<exists>new. trace t = new @ trace (rd s))) (rd s)"
    and "\<And>a t new. P a t \<Longrightarrow> trace t = new @ trace (rd s) \<Longrightarrow>
      Q a (wr t (s\<lparr>trace := map (\<lambda>(c, r). (tag c, r)) new @ trace s\<rparr>))"
  shows "wp (embed_at tag rd wr api prog) Q s"
proof -
  define fresh :: "'a event list \<Rightarrow> 'b event list" where
    "fresh = (\<lambda>tr. map (\<lambda>(c, r). (tag c, r)) (take (length tr - length (trace (rd s))) tr))"
  have "wp (prog (\<lambda>tr c. api (fresh tr @ trace s) (tag c)))
      (\<lambda>a t. P a t \<and> (\<exists>new. trace t = new @ trace (rd s))) (rd s)" by (rule assms(1)) blast
  then show ?thesis
    using assms(2) by (fastforce simp: wp_def embed_at_def Let_def fresh_def split: prod.splits)
qed

text \<open>The video path closes the dump file at most once, and then knows it as closed.\<close>

primrec closes :: "vcall event list \<Rightarrow> nat" where
  "closes [] = 0"
| "closes (x # xs) = closes xs + (if fst x = FileClose then 1 else 0)"

lemma closes_append: "closes (xs @ ys) = closes xs + closes ys"
  by (induction xs) simp_all

lemma closes_drm: "closes (map (\<lambda>(c, y). (Drm c, y)) xs) = 0"
  by (induction xs) (auto split: prod.split)

definition file_rel :: "rx_video \<Rightarrow> rx_video \<Rightarrow> bool" where
  "file_rel s t \<longleftrightarrow> (\<exists>new. trace t = new @ trace s \<and> (reconstructed_file t \<longrightarrow> reconstructed_file s) \<and>
     closes new = (if reconstructed_file s \<and> \<not> reconstructed_file t then 1 else 0))"

lemma once:
  "(b \<longrightarrow> a) \<Longrightarrow> (c \<longrightarrow> b) \<Longrightarrow> (n :: nat) = (if a \<and> \<not> b then 1 else 0) \<Longrightarrow> m = (if b \<and> \<not> c then 1 else 0) \<Longrightarrow>
     m + n = (if a \<and> \<not> c then 1 else 0)"
  by (cases a; cases b; cases c) simp_all

interpretation fl: step_relation file_rel
proof unfold_locales
  show "file_rel s u" if "file_rel s t" "file_rel t u" for s t u
  proof -
    obtain xs where x: "trace t = xs @ trace s" "reconstructed_file t \<longrightarrow> reconstructed_file s"
      "closes xs = (if reconstructed_file s \<and> \<not> reconstructed_file t then 1 else 0)"
      using \<open>file_rel s t\<close> unfolding file_rel_def by blast
    obtain ys where y: "trace u = ys @ trace t" "reconstructed_file u \<longrightarrow> reconstructed_file t"
      "closes ys = (if reconstructed_file t \<and> \<not> reconstructed_file u then 1 else 0)"
      using \<open>file_rel t u\<close> unfolding file_rel_def by blast
    show ?thesis
      unfolding file_rel_def
    proof (intro exI [of _ "ys @ xs"] conjI)
      show "trace u = (ys @ xs) @ trace s" by (simp only: x(1) y(1) append_assoc)
      show "closes (ys @ xs) = (if reconstructed_file s \<and> \<not> reconstructed_file u then 1 else 0)"
        unfolding closes_append by (rule once [OF x(2) y(2) x(3) y(3)])
      show "reconstructed_file u \<longrightarrow> reconstructed_file s" using x(2) y(2) by blast
    qed
  qed
  show "file_rel s s" for s unfolding file_rel_def by (rule exI [of _ "[]"]) simp
qed

lemma file_relI:
  "trace t = new @ trace s \<Longrightarrow> closes new = 0 \<Longrightarrow> reconstructed_file t = reconstructed_file s \<Longrightarrow> file_rel s t"
  unfolding file_rel_def by (rule exI [of _ new]) simp

lemma fl_call: "c \<noteq> FileClose \<Longrightarrow> stays file_rel (call api c)"
  unfolding stays_def wp_call by (intro allI file_relI [where new = "[(c, api (trace s) c)]" for s]) simp_all

lemma fl_modify: "(\<And>s. reconstructed_file (f s) = reconstructed_file s \<and> trace (f s) = trace s) \<Longrightarrow> stays file_rel (modify f)"
  unfolding stays_def wp_modify by (intro allI file_relI [where new = "[]"]) simp_all

lemma fl_screen: "stays file_rel (on_screen api prog)"
proof -
  have "wp (prog api') (\<lambda>_ _. True) d" for api' d by (simp add: wp_def)
  then show ?thesis
    unfolding stays_def on_screen_def
    by (intro allI, intro wp_embed_at [where P = "\<lambda>_ _. True"])
      (simp, rule file_relI, simp, rule closes_drm, simp)
qed

lemma fl_if: "(b \<Longrightarrow> stays file_rel m) \<Longrightarrow> (\<not> b \<Longrightarrow> stays file_rel n) \<Longrightarrow> stays file_rel (if b then m else n)"
  by simp

lemmas fl_intros = fl.ret fl.get fl.bind fl_call fl_modify fl_if fl_screen

lemma fl_drop: "stays file_rel (drop_object api ob p (\<lambda>s. s\<lparr>vdec_event_handlers := i\<rparr>))"
  "stays file_rel (drop_object api ob p (\<lambda>s. s\<lparr>vdec_packet_pool := i\<rparr>))"
  "stays file_rel (drop_object api ob p (\<lambda>s. s\<lparr>vdec_event := i\<rparr>))"
  unfolding drop_object_def by (intro fl_intros; simp)+

lemma fl_async_stop: "stays file_rel (StopVdecAsync api)"
  unfolding StopVdecAsync_def by (intro fl_drop fl_intros; simp)

lemma fl_start_decoder: "stays file_rel (start_decoder api)"
  unfolding start_decoder_def SetupVdecAsync_def setup_handlers_def setup_pool_def fail_setup_def init_vdec_decoder_def
  by (intro fl_async_stop fl_intros; simp)

lemma fl_sink: "stays file_rel (start_vdec_sink api)" "stays file_rel (stop_vdec_sink api)"
  unfolding start_vdec_sink_def stop_vdec_sink_def drop_sink_def Let_def by (intro fl_intros; simp)+

lemma fl_thread: "stays file_rel (decoder_init_thread api e)"
  unfolding decoder_init_thread_def start_display_def by (intro fl_intros fl_sink fl_start_decoder; simp)

lemma fl_stop: "stays file_rel (stop_video api e)"
  unfolding stop_video_def stop_vdec_decoder_def stop_vdec_display_def
  by (intro fl_intros fl_sink fl_thread fl_async_stop fl_drop; simp)

lemma fl_apply_caps: "stays file_rel (rx_h264_apply_caps api c)"
proof (cases "caps_values c")
  case (Some v)
  then show ?thesis
    unfolding rx_h264_apply_caps_def by (cases v) (simp, intro fl_intros; simp add: set_format_def)
qed (simp add: rx_h264_apply_caps_def fl.ret)

lemma fl_parser: "stays file_rel (rx_h264_parser_push api bytes ts cs)"
proof -
  have "stays file_rel (apply_all_caps api cs)" for cs
    by (induction cs) (auto intro: fl.ret fl.bind fl_apply_caps)
  then show ?thesis unfolding rx_h264_parser_push_def by (intro fl_intros; simp)
qed

lemma fl_file: "stays file_rel (write_reconstructed api bytes)"
  unfolding write_reconstructed_def stays_def wp_bind wp_get wp_if wp_return wp_call wp_modify
  by (auto simp: file_rel_def fl.refl)

lemma fl_submit: "stays file_rel (submit_vdec_packet api bytes key ts)"
  unfolding submit_vdec_packet_def Let_def by (intro fl_intros; simp)

lemma fl_feed: "stays file_rel (rx_video_feed_decoder api au)"
  unfolding rx_video_feed_decoder_def decode_unit_def count_drop_def start_vdec_decoder_async_def Let_def
  by (intro fl_intros fl_parser fl_file fl_submit; simp)

lemma fl_callback: "stays file_rel (on_vdec_event_callback api n)"
proof (induction n)
  case (Suc n)
  show ?case
    unfolding on_vdec_event_callback.simps show_frame_def by (intro fl_intros Suc.IH) simp_all
qed (simp add: fl.ret)

lemma fl_connected: "stays file_rel (qcap_dante_connected_callback b w h fps)"
proof -
  have "reconstructed_file (let d = disp_of (screen s) in if vdec_started s then s
          else s\<lparr>screen := Screen (f d)\<rparr>) = reconstructed_file s" for s f by (simp add: Let_def)
  then show ?thesis
    unfolding qcap_dante_connected_callback_def start_qcap_decoder_from_format_def by (intro fl_intros) (simp_all add: Let_def)
qed

lemma fl_step: "stays file_rel (video_step api e q)"
  unfolding video_step_def rx_video_sink_push_def rtsp_video_frame_def rtsp_video_sink_event_def
    qcap_dante_video_callback_def Let_def
  by (cases q)
    (auto intro!: fl_intros fl_feed fl_thread fl_callback fl_stop fl_apply_caps fl_connected
      fl_stop [unfolded stop_video_def] split: option.split)

definition file_res :: "rx_video \<Rightarrow> zres multiset" where
  "file_res v = (if reconstructed_file v then {#Z_file#} else {#})"

lemma ledger_vid:
  "z_ledger tr = Some (M + replicate_mset (closes new) Z_file) \<Longrightarrow> z_ledger (map (\<lambda>(c, r). (Vid c, r)) new @ tr) = Some M"
proof (induction new arbitrary: M)
  case (Cons x new)
  obtain c r where x: "x = (c, r)" by (cases x)
  show ?case
  proof (cases "c = FileClose")
    case True
    then have "z_ledger (map (\<lambda>(c, r). (Vid c, r)) new @ tr) = Some (M + {#Z_file#})"
      using Cons.prems x by (intro Cons.IH) simp
    then show ?thesis using True x by simp
  next
    case False
    then have "z_ledger (map (\<lambda>(c, r). (Vid c, r)) new @ tr) = Some M" using Cons x by simp
    moreover have "z_takes (Vid c) r = {#}" using False by (cases c) simp_all
    ultimately show ?thesis using x by simp
  qed
qed simp

lemma wp_on_video:
  assumes "z_ledger (trace s) = Some (M + file_res (video_of (vpath s)))"
    and "\<And>api'. (\<forall>tr c. \<exists>h. api' tr c = api h (Vid c)) \<Longrightarrow> wp (prog api') P (video_of (vpath s))"
    and "\<And>api'. stays file_rel (prog api')"
    and "\<And>a v tr. P a v \<Longrightarrow> file_rel (video_of (vpath s)) v \<Longrightarrow> z_ledger tr = Some (M + file_res v) \<Longrightarrow>
      Q a (s\<lparr>trace := tr, vpath := Vpath v\<rparr>)"
  shows "wp (on_video api prog) Q s"
  unfolding on_video_def
proof (rule wp_embed_new [where P = "\<lambda>a t. P a t \<and> file_rel (video_of (vpath s)) t"], goal_cases)
  case (1 api')
  have "wp (prog api') (\<lambda>_. file_rel (video_of (vpath s))) (video_of (vpath s))" using assms(3) by (simp add: stays_def)
  from wp_conj [OF assms(2) [OF 1] this] show ?case
    by (rule wp_conseq) (auto simp: file_rel_def)
next
  case (2 a v new)
  obtain new' where n: "trace v = new' @ trace (video_of (vpath s))" "reconstructed_file v \<longrightarrow> reconstructed_file (video_of (vpath s))"
    "closes new' = (if reconstructed_file (video_of (vpath s)) \<and> \<not> reconstructed_file v then 1 else 0)"
    using 2(1) unfolding file_rel_def by blast
  have "new' = new" using 2(2) n(1) by simp
  then have "M + file_res (video_of (vpath s)) = M + file_res v + replicate_mset (closes new) Z_file"
    using n(2,3) by (auto simp: file_res_def)
  then have "z_ledger (map (\<lambda>(c, r). (Vid c, r)) new @ trace s) = Some (M + file_res v)"
    using assms(1) by (intro ledger_vid) simp
  then show ?case using assms(4) 2(1) by simp
qed

section \<open>Sound\<close>

text \<open>The results of the display calls, seen from the receiver.\<close>

definition rx_results :: "zcall api \<Rightarrow> bool" where
  "rx_results api \<longleftrightarrow> (\<forall>tr. drm_results (\<lambda>_ q. api tr (Vid (Drm q))))"

lemma inner_display:
  assumes "rx_results api" and "\<forall>tr c. \<exists>h. api' tr c = api h (Vid c)"
  shows "display_results api'"
proof -
  have "drm_results (\<lambda>_ q. api' tr (Drm q))" for tr
  proof -
    have "\<exists>f. drm_results f \<and> api' tr (Drm q) = f [] q" for q
      using assms unfolding rx_results_def by metis
    then show ?thesis unfolding drm_results_def kernel_ids_def nonzero_ids_def by (metis (no_types, lifting))
  qed
  then show ?thesis by (simp add: display_results_def)
qed

definition pcm_open :: "rx_video \<Rightarrow> bool" where
  "pcm_open v = audio_pcm (sink_of (rx_sound (disp_of (screen v))))"

lemma video_inv_sound:
  assumes "video_inv v" and "v_ledger tr = v_ledger (trace v)" and "drm_ledger tr' = drm_ledger (trace (disp_of (screen v)))"
    and "sink_inv a"
  shows "video_inv (v\<lparr>trace := tr, screen := Screen ((disp_of (screen v))\<lparr>trace := tr', rx_sound := Sound a\<rparr>)\<rparr>)"
  using assms by (auto simp: video_inv_def video_res_def async_res_def vdec_res_def sink_res_def screen_inv_def
      configured_def async_none_def disp_inv_def output_off_def)

text \<open>A program of the display that only works on the sound.\<close>

definition sound_only :: "(rx_audio \<Rightarrow> bool) \<Rightarrow> disp \<Rightarrow> disp \<Rightarrow> bool" where
  "sound_only C d t \<longleftrightarrow> (\<exists>a tr. sink_inv a \<and> C a \<and> drm_ledger tr = drm_ledger (trace d) \<and> t = d\<lparr>trace := tr, rx_sound := Sound a\<rparr>)"

lemma wp_sound_exact:
  assumes "video_inv v" and "\<And>api' d. sink_inv (sink_of (rx_sound d)) \<Longrightarrow> wp (prog api') (\<lambda>_. sound_only C d) d"
    and "\<And>r tr tr' a. video_inv (v\<lparr>trace := tr, screen := Screen ((disp_of (screen v))\<lparr>trace := tr', rx_sound := Sound a\<rparr>)\<rparr>) \<Longrightarrow>
      v_ledger tr = v_ledger (trace v) \<Longrightarrow> C a \<Longrightarrow>
      Q r (v\<lparr>trace := tr, screen := Screen ((disp_of (screen v))\<lparr>trace := tr', rx_sound := Sound a\<rparr>)\<rparr>)"
  shows "wp (on_screen api prog) Q v"
proof (rule wp_on_screen [where P = "\<lambda>_. sound_only C (disp_of (screen v))"], goal_cases)
  case (1 api')
  have "sink_inv (sink_of (rx_sound (disp_of (screen v))))"
    using assms(1) by (auto simp: video_inv_def screen_inv_def disp_inv_def)
  then show ?case by (rule assms(2))
next
  case (2 r d tr)
  then obtain a tr' where "sink_inv a" "C a" "drm_ledger tr' = drm_ledger (trace (disp_of (screen v)))"
    "d = (disp_of (screen v))\<lparr>trace := tr', rx_sound := Sound a\<rparr>" unfolding sound_only_def by blast
  then show ?case using video_inv_sound [OF assms(1) 2(2)] 2(2) assms(3) by simp
qed

lemma wp_video_sound:
  assumes "video_inv v" and "\<And>api' d. sink_inv (sink_of (rx_sound d)) \<Longrightarrow> wp (prog api') (\<lambda>_. sound_only C d) d"
    and "\<And>r t. video_inv t \<Longrightarrow> C (sink_of (rx_sound (disp_of (screen t)))) \<Longrightarrow> Q r t"
  shows "wp (on_screen api prog) Q v"
  by (rule wp_sound_exact [OF assms(1,2)]) (auto intro: assms(3))

lemma sound_only_start: "sink_inv (sink_of (rx_sound d)) \<Longrightarrow> wp (start_sound api e) (\<lambda>_. sound_only (\<lambda>_. True) d) d"
  by (rule wp_start_sound) (auto simp: sound_only_def)

lemma sound_only_stop: "sink_inv (sink_of (rx_sound d)) \<Longrightarrow> wp (stop_sound api) (\<lambda>_. sound_only (\<lambda>a. \<not> audio_pcm a) d) d"
  by (rule wp_stop_sound) (auto simp: sound_only_def)

text \<open>On an HDMI output neither the display nor the decoder touches the sound.\<close>

definition hush :: "out_env \<Rightarrow> disp \<Rightarrow> disp \<Rightarrow> bool" where
  "hush e d t \<longleftrightarrow> (\<not> is_sdi e \<longrightarrow> rx_sound t = rx_sound d)"

interpretation hs: step_relation "hush e" for e
  by unfold_locales (auto simp: hush_def)

lemma hush_quiet: "quiet m \<Longrightarrow> stays (hush e) m"
proof -
  assume q: "quiet m"
  have "hush e s t" if "quiet_rel s t" for s t
    using arg_cong [OF conjunct1 [OF that [unfolded quiet_rel_def]], of rx_sound] by (simp add: hush_def)
  then show ?thesis using q unfolding stays_def by (blast intro: wp_conseq)
qed

lemma hush_modify: "(\<And>d. rx_sound (f d) = rx_sound d) \<Longrightarrow> stays (hush e) (modify f)"
  by (simp add: stays_def wp_modify hush_def)

lemma hush_call: "stays (hush e) (call api c)"
  by (simp add: stays_def wp_call hush_def)

lemma hush_if: "(b \<Longrightarrow> stays (hush e) m) \<Longrightarrow> (\<not> b \<Longrightarrow> stays (hush e) n) \<Longrightarrow> stays (hush e) (if b then m else n)"
  by simp

lemma hush_sdi: "is_sdi e \<Longrightarrow> stays (hush e) m"
  by (simp add: stays_def hush_def wp_def split: prod.split)

lemmas hush_intros = hs.ret hs.get hs.bind hush_call hush_modify hush_if

lemma hush_stop: "stays (hush e) (stop_drm_output api e)"
  unfolding stop_drm_output_def close_device_def
  by (intro hush_intros hush_sdi hush_quiet [OF quiet_disable]; simp add: cleared_def)

lemma hush_fail: "stays (hush e) (fail_output api e)"
  unfolding fail_output_def by (intro hush_intros hush_stop)

lemma hush_program: "stays (hush e) (program_output api e m)"
  unfolding program_output_def attach_fb_def activate_output_def
  by (intro hush_fail hush_intros hush_sdi hush_quiet [OF quiet_commit_path]; simp)

lemma hush_start: "stays (hush e) (start_drm_output api e)"
  unfolding start_drm_output_def setup_path_def
  by (auto intro!: hush_fail hush_program hush_intros hush_quiet [OF quiet_caps] hush_quiet [OF quiet_video_plane]
      hush_quiet [OF quiet_path] hush_quiet [OF quiet_primary_plane] split: option.split)

definition mute_rel :: "out_env \<Rightarrow> rx_video \<Rightarrow> rx_video \<Rightarrow> bool" where
  "mute_rel e s t \<longleftrightarrow> (\<not> is_sdi e \<longrightarrow> pcm_open t = pcm_open s)"

interpretation mu: step_relation "mute_rel e" for e
  by unfold_locales (auto simp: mute_rel_def)

lemma mu_call: "stays (mute_rel e) (call api c)"
  by (simp add: stays_def wp_call mute_rel_def pcm_open_def)

lemma mu_modify: "(\<And>s. screen (f s) = screen s) \<Longrightarrow> stays (mute_rel e) (modify f)"
  by (simp add: stays_def wp_modify mute_rel_def pcm_open_def)

lemma mute_if: "(b \<Longrightarrow> stays (mute_rel e) m) \<Longrightarrow> (\<not> b \<Longrightarrow> stays (mute_rel e) n) \<Longrightarrow> stays (mute_rel e) (if b then m else n)"
  by simp

lemma mute_screen:
  assumes "\<And>a. stays (hush e) (prog a)"
  shows "stays (mute_rel e) (on_screen api prog)"
  unfolding stays_def
proof
  fix s
  show "wp (on_screen api prog) (\<lambda>_. mute_rel e s) s"
  proof (rule wp_on_screen [where P = "\<lambda>_. hush e (disp_of (screen s))"], goal_cases)
    case (1 api')
    show ?case using assms [of api'] by (simp add: stays_def)
  qed (simp add: mute_rel_def hush_def pcm_open_def)
qed

lemmas mute_intros = mu.ret mu.get mu.bind mu_call mu_modify mute_if

lemma mute_drop: "stays (mute_rel e) (drop_object api ob p (\<lambda>s. s\<lparr>vdec_event_handlers := i\<rparr>))"
  "stays (mute_rel e) (drop_object api ob p (\<lambda>s. s\<lparr>vdec_packet_pool := i\<rparr>))"
  "stays (mute_rel e) (drop_object api ob p (\<lambda>s. s\<lparr>vdec_event := i\<rparr>))"
  unfolding drop_object_def by (intro mute_intros; simp)+

lemma mute_async_stop: "stays (mute_rel e) (StopVdecAsync api)"
  unfolding StopVdecAsync_def by (intro mute_drop mute_intros; simp)

lemma mute_start_decoder: "stays (mute_rel e) (start_decoder api)"
  unfolding start_decoder_def SetupVdecAsync_def setup_handlers_def setup_pool_def fail_setup_def init_vdec_decoder_def
  by (intro mute_async_stop mute_intros; simp)

lemma mute_sink: "stays (mute_rel e) (start_vdec_sink api)" "stays (mute_rel e) (stop_vdec_sink api)"
  unfolding start_vdec_sink_def stop_vdec_sink_def drop_sink_def Let_def by (intro mute_intros; simp)+

lemma mute_stop: "stays (mute_rel e) (stop_video api e)"
  unfolding stop_video_def stop_vdec_decoder_def stop_vdec_display_def decoder_init_thread_def start_display_def
  by (intro mute_screen hush_start hush_stop mute_sink mute_start_decoder mute_async_stop mute_drop mute_intros; simp)

lemma stop_video_sdi:
  assumes "display_results api" and "video_inv v" and "is_sdi e"
  shows "wp (stop_video api e) (\<lambda>_ t. \<not> pcm_open t) v"
proof -
  have last: "wp (on_screen api (\<lambda>a. stop_drm_output a e)) (\<lambda>_ t. \<not> pcm_open t) u" if "screen_inv u" for u
  proof -
    obtain L where L: "disp_inv L (disp_of (screen u))" using \<open>screen_inv u\<close> unfolding screen_inv_def by blast
    show ?thesis
      by (rule wp_on_screen [where P = "\<lambda>_. stopped L e (disp_of (screen u))"], rule wp_stop_output [OF disp_inv_ok [OF L]])
        (use assms(3) in \<open>simp_all add: stopped_def sound_after_stop_def pcm_open_def\<close>)
  qed
  show ?thesis
    unfolding stop_video_def wp_bind
  proof (rule wp_conseq [OF wp_stop_vdec_decoder [OF assms(1,2)]], goal_cases)
    case (1 a t)
    note t = halted_facts [OF 1]
    show ?case
      unfolding stop_vdec_display_def wp_bind
      by (rule wp_conseq [OF wp_stop_vdec_sink [OF t(2,3)]]) (auto intro!: last shown_inv)
  qed
qed

text \<open>The stop of the video path: nothing is alive, the display is off, the sound stays closed.\<close>

definition video_off :: "rx_video \<Rightarrow> bool" where
  "video_off v \<longleftrightarrow> v_ledger (trace v) = Some {#} \<and> vdec v = 0 \<and> vdec_sink v = 0 \<and> \<not> decoder_initializing v \<and>
     output_off (disp_of (screen v)) \<and> \<not> pcm_open v"

lemma wp_stop_video_off:
  assumes "display_results api" and "video_inv v" and "\<not> pcm_open v"
  shows "wp (stop_video api e) (\<lambda>_. video_off) v"
proof -
  have "wp (stop_video api e) (\<lambda>_ t. \<not> pcm_open t) v"
  proof (cases "is_sdi e")
    case True
    then show ?thesis by (rule stop_video_sdi [OF assms(1,2)])
  next
    case False
    have "wp (stop_video api e) (\<lambda>_. mute_rel e v) v" using mute_stop by (simp add: stays_def)
    then show ?thesis by (rule wp_conseq) (use False assms(3) in \<open>simp add: mute_rel_def\<close>)
  qed
  from wp_conj [OF wp_stop_video [OF assms(1,2)] this] show ?thesis
    by (rule wp_conseq) (auto simp: video_off_def stopped_empty halted_facts)
qed

section \<open>The observer of the parameter sets\<close>

definition with_parser :: "int \<Rightarrow> int \<Rightarrow> rx_pipe \<Rightarrow> rx_pipe" where
  "with_parser p c s = s\<lparr>h264_parser_el := p, h264_caps_sink := c,
     vpath := Vpath ((video_of (vpath s))\<lparr>h264_parser := p \<noteq> 0\<rparr>)\<rparr>"

lemma wp_set_parser: "wp (set_parser p c) Q s = Q () (with_parser p c s)"
  by (simp add: set_parser_def set_video_def wp_bind wp_modify with_parser_def)

lemma wp_fail_parser:
  assumes "z_ledger (trace s) = Some (M + zr K_element p + zr K_element c)" and "at_rest M"
    and "\<And>tr. z_ledger tr = Some M \<Longrightarrow> Q (- 1) (with_parser 0 0 (s\<lparr>trace := tr\<rparr>))"
  shows "wp (fail_parser api p c) Q s"
  unfolding fail_parser_def wp_bind wp_set_parser wp_return
  by (rule wp_destroy_all [where M = M]) (use assms in \<open>simp_all add: ac_simps\<close>)

lemma wp_parser_destroy:
  assumes "z_ledger (trace s) = Some (M + zr K_element (h264_parser_el s) + zr K_element (h264_caps_sink s))" and "at_rest M"
    and "\<And>tr. z_ledger tr = Some M \<Longrightarrow> Q () (with_parser 0 0 (s\<lparr>trace := tr\<rparr>))"
  shows "wp (rx_h264_parser_destroy api) Q s"
  unfolding rx_h264_parser_destroy_def wp_get_bind
  by (rule zs_step [OF zs_null], rule zs_step [OF zs_null], unfold wp_bind wp_set_parser, rule wp_destroy_all [where M = M])
    (use assms in \<open>simp_all add: ac_simps\<close>)

lemma wp_parser_create:
  assumes "z_ledger (trace s) = Some M" and "at_rest M"
    and "\<And>tr p c. z_ledger tr = Some (M + zr K_element p + zr K_element c) \<Longrightarrow> Q 0 (with_parser p c (s\<lparr>trace := tr\<rparr>))"
    and "\<And>tr. z_ledger tr = Some M \<Longrightarrow> Q (- 1) (with_parser 0 0 (s\<lparr>trace := tr\<rparr>))"
  shows "wp (rx_h264_parser_create api) Q s"
proof -
  have fail: "wp (fail_parser api p c) Q (s\<lparr>trace := tr\<rparr>)" if "z_ledger tr = Some (M + zr K_element p + zr K_element c)" for tr p c
    by (rule wp_fail_parser [where M = M]) (use that assms(2,4) in simp_all)
  have free: "wp (do { call api (Delete K_memory q); fail_parser api p 0 }) Q (s\<lparr>trace := tr\<rparr>)"
    if "z_ledger tr = Some (M + zr K_element p + zr K_memory q)" for tr p q
    unfolding wp_bind by (rule wp_z_take [where N = "M + zr K_element p" and X = "zr K_memory q"])
      (use that assms(2) fail in simp_all)
  have configure: "wp (do {
      ok \<leftarrow> configure_parser api p c;
      if \<not> ok then fail_parser api p c else do { set_parser p c; ret 0 } }) Q (s\<lparr>trace := tr\<rparr>)"
    if "z_ledger tr = Some (M + zr K_element p + zr K_element c)" for tr p c
    by (rule zs_step [OF zs_configure]) (use that fail assms(3) in \<open>simp_all add: wp_bind wp_set_parser wp_return\<close>)
  have add: "wp (do {
      r \<leftarrow> call api (AddPad c pad);
      if fst r \<noteq> 0 then do { call api (Delete K_pad pad); fail_parser api p c } else do {
      ok \<leftarrow> configure_parser api p c;
      if \<not> ok then fail_parser api p c else do { set_parser p c; ret 0 } } }) Q (s\<lparr>trace := tr\<rparr>)"
    if tr: "z_ledger tr = Some (M + zr K_element p + zr K_element c + {#Z_own K_pad pad#})" for tr p c pad
    unfolding wp_bind [of "call _ (AddPad _ _)"]
  proof (rule wp_z [where M = "M + zr K_element p + zr K_element c + {#Z_own K_pad pad#}"], goal_cases)
    case (2 r)
    show ?case by (rule exI [of _ "M + zr K_element p + zr K_element c + (if fst r = 0 then {#} else {#Z_own K_pad pad#})"]) simp
  next
    case (4 r tr')
    show ?case
    proof (cases "fst r = 0")
      case True
      then show ?thesis using 4 configure by simp
    next
      case False
      then show ?thesis
        unfolding if_P [OF False] wp_bind [of "call _ (Delete _ _)"]
        by (intro wp_z_take [where N = "M + zr K_element p + zr K_element c" and X = "{#Z_own K_pad pad#}"])
          (use 4 assms(2) fail in simp_all)
    qed
  qed (use tr in simp_all)
  have create: "wp (do {
     c \<leftarrow> call api (ElemCreate ''dante_rx_h264_caps_sink'' q);
     if fst c = 0 then do { call api (Delete K_memory q); fail_parser api p 0 } else do {
     pad \<leftarrow> call api (New K_pad);
     if fst pad = 0 then fail_parser api p (fst c) else do {
     r \<leftarrow> call api (AddPad (fst c) (fst pad));
     if fst r \<noteq> 0 then do { call api (Delete K_pad (fst pad)); fail_parser api p (fst c) } else do {
     ok \<leftarrow> configure_parser api p (fst c);
     if \<not> ok then fail_parser api p (fst c)
     else do { set_parser p (fst c); ret 0 } } } } }) Q (s\<lparr>trace := tr\<rparr>)"
    if tr: "z_ledger tr = Some (M + zr K_element p + zr K_memory q)" and q: "q \<noteq> 0" for tr p q
    unfolding wp_bind [of "call _ (ElemCreate _ _)"]
  proof (rule wp_z [where M = "M + zr K_element p + {#Z_own K_memory q#}"], goal_cases)
    case (2 r)
    show ?case by (rule exI [of _ "M + zr K_element p + (if fst r = 0 then {#Z_own K_memory q#} else {#})"]) simp
  next
    case (4 c tr')
    show ?case
    proof (cases "fst c = 0")
      case True
      then show ?thesis using 4 q free [of tr' p q] by (simp add: zr_def)
    next
      case False
      show ?thesis
        unfolding if_not_P [OF False] wp_bind [of "call _ (New _)"]
      proof (rule wp_z_give [where M = "M + zr K_element p + zr K_element (fst c)"], goal_cases)
        case (4 pad tr'')
        then show ?case using add fail by (cases "fst pad = 0") (simp_all add: zr_def)
      qed (use 4 False in simp_all)
    qed
  qed (use tr q in \<open>simp_all add: zr_def\<close>)
  show ?thesis
    unfolding rx_h264_parser_create_def wp_bind [of "call _ (ElemNew _)"]
  proof (rule wp_z_give [OF assms(1)], goal_cases)
    case (3 p tr)
    show ?case
      unfolding wp_bind [of "call _ (New _)"]
    proof (rule wp_z_give [where M = "M + zr K_element (fst p)"], goal_cases)
      case (4 q tr')
      then show ?case
        using free create by (cases "fst p = 0 \<or> fst q = 0") simp_all
    qed (use 3 in simp_all)
  qed simp_all
qed

section \<open>The start\<close>

definition thread_res :: "rx_pipe \<Rightarrow> zres multiset" where
  "thread_res s = (if bus_th s = 0 then {#} else {#Z_thread W_bus#}) + (if sched s = 0 then {#} else {#Z_thread W_scheduler#})"

text \<open>
  What a receiver holds.  The coordinator, the sinks and the audio source belong to the pipeline
  once it is set up, the statistics to their sinks.
\<close>

definition rx_live :: "rx_pipe \<Rightarrow> zres multiset" where
  "rx_live s = zr K_object (rx_self s) + zr K_pipeline (pipe s) + zr K_element (session s) +
     zr K_element (h264_parser_el s) + zr K_element (h264_caps_sink s) + zr K_clock (rx_clock s) +
     zr K_scheduler (sched s) + thread_res s + file_res (video_of (vpath s))"

definition rx_inv :: "zres multiset \<Rightarrow> rx_pipe \<Rightarrow> bool" where
  "rx_inv M s \<longleftrightarrow> z_ledger (trace s) = Some (M + rx_live s) \<and> video_inv (video_of (vpath s)) \<and> at_rest M"

text \<open>A receiver under construction: no thread, clock or scheduler; \<open>E\<close> are elements outside the pipeline.\<close>

definition building :: "zres multiset \<Rightarrow> zres multiset \<Rightarrow> rx_pipe \<Rightarrow> bool" where
  "building M E s \<longleftrightarrow> z_ledger (trace s) = Some (M + E + rx_live s) \<and> video_inv (video_of (vpath s)) \<and>
     at_rest M \<and> at_rest E \<and> pipe s \<noteq> 0 \<and> sched s = 0 \<and> bus_th s = 0 \<and> rx_clock s = 0"

definition threads_granted :: "zcall api \<Rightarrow> bool" where
  "threads_granted api \<longleftrightarrow> (\<forall>tr. fst (api tr (New K_scheduler)) \<noteq> 0) \<and>
     (\<forall>tr w. fst (api tr (ThreadCreate w)) = 0 \<and> outp (api tr (ThreadCreate w)) 0 \<noteq> 0)"

lemma wp_thread:
  assumes "threads_granted api" and "z_ledger (trace s) = Some M"
    and "\<And>r tr. outp r 0 \<noteq> 0 \<Longrightarrow> z_ledger tr = Some (M + {#Z_thread w#}) \<Longrightarrow> Q r (s\<lparr>trace := tr\<rparr>)"
  shows "wp (call api (ThreadCreate w)) Q s"
  unfolding wp_call by (rule assms(3)) (use assms(1,2) in \<open>simp_all add: threads_granted_def\<close>)

lemma wp_scheduler:
  assumes "threads_granted api" and "z_ledger (trace s) = Some M"
    and "\<And>r tr. fst r \<noteq> 0 \<Longrightarrow> z_ledger tr = Some (M + zr K_scheduler (fst r)) \<Longrightarrow> Q r (s\<lparr>trace := tr\<rparr>)"
  shows "wp (call api (New K_scheduler)) Q s"
  unfolding wp_call by (rule assms(3)) (use assms(1,2) in \<open>simp_all add: threads_granted_def\<close>)

lemma live_trace [simp]: "rx_live (s\<lparr>trace := tr\<rparr>) = rx_live s" "rx_live (s\<lparr>running := b\<rparr>) = rx_live s"
  "rx_live (s\<lparr>coordinator := i\<rparr>) = rx_live s" "rx_live (s\<lparr>rx_video_pad := i\<rparr>) = rx_live s"
  "rx_live (s\<lparr>rx_video_sink := i\<rparr>) = rx_live s" "rx_live (s\<lparr>rx_dep_src := i\<rparr>) = rx_live s"
  "rx_live (s\<lparr>rx_audio_sink := i\<rparr>) = rx_live s" "rx_live (s\<lparr>video_stats_p := i\<rparr>) = rx_live s"
  "rx_live (s\<lparr>audio_stats_p := i\<rparr>) = rx_live s"
  by (simp_all add: rx_live_def thread_res_def)

lemma building_frame [simp]:
  "building M E (s\<lparr>coordinator := i\<rparr>) = building M E s" "building M E (s\<lparr>rx_video_pad := i\<rparr>) = building M E s"
  "building M E (s\<lparr>rx_video_sink := i\<rparr>) = building M E s" "building M E (s\<lparr>rx_dep_src := i\<rparr>) = building M E s"
  "building M E (s\<lparr>rx_audio_sink := i\<rparr>) = building M E s" "building M E (s\<lparr>video_stats_p := i\<rparr>) = building M E s"
  "building M E (s\<lparr>audio_stats_p := i\<rparr>) = building M E s"
  by (simp_all add: building_def)

lemma building_same: "building M E s \<Longrightarrow> z_ledger tr = z_ledger (trace s) \<Longrightarrow> building M E (s\<lparr>trace := tr\<rparr>)"
  by (simp add: building_def)

lemma building_rest: "building M E s \<Longrightarrow> at_rest (M + E + rx_live s)"
  by (simp add: building_def rx_live_def thread_res_def file_res_def)

lemma building_take:
  "building M E s \<Longrightarrow> z_ledger tr = Some (M + E' + rx_live s) \<Longrightarrow> at_rest E' \<Longrightarrow> building M E' (s\<lparr>trace := tr\<rparr>)"
  by (simp add: building_def)

text \<open>A step of the construction that only configures.\<close>

lemma building_step:
  assumes "building M E s" and "stays z_same m" and "\<And>x tr. building M E (s\<lparr>trace := tr\<rparr>) \<Longrightarrow> wp (f x) Q (s\<lparr>trace := tr\<rparr>)"
  shows "wp (State_Monad.bind m f) Q s"
  by (rule zs_step [OF assms(2)]) (use assms(1,3) building_same in blast)

lemma wp_abandon:
  assumes "building M E s" and "elems es = E + zr K_element (session s)" and "h264_parser_el s = 0" "h264_caps_sink s = 0"
    and "\<not> reconstructed_file (video_of (vpath s))" and "\<And>t. z_ledger (trace t) = Some M \<Longrightarrow> Q False t"
  shows "wp (abandon api es) Q s"
  unfolding abandon_def wp_bind [of "destroy_all _ _"]
proof (rule wp_destroy_all [where M = "M + zr K_object (rx_self s) + {#Z_own K_pipeline (pipe s)#}"], goal_cases)
  case 1
  then show ?case
    using assms(1-5) by (simp add: building_def rx_live_def thread_res_def file_res_def zr_def [of K_pipeline] ac_simps)
next
  case (3 tr)
  show ?case
    unfolding wp_get_bind wp_bind [of "call _ _"] wp_return
    by (rule wp_z_take [where N = "M + zr K_object (rx_self s)" and X = "{#Z_own K_pipeline (pipe s)#}"], simp add: 3, simp, simp,
        use assms(1) in \<open>simp add: building_def\<close>,
        rule wp_z_take [where N = M and X = "zr K_object (rx_self s)"])
      (use assms(1,6) in \<open>simp_all add: building_def\<close>)
qed (use assms(1) in \<open>simp add: building_def\<close>)

text \<open>The trace is kept innermost in record updates.\<close>

lemma z_trace_first:
  "s\<lparr>pipe := x0, trace := tr\<rparr> = s\<lparr>trace := tr, pipe := x0\<rparr>"
  "s\<lparr>sched := x1, trace := tr\<rparr> = s\<lparr>trace := tr, sched := x1\<rparr>"
  "s\<lparr>rx_clock := x2, trace := tr\<rparr> = s\<lparr>trace := tr, rx_clock := x2\<rparr>"
  "s\<lparr>session := x3, trace := tr\<rparr> = s\<lparr>trace := tr, session := x3\<rparr>"
  "s\<lparr>coordinator := x4, trace := tr\<rparr> = s\<lparr>trace := tr, coordinator := x4\<rparr>"
  "s\<lparr>rx_dep_src := x5, trace := tr\<rparr> = s\<lparr>trace := tr, rx_dep_src := x5\<rparr>"
  "s\<lparr>rx_video_sink := x6, trace := tr\<rparr> = s\<lparr>trace := tr, rx_video_sink := x6\<rparr>"
  "s\<lparr>rx_audio_sink := x7, trace := tr\<rparr> = s\<lparr>trace := tr, rx_audio_sink := x7\<rparr>"
  "s\<lparr>rx_video_pad := x8, trace := tr\<rparr> = s\<lparr>trace := tr, rx_video_pad := x8\<rparr>"
  "s\<lparr>video_stats_p := x9, trace := tr\<rparr> = s\<lparr>trace := tr, video_stats_p := x9\<rparr>"
  "s\<lparr>audio_stats_p := x10, trace := tr\<rparr> = s\<lparr>trace := tr, audio_stats_p := x10\<rparr>"
  "s\<lparr>bus_th := x11, trace := tr\<rparr> = s\<lparr>trace := tr, bus_th := x11\<rparr>"
  "s\<lparr>running := x12, trace := tr\<rparr> = s\<lparr>trace := tr, running := x12\<rparr>"
  by simp_all

lemma z_twice: "s\<lparr>trace := a, trace := b\<rparr> = s\<lparr>trace := (b :: zcall event list)\<rparr>"
  by simp

text \<open>The outcome of a start; the dump file is the one error path that releases nothing.\<close>

definition dump_refused :: "rx_config \<Rightarrow> rx_pipe \<Rightarrow> bool" where
  "dump_refused g t \<longleftrightarrow> g_path g \<noteq> [] \<and> (\<exists>r tr. trace t = (FOpen (g_path g), r) # tr \<and> fst r = 0)"

definition outcome :: "zres multiset \<Rightarrow> rx_config \<Rightarrow> bool \<Rightarrow> rx_pipe \<Rightarrow> bool" where
  "outcome M g ok t \<longleftrightarrow>
     (if ok then rx_inv M t else z_ledger (trace t) = Some M \<or> (dump_refused g t \<and> rx_inv M t))"

lemma wp_run_pipeline:
  assumes "threads_granted api" and "building M {#} s"
  shows "wp (run_pipeline api g) (\<lambda>_. rx_inv M) s"
proof -
  note b = assms(2) [unfolded building_def]
  have threads: "wp (do {
     t \<leftarrow> call api (ThreadCreate W_bus);
     modify (\<lambda>s. s\<lparr>bus_th := outp t 0\<rparr>) }) (\<lambda>_. rx_inv M) (s\<lparr>trace := tr, rx_clock := c, sched := x, running := True\<rparr>)"
    if "z_ledger tr = Some (M + rx_live s + zr K_clock c + zr K_scheduler x + {#Z_thread W_scheduler#})" "x \<noteq> 0" for tr c x
    unfolding wp_bind wp_modify
    by (rule wp_thread [OF assms(1), where M = "M + rx_live s + zr K_clock c + zr K_scheduler x + {#Z_thread W_scheduler#}"])
      (use that b in \<open>auto simp: rx_inv_def rx_live_def thread_res_def ac_simps\<close>)
  have flow: "wp (do {
     (if d then do { call api (ApplyFlow (coordinator s) (g_local g) (g_peer g) (g_port g)); ret () } else ret ());
     modify (\<lambda>s. s\<lparr>running := True\<rparr>);
     t \<leftarrow> call api (ThreadCreate W_bus);
     modify (\<lambda>s. s\<lparr>bus_th := outp t 0\<rparr>) }) (\<lambda>_. rx_inv M) (s\<lparr>trace := tr, rx_clock := c, sched := x\<rparr>)"
    if "z_ledger tr = Some (M + rx_live s + zr K_clock c + zr K_scheduler x + {#Z_thread W_scheduler#})" "x \<noteq> 0" for tr c x d
    by (rule zs_step, auto intro!: zs_intros) (use that threads in \<open>simp add: wp_bind [of "modify _"] wp_modify z_trace_first\<close>)
  have scheduler: "wp (do {
     x \<leftarrow> call api (New K_scheduler);
     modify (\<lambda>s. s\<lparr>sched := fst x\<rparr>);
     call api (SchedAttach (fst x) (pipe s));
     call api (ThreadCreate W_scheduler);
     (if g_direct g then do {
        call api (ApplyFlow (coordinator s) (g_local g) (g_peer g) (g_port g));
        ret () } else ret ());
     modify (\<lambda>s. s\<lparr>running := True\<rparr>);
     t \<leftarrow> call api (ThreadCreate W_bus);
     modify (\<lambda>s. s\<lparr>bus_th := outp t 0\<rparr>) }) (\<lambda>_. rx_inv M) (s\<lparr>trace := tr, rx_clock := c\<rparr>)"
    if "z_ledger tr = Some (M + rx_live s + zr K_clock c)" for tr c
    unfolding wp_bind [of "call _ (New _)"]
  proof (rule wp_scheduler [OF assms(1), where M = "M + rx_live s + zr K_clock c"], goal_cases)
    case (2 r tr')
    show ?case
      unfolding wp_bind [of "modify _"] wp_modify
    proof (rule zs_step, rule zs_call, goal_cases)
      case (4 a tr'')
      then show ?case
        unfolding wp_bind [of "call _ (ThreadCreate _)"]
        by (intro wp_thread [OF assms(1), where M = "M + rx_live s + zr K_clock c + zr K_scheduler (fst r)"])
          (use 2 flow in \<open>simp_all add: z_trace_first\<close>)
    qed simp_all
  qed (use that in simp)
  have session: "stays z_same (if x \<noteq> 0 then do {
        call api (SetBus x p); call api (ElemState x n); ret () } else ret ())" for x p n
    by (auto intro!: zs_intros)
  show ?thesis
    unfolding run_pipeline_def wp_get_bind wp_bind [of "call _ (New K_clock)"]
  proof (rule wp_z_give [where M = "M + rx_live s"], goal_cases)
    case (4 r tr)
    show ?case
      unfolding wp_bind [of "modify _"] wp_modify
      by (rule zs_step, rule zs_call, simp, simp, simp, rule zs_step, rule zs_call, simp, simp, simp,
          rule zs_step, rule session) (use 4 scheduler in \<open>simp add: z_trace_first\<close>)
  qed (use b in simp_all)
qed

lemma wp_open_dump:
  assumes "building M {#} s" and "\<not> reconstructed_file (video_of (vpath s))"
    and "\<And>t. building M {#} t \<Longrightarrow> Q True t" and "\<And>t. rx_inv M t \<Longrightarrow> dump_refused g t \<Longrightarrow> Q False t"
  shows "wp (open_dump api g) Q s"
proof (cases "g_path g = []")
  case True
  then show ?thesis using assms(1,3) by (simp add: open_dump_def wp_return)
next
  case False
  let ?r = "api (trace s) (FOpen (g_path g))"
  show ?thesis
  proof (cases "fst ?r = 0")
    case True
    have "rx_inv M (s\<lparr>trace := (FOpen (g_path g), ?r) # trace s\<rparr>)"
      using assms(1) True by (simp add: building_def rx_inv_def)
    moreover have "dump_refused g (s\<lparr>trace := (FOpen (g_path g), ?r) # trace s\<rparr>)"
      using False True by (simp add: dump_refused_def)
    ultimately show ?thesis using False True assms(4) by (simp add: open_dump_def wp_bind wp_call wp_return)
  next
    case open_ok: False
    have "video_inv (v\<lparr>reconstructed_file := b\<rparr>) = video_inv v" for v b
      by (simp add: video_inv_def res_defs screen_inv_def configured_def async_none_def)
    then have "building M {#} (s\<lparr>trace := (FOpen (g_path g), ?r) # trace s,
        vpath := Vpath ((video_of (vpath s))\<lparr>reconstructed_file := True\<rparr>)\<rparr>)"
      using assms(1,2) open_ok by (simp add: building_def rx_live_def thread_res_def file_res_def)
    then show ?thesis
      using False open_ok assms(3) by (simp add: open_dump_def wp_bind wp_call wp_return set_video_def wp_modify)
  qed
qed

definition with_audio :: "rx_config \<Rightarrow> bool" where
  "with_audio g \<longleftrightarrow> \<not> g_direct g \<and> \<not> g_stats_only g"

text \<open>The elements for the pipeline.\<close>

definition pipeline_elems :: "rx_config \<Rightarrow> rx_pipe \<Rightarrow> zres multiset" where
  "pipeline_elems g s = zr K_element (coordinator s) + zr K_element (rx_video_sink s) +
     (if with_audio g then zr K_element (rx_dep_src s) + zr K_element (rx_audio_sink s) else {#})"

definition ready :: "zres multiset \<Rightarrow> rx_config \<Rightarrow> rx_pipe \<Rightarrow> bool" where
  "ready M g s \<longleftrightarrow> building M (pipeline_elems g s) s \<and> \<not> reconstructed_file (video_of (vpath s)) \<and>
     coordinator s \<noteq> 0 \<and> rx_video_sink s \<noteq> 0 \<and> (with_audio g \<longrightarrow> rx_dep_src s \<noteq> 0 \<and> rx_audio_sink s \<noteq> 0)"

lemma wp_pipe_add:
  assumes "z_ledger (trace s) = Some (N + zr K_element x)" and "x \<noteq> 0"
    and "\<And>r tr. z_ledger tr = Some N \<Longrightarrow> Q r (s\<lparr>trace := tr\<rparr>)"
  shows "wp (call api (PipeAdd p x)) Q s"
  by (rule wp_z_take [where N = N and X = "{#Z_own K_element x#}"]) (use assms in \<open>simp_all add: zr_def\<close>)

lemma wp_launch:
  assumes "threads_granted api" and "ready M g s"
  shows "wp (launch api g) (outcome M g) s"
proof -
  have b: "building M (pipeline_elems g s) s" "\<not> reconstructed_file (video_of (vpath s))"
    and n: "coordinator s \<noteq> 0" "rx_video_sink s \<noteq> 0" "with_audio g \<Longrightarrow> rx_dep_src s \<noteq> 0 \<and> rx_audio_sink s \<noteq> 0"
    using assms(2) by (simp_all add: ready_def)
  have run: "wp (do { ok \<leftarrow> open_dump api g; if \<not> ok then ret False else do { run_pipeline api g; ret True } })
      (outcome M g) (s\<lparr>trace := tr\<rparr>)" if "z_ledger tr = Some (M + rx_live s)" for tr
    unfolding wp_bind
    by (rule wp_open_dump [where M = M])
      (use that b in \<open>auto simp: building_def outcome_def wp_bind wp_return
        intro!: wp_conseq [OF wp_run_pipeline [OF assms(1)]]\<close>)
  have audio: "wp (do {
     (if \<not> g_direct g \<and> \<not> g_stats_only g then do {
        call api (PipeAdd (pipe s) (rx_dep_src s));
        call api (PipeAdd (pipe s) (rx_audio_sink s));
        ret () } else ret ());
     ok \<leftarrow> open_dump api g;
     if \<not> ok then ret False else do { run_pipeline api g; ret True } }) (outcome M g) (s\<lparr>trace := tr\<rparr>)"
    if tr: "z_ledger tr = Some (M + rx_live s +
        (if with_audio g then zr K_element (rx_audio_sink s) + zr K_element (rx_dep_src s) else {#}))" for tr
  proof (cases "with_audio g")
    case True
    then have c: "(\<not> g_direct g \<and> \<not> g_stats_only g) = True" by (simp add: with_audio_def)
    show ?thesis
      unfolding c if_True wp_bind [of "State_Monad.bind _ _"] wp_bind [of "call _ (PipeAdd _ _)"] wp_return
      by (rule wp_pipe_add [where N = "M + rx_live s + zr K_element (rx_audio_sink s)"], use tr True n in simp, use True n in simp,
          rule wp_pipe_add [where N = "M + rx_live s"]) (use True n run in simp_all)
  next
    case False
    then have c: "(\<not> g_direct g \<and> \<not> g_stats_only g) = False" by (simp add: with_audio_def)
    show ?thesis
      unfolding c if_False wp_bind [of "ret _"] wp_return by (rule run) (use tr False in simp)
  qed
  let ?A = "if with_audio g then zr K_element (rx_audio_sink s) + zr K_element (rx_dep_src s) else {#}"
  show ?thesis
    unfolding launch_def wp_get_bind wp_bind [of "call _ (PipeAdd _ _)"]
    by (rule wp_pipe_add [where N = "M + rx_live s + ?A + zr K_element (rx_video_sink s)"],
        use b(1) in \<open>simp add: building_def pipeline_elems_def ac_simps\<close>, rule n(1),
        rule wp_pipe_add [where N = "M + rx_live s + ?A"]) (use n audio in simp_all)
qed

lemma wp_rx_start_sound:
  assumes "building M E s"
    and "\<And>r tr v. building M E (s\<lparr>trace := tr, vpath := Vpath v\<rparr>) \<Longrightarrow>
      (reconstructed_file v \<longrightarrow> reconstructed_file (video_of (vpath s))) \<Longrightarrow> Q r (s\<lparr>trace := tr, vpath := Vpath v\<rparr>)"
  shows "wp (rx_start_sound api e) Q s"
proof -
  let ?L = "zr K_object (rx_self s) + zr K_pipeline (pipe s) + zr K_element (session s) +
     zr K_element (h264_parser_el s) + zr K_element (h264_caps_sink s)"
  have l: "z_ledger (trace s) = Some (M + E + ?L + file_res (video_of (vpath s)))"
    using assms(1) by (simp add: building_def rx_live_def thread_res_def ac_simps)
  have "wp (on_screen api' (\<lambda>d. start_sound d e)) (\<lambda>_. video_inv) (video_of (vpath s))" for api'
    by (rule wp_video_sound [where C = "\<lambda>_. True"])
      (use assms(1) in \<open>simp_all add: building_def sound_only_start\<close>)
  then show ?thesis
    unfolding rx_start_sound_def
    by (intro wp_on_video [where P = "\<lambda>_. video_inv", OF l])
      (use assms fl_screen in \<open>auto simp: building_def rx_live_def thread_res_def file_rel_def ac_simps\<close>)
qed

lemma wp_abandon_audio:
  assumes "building M E s" and "E = zr K_element (coordinator s) + zr K_element (rx_video_sink s) + zr K_element dep"
    and "\<not> reconstructed_file (video_of (vpath s))" and "\<And>t. z_ledger (trace t) = Some M \<Longrightarrow> Q False t"
  shows "wp (abandon_audio api dep) Q s"
proof -
  let ?K = "zr K_object (rx_self s) + zr K_pipeline (pipe s) + zr K_element (session s)"
  let ?E = "zr K_element (coordinator s) + zr K_element (rx_video_sink s)"
  let ?P = "zr K_element (h264_parser_el s) + zr K_element (h264_caps_sink s)"
  note b = assms(1) [unfolded building_def]
  have inv: "video_inv (v\<lparr>h264_parser := x\<rparr>) = video_inv v" for v x
    by (simp add: video_inv_def res_defs screen_inv_def configured_def async_none_def)
  show ?thesis
    unfolding abandon_audio_def wp_bind [of "destroy_all _ _"]
  proof (rule wp_destroy_all [where M = "M + ?E + ?K + ?P"], goal_cases)
    case 1
    then show ?case using b assms(2,3) by (simp add: rx_live_def thread_res_def file_res_def ac_simps)
  next
    case (3 tr)
    show ?case
      unfolding wp_bind [of "rx_h264_parser_destroy _"]
    proof (rule wp_parser_destroy [where M = "M + ?E + ?K"], goal_cases)
      case (3 tr')
      have "building M ?E (with_parser 0 0 (s\<lparr>trace := tr'\<rparr>))"
        using 3 b assms(2,3) by (simp add: building_def with_parser_def rx_live_def thread_res_def file_res_def inv ac_simps)
      then show ?case
        unfolding wp_get_bind z_twice
        by (rule wp_abandon) (use assms(3,4) in \<open>simp_all add: with_parser_def ac_simps\<close>)
    qed (use 3 b in \<open>simp_all add: ac_simps\<close>)
  qed (use b in simp)
qed

lemma wp_open_audio:
  assumes "building M (zr K_element (coordinator s) + zr K_element (rx_video_sink s)) s"
    and "\<not> reconstructed_file (video_of (vpath s))" and "coordinator s \<noteq> 0" and "rx_video_sink s \<noteq> 0"
    and "\<And>t. ready M g t \<Longrightarrow> Q True t" and "\<And>t. z_ledger (trace t) = Some M \<Longrightarrow> Q False t"
  shows "wp (open_audio api e g) Q s"
proof (cases "with_audio g")
  case False
  then have c: "(g_direct g \<or> g_stats_only g) = True" by (auto simp: with_audio_def)
  have "ready M g s" using assms(1-4) False by (simp add: ready_def pipeline_elems_def)
  then show ?thesis unfolding open_audio_def c if_True wp_return by (rule assms(5))
next
  case audio: True
  then have c: "(g_direct g \<or> g_stats_only g) = False" by (auto simp: with_audio_def)
  let ?E = "zr K_element (coordinator s) + zr K_element (rx_video_sink s)"
  note b = assms(1) [unfolded building_def]
  have abandon: "wp (abandon_audio api x) Q (s\<lparr>trace := tr, rx_dep_src := x\<rparr>)"
    "wp (abandon_audio api x) Q (s\<lparr>trace := tr, rx_dep_src := x, rx_audio_sink := k, audio_stats_p := q\<rparr>)"
    if "z_ledger tr = Some (M + rx_live s + ?E + zr K_element x)" for tr x k q
    by (rule wp_abandon_audio [where M = M and E = "?E + zr K_element x"];
        use that b assms(2,6) in \<open>simp add: building_def ac_simps\<close>)+
  have finish: "wp (do {
        link_elements api x k;
        (if \<not> g_auto g then do { rx_start_sound api e; ret () } else ret ());
        ret True }) Q (s\<lparr>trace := tr, rx_dep_src := x, rx_audio_sink := k, audio_stats_p := q\<rparr>)"
    if "z_ledger tr = Some (M + rx_live s + ?E + zr K_element x + zr K_element k)" "x \<noteq> 0" "k \<noteq> 0" for tr x k q
  proof (rule zs_step [OF zs_link], goal_cases)
    case (1 l tr')
    let ?s = "s\<lparr>trace := tr', rx_dep_src := x, rx_audio_sink := k, audio_stats_p := q\<rparr>"
    have s: "building M (?E + zr K_element x + zr K_element k) ?s"
      using 1 that b by (simp add: building_def ac_simps)
    have good: "Q True ?s" by (rule assms(5)) (use s assms(2-4) that audio in \<open>simp add: ready_def pipeline_elems_def ac_simps\<close>)
    have "wp (rx_start_sound api e) (\<lambda>_ t. Q True t) ?s"
      by (rule wp_rx_start_sound [OF s], rule assms(5))
        (use assms(2-4) that audio in \<open>auto simp: ready_def pipeline_elems_def ac_simps\<close>)
    then have "wp (rx_start_sound api e) (\<lambda>_. wp (ret ()) (\<lambda>_. wp (ret True) Q)) ?s"
      by (rule wp_conseq) (simp add: wp_return)
    then show ?case using good by (simp add: wp_bind wp_return z_trace_first)
  qed
  have sink: "wp (do {
        call api (ElemSet x ''shm-name'' (Z_str (g_dep_name g)));
        call api (ElemSet x ''channels'' (Z_str (g_channels g)));
        call api (ElemSet x ''expected-sample-rate'' (Z_uint (g_sample_rate g)));
        k \<leftarrow> create_rx_audio_sink api;
        modify (\<lambda>s. s\<lparr>rx_audio_sink := fst k, audio_stats_p := snd k\<rparr>);
        if fst k = 0 then abandon_audio api x else do {
        link_elements api x (fst k);
        (if \<not> g_auto g then do { rx_start_sound api e; ret () } else ret ());
        ret True } }) Q (s\<lparr>trace := tr, rx_dep_src := x\<rparr>)"
    if "z_ledger tr = Some (M + rx_live s + ?E + zr K_element x)" "x \<noteq> 0" for tr x
  proof (rule zs_step, rule zs_call, simp, simp, simp, rule zs_step, rule zs_call, simp, simp, simp,
      rule zs_step, rule zs_call, simp, simp, simp, unfold create_rx_audio_sink_def, unfold wp_bind [of "create_rx_sink _ _"],
      rule wp_create_sink [where M = "M + rx_live s + ?E + zr K_element x"], goal_cases)
    case 1
    then show ?case using that by simp
  next
    case 2
    then show ?case using building_rest [OF assms(1)] by (simp add: ac_simps)
  next
    case (3 x1 tr1 x2 tr2 x3 tr3 tr' k q)
    then show ?case
      using abandon(2) finish that by (cases "k = 0") (simp_all add: wp_bind [of "modify _"] wp_modify z_trace_first)
  qed
  show ?thesis
    unfolding open_audio_def c if_False wp_bind [of "call _ (ElemNew _)"]
  proof (rule wp_z_give [where M = "M + rx_live s + ?E"], goal_cases)
    case (4 x tr)
    note x = this
    show ?case
    proof (cases "fst x = 0")
      case True
      then show ?thesis
        using x abandon(1) [of tr 0] by (simp add: wp_bind [of "modify _"] wp_modify wp_bind [of "ret _"] wp_return)
    next
      case False
      show ?thesis
        unfolding wp_bind [of "modify _"] wp_modify if_not_P [OF False]
        by (rule zs_step [OF zs_batch])
          (use x False abandon(1) sink in \<open>simp add: z_trace_first\<close>)
    qed
  qed (use b in \<open>simp_all add: ac_simps\<close>)
qed

text \<open>A receiver without observer: what the first error paths release.\<close>

definition bare :: "zres multiset \<Rightarrow> zres multiset \<Rightarrow> rx_pipe \<Rightarrow> bool" where
  "bare M E s \<longleftrightarrow> building M E s \<and> h264_parser_el s = 0 \<and> h264_caps_sink s = 0 \<and> \<not> reconstructed_file (video_of (vpath s))"

lemma bare_frame [simp]:
  "bare M E (s\<lparr>coordinator := i\<rparr>) = bare M E s" "bare M E (s\<lparr>rx_video_pad := i\<rparr>) = bare M E s"
  "bare M E (s\<lparr>rx_video_sink := i\<rparr>) = bare M E s" "bare M E (s\<lparr>video_stats_p := i\<rparr>) = bare M E s"
  by (simp_all add: bare_def)

lemma bareI: "bare M E s \<Longrightarrow> z_ledger tr = Some (M + E' + rx_live s) \<Longrightarrow> at_rest E' \<Longrightarrow> bare M E' (s\<lparr>trace := tr\<rparr>)"
  by (simp add: bare_def building_def)

lemma bare_step:
  assumes "bare M E s" and "stays z_same m" and "\<And>x tr. bare M E (s\<lparr>trace := tr\<rparr>) \<Longrightarrow> wp (f x) Q (s\<lparr>trace := tr\<rparr>)"
  shows "wp (State_Monad.bind m f) Q s"
proof (rule zs_step [OF assms(2)])
  fix x tr
  assume "z_ledger tr = z_ledger (trace s)"
  then have "bare M E (s\<lparr>trace := tr\<rparr>)" using assms(1) by (simp add: bare_def building_def)
  then show "wp (f x) Q (s\<lparr>trace := tr\<rparr>)" by (rule assms(3))
qed

lemma wp_abandon_bare:
  assumes "bare M E s" and "elems es = E + zr K_element (session s)"
  shows "wp (abandon api es) (outcome M g) s"
  by (rule wp_abandon) (use assms in \<open>auto simp: bare_def outcome_def\<close>)

lemma with_parser_inv: "video_inv (v\<lparr>h264_parser := x\<rparr>) = video_inv v"
  by (simp add: video_inv_def res_defs screen_inv_def configured_def async_none_def)

lemma wp_open_video:
  assumes "threads_granted api" and "bare M (zr K_element (coordinator s)) s" and "coordinator s \<noteq> 0"
  shows "wp (open_video api e g) (outcome M g) s"
proof -
  note b = assms(2) [unfolded bare_def building_def]
  have rest: "at_rest (M + zr K_element (coordinator s) + rx_live s)"
    by (rule building_rest) (use assms(2) in \<open>simp add: bare_def\<close>)
  have observed: "wp (do {
     q \<leftarrow> call api (GetPad k ''sink'');
     call api (PadLink (rx_video_pad s) (fst q));
     a \<leftarrow> open_audio api e g;
     if \<not> a then ret False else launch api g }) (outcome M g)
     (with_parser p c (s\<lparr>trace := tr, rx_video_sink := k, video_stats_p := q\<rparr>))"
    if "z_ledger tr = Some (M + zr K_element (coordinator s) + rx_live s + zr K_element k + zr K_element p + zr K_element c)"
      "k \<noteq> 0" for tr k q p c
  proof (rule building_step [where M = M and E = "zr K_element (coordinator s) + zr K_element k"], goal_cases)
    case 1
    show ?case
      using that b by (simp add: building_def with_parser_def rx_live_def thread_res_def file_res_def with_parser_inv ac_simps)
  next
    case (3 x tr')
    then show ?case
    proof (rule building_step, goal_cases)
      case (2 x' tr'')
      then show ?case
        unfolding wp_bind [of "open_audio _ _ _"]
        by (intro wp_open_audio [where M = M])
          (use that b assms(3) wp_launch [OF assms(1)] in \<open>simp_all add: with_parser_def wp_return outcome_def\<close>)
    qed (auto intro: zs_intros)
  qed (auto intro: zs_intros)
  show ?thesis
    unfolding open_video_def wp_get_bind create_rx_video_sink_def wp_bind [of "create_rx_sink _ _"]
  proof (rule wp_create_sink [OF _ rest], goal_cases)
    case (2 tr k q)
    let ?s = "s\<lparr>trace := tr, rx_video_sink := k, video_stats_p := q\<rparr>"
    have s: "bare M (zr K_element (coordinator s) + zr K_element k) ?s"
      using 2 b by (simp add: bare_def building_def ac_simps)
    show ?case
    proof (cases "k = 0")
      case True
      then show ?thesis
        using wp_abandon_bare [OF s, of "[coordinator s, session s]" api g]
        by (simp add: wp_bind [of "modify _"] wp_modify)
    next
      case False
      have fail: "wp (abandon api ([k, coordinator s] @ opt (session s))) (outcome M g) (with_parser 0 0 (?s\<lparr>trace := tr'\<rparr>))"
        if "z_ledger tr' = Some (M + zr K_element (coordinator s) + rx_live s + zr K_element k)" for tr'
        by (rule wp_abandon_bare [where E = "zr K_element (coordinator s) + zr K_element k"])
          (use that b in \<open>simp_all add: bare_def building_def with_parser_def rx_live_def thread_res_def file_res_def
            with_parser_inv ac_simps\<close>)
      show ?thesis
        unfolding wp_bind [of "modify _"] wp_modify fst_conv snd_conv if_not_P [OF False] wp_bind [of "rx_h264_parser_create _"]
      proof (rule wp_parser_create [where M = "M + zr K_element (coordinator s) + rx_live s + zr K_element k"], goal_cases)
        case (3 tr' p c)
        then show ?case using observed [of tr' k p c q] False by (simp add: z_trace_first)
      next
        case (4 tr')
        then show ?case using fail by simp
      qed (use 2 rest in simp_all)
    qed
  qed (use b in simp)
qed

lemma wp_open_coordinator:
  assumes "threads_granted api" and "bare M {#} s"
  shows "wp (open_coordinator api e g) (outcome M g) s"
  unfolding open_coordinator_def wp_get_bind wp_bind [of "call _ (ElemNew _)"]
proof (rule wp_z_give [where M = "M + rx_live s"], goal_cases)
  case (4 c tr)
  let ?s = "s\<lparr>trace := tr, coordinator := fst c\<rparr>"
  have s: "bare M (zr K_element (fst c)) ?s" using 4 assms(2) by (simp add: bare_def building_def ac_simps)
  show ?case
  proof (cases "fst c = 0")
    case True
    then show ?thesis
      using wp_abandon_bare [OF s, of "opt (session s)" api g] by (simp add: wp_bind [of "modify _"] wp_modify)
  next
    case False
    have attach: "stays z_same (if x \<noteq> 0 then do { call api (AttachSession (fst c) x); ret () } else ret ())" for x
      by (auto intro!: zs_intros)
    have "wp (do {
       (if session s \<noteq> 0 then do { call api (AttachSession (fst c) (session s)); ret () } else ret ());
       call api (ElemSet (fst c) ''reorder-window'' (Z_uint (g_reorder_window g)));
       call api (ElemSet (fst c) ''reorder-timeout-ms'' (Z_uint (g_reorder_timeout g)));
       v \<leftarrow> call api (RequestRxPad (fst c));
       modify (\<lambda>s. s\<lparr>rx_video_pad := fst v\<rparr>);
       if fst v = 0 then abandon api [fst c, session s] else open_video api e g }) (outcome M g) ?s"
    proof (rule bare_step [OF s attach], goal_cases)
      case (1 x1 tr1)
      then show ?case
      proof (rule bare_step, goal_cases)
        case (2 x2 tr2)
        from 2 show ?case
        proof (rule bare_step, goal_cases)
          case (2 x3 tr3)
          from 2 show ?case
          proof (rule bare_step, goal_cases)
            case (2 v tr4)
            then show ?case
              using wp_abandon_bare [of M "zr K_element (fst c)" "s\<lparr>trace := tr4, coordinator := fst c, rx_video_pad := fst v\<rparr>"
                  "[fst c, session s]" api g]
                wp_open_video [OF assms(1), of M "s\<lparr>trace := tr4, coordinator := fst c, rx_video_pad := fst v\<rparr>"] False
              by (cases "fst v = 0") (simp_all add: wp_bind [of "modify _"] wp_modify z_trace_first)
          qed (auto intro: zs_intros)
        qed (auto intro: zs_intros)
      qed (auto intro: zs_intros)
    qed
    then show ?thesis using False by (simp add: wp_bind [of "modify _"] wp_modify)
  qed
qed (use assms(2) in \<open>simp_all add: bare_def building_def\<close>)

lemma wp_open_session:
  assumes "threads_granted api" and "bare M {#} s" and "session s = 0"
  shows "wp (do { ok \<leftarrow> open_session api g; if \<not> ok then abandon api [] else open_coordinator api e g }) (outcome M g) s"
proof (cases "g_direct g")
  case True
  then show ?thesis using wp_open_coordinator [OF assms(1,2)] by (simp add: open_session_def wp_bind [of "ret _"] wp_return)
next
  case False
  have live: "rx_live (s\<lparr>trace := tr, session := x\<rparr>) = rx_live s + zr K_element x" for tr x
    using assms(3) by (simp add: rx_live_def thread_res_def)
  show ?thesis
    unfolding wp_bind open_session_def if_not_P [OF False]
  proof (rule wp_z_give [where M = "M + rx_live s"], goal_cases)
    case (4 x tr)
    let ?s = "s\<lparr>trace := tr, session := fst x\<rparr>"
    have s: "bare M {#} ?s" using 4 assms(2) live by (simp add: bare_def building_def ac_simps)
    show ?case
      unfolding wp_modify
    proof (cases "fst x = 0")
      case True
      show "wp (if fst x = 0 then ret False else do {
          call api (ElemSet (fst x) ''tx-video-channels'' (Z_uint 0));
          call api (ElemSet (fst x) ''rx-video-channels'' (Z_uint 1));
          ret True }) (\<lambda>ok. wp (if \<not> ok then abandon api [] else open_coordinator api e g) (outcome M g)) ?s"
        using wp_abandon_bare [OF s, of "[]" api g] True by (simp add: wp_return)
    next
      case False
      show "wp (if fst x = 0 then ret False else do {
          call api (ElemSet (fst x) ''tx-video-channels'' (Z_uint 0));
          call api (ElemSet (fst x) ''rx-video-channels'' (Z_uint 1));
          ret True }) (\<lambda>ok. wp (if \<not> ok then abandon api [] else open_coordinator api e g) (outcome M g)) ?s"
        unfolding if_not_P [OF False]
      proof (rule bare_step [OF s], goal_cases)
        case (2 x1 tr1)
        from 2 show ?case
        proof (rule bare_step, goal_cases)
          case (2 x2 tr2)
          then show ?case using wp_open_coordinator [OF assms(1)] by (simp add: wp_return)
        qed (auto intro: zs_intros)
      qed (auto intro: zs_intros)
    qed
  qed (use assms(2) in \<open>simp_all add: bare_def building_def\<close>)
qed

lemma wp_start_dante_rx:
  assumes "threads_granted api" and "z_ledger (trace s) = Some M" and "at_rest M"
  shows "wp (start_dante_rx api e g) (outcome M g) s"
  unfolding start_dante_rx_def wp_bind [of "call _ (New K_object)"]
proof (rule wp_z_give [OF assms(2)], goal_cases)
  case (3 x tr)
  have fresh: "video_inv (video_of (vpath (new_rx d h p u)))" "\<not> reconstructed_file (video_of (vpath (new_rx d h p u)))" for d h p u
    by (simp_all add: new_rx_def with_parser_inv video_init_inv) (simp add: video_init_def)
  let ?n = "new_rx (g_decode g) (g_display g) (fst x)"
  show ?case
    unfolding wp_bind [of "modify _"] wp_modify wp_bind [of "call _ (New K_pipeline)"]
  proof (rule wp_z_give [where M = "M + zr K_object (fst x)"], goal_cases)
    case (4 p tr')
    show ?case
    proof (cases "fst p = 0")
      case True
      have "wp (do { call api (Delete K_object (fst x)); ret False }) (outcome M g) (?n (s\<lparr>trace := tr\<rparr>)\<lparr>trace := tr', pipe := fst p\<rparr>)"
        unfolding wp_bind
        by (rule wp_z_take [where N = M and X = "zr K_object (fst x)"])
          (use 4 True assms(3) in \<open>simp_all add: outcome_def wp_return\<close>)
      then show ?thesis using True by simp
    next
      case False
      have "bare M {#} (?n (s\<lparr>trace := tr\<rparr>)\<lparr>trace := tr', pipe := fst p\<rparr>)"
        using 4 False assms(3) fresh [of "g_decode g" "g_display g" "fst x" "s\<lparr>trace := tr\<rparr>"]
        by (simp add: bare_def building_def rx_live_def thread_res_def file_res_def new_rx_def)
      from wp_open_session [OF assms(1) this] show ?thesis using False by (simp add: new_rx_def)
    qed
  qed (use 3 in \<open>simp_all add: new_rx_def\<close>)
qed simp_all

section \<open>Running and stopping\<close>

text \<open>
  What the threads of a running receiver do, in any order: an access unit from the pipeline, the
  outstanding start of the decoder, decoded frames and a period of audio.
\<close>

datatype rx_event =
    On_unit access_unit
  | On_decoder
  | On_frames nat
  | On_audio "zst_audio_buf option" "zst_audio_frame option"

definition rx_work :: "vcall api \<Rightarrow> out_env \<Rightarrow> rx_event \<Rightarrow> unit rv" where
  "rx_work v e q =
     (case q of
        On_unit au \<Rightarrow> video_step v e (Sink_push au)
      | On_decoder \<Rightarrow> video_step v e Decoder_thread
      | On_frames n \<Rightarrow> video_step v e (Frames_ready n)
      | On_audio b a \<Rightarrow> on_screen v (\<lambda>d. on_sound d (\<lambda>x. modify (\<lambda>rx. rx_audio_playback x rx b a))))"

definition rx_step :: "zcall api \<Rightarrow> out_env \<Rightarrow> rx_event \<Rightarrow> unit zp" where
  "rx_step api e q = on_video api (\<lambda>v. rx_work v e q)"

primrec rx_run :: "zcall api \<Rightarrow> out_env \<Rightarrow> rx_event list \<Rightarrow> unit zp" where
  "rx_run api e [] = ret ()"
| "rx_run api e (q # qs) = do { rx_step api e q; rx_run api e qs }"

lemma wp_video_program:
  assumes "rx_inv M s" and "\<And>api'. (\<forall>tr c. \<exists>h. api' tr c = api h (Vid c)) \<Longrightarrow> wp (prog api') (\<lambda>_ v. video_inv v \<and> P v) (video_of (vpath s))"
    and "\<And>api'. stays file_rel (prog api')"
    and "\<And>a v tr. rx_inv M (s\<lparr>trace := tr, vpath := Vpath v\<rparr>) \<Longrightarrow> P v \<Longrightarrow> Q a (s\<lparr>trace := tr, vpath := Vpath v\<rparr>)"
  shows "wp (on_video api prog) Q s"
proof -
  let ?L = "zr K_object (rx_self s) + zr K_pipeline (pipe s) + zr K_element (session s) +
     zr K_element (h264_parser_el s) + zr K_element (h264_caps_sink s) + zr K_clock (rx_clock s) +
     zr K_scheduler (sched s) + thread_res s"
  have "z_ledger (trace s) = Some (M + ?L + file_res (video_of (vpath s)))"
    using assms(1) by (simp add: rx_inv_def rx_live_def ac_simps)
  then show ?thesis
  proof (rule wp_on_video [where P = "\<lambda>_ v. video_inv v \<and> P v"], goal_cases)
    case (3 a v tr)
    then show ?case
      by (intro assms(4)) (use assms(1) in \<open>simp_all add: rx_inv_def rx_live_def thread_res_def ac_simps\<close>)
  qed (use assms(2,3) in auto)
qed

lemma vkeeps_work:
  assumes "display_results api"
  shows "vkeeps (rx_work api e q)"
proof -
  have "vkeeps (on_screen api (\<lambda>d. on_sound d (\<lambda>x. modify (\<lambda>rx. rx_audio_playback x rx b a))))" for b a
  proof (rule vkeepsI, erule wp_video_sound [where C = "\<lambda>_. True"])
    show "wp (on_sound api' (\<lambda>x. modify (\<lambda>rx. rx_audio_playback x rx b a))) (\<lambda>_. sound_only (\<lambda>_. True) d) d"
      if "sink_inv (sink_of (rx_sound d))" for api' d
      by (rule wp_on_sound [where P = "\<lambda>_. sink_inv"]) (use that in \<open>auto simp: wp_modify sound_only_def intro: playback_inv\<close>)
  qed
  then show ?thesis using vkeeps_step [OF assms] by (simp add: rx_work_def split: rx_event.split)
qed

lemma fl_work: "stays file_rel (rx_work api e q)"
  by (cases q) (simp_all add: rx_work_def fl_step fl_screen)

lemma rx_step_inv:
  assumes "rx_results api" and "rx_inv M s"
  shows "wp (rx_step api e q) (\<lambda>_. rx_inv M) s"
proof -
  have v: "video_inv (video_of (vpath s))" using assms(2) by (simp add: rx_inv_def)
  show ?thesis
    unfolding rx_step_def
    by (rule wp_video_program [OF assms(2) _ fl_work, where P = "\<lambda>_. True"])
      (use vkeepsD [OF vkeeps_work v] inner_display [OF assms(1)] in simp_all)
qed

lemma rx_events_inv: "rx_results api \<Longrightarrow> rx_inv M s \<Longrightarrow> wp (rx_run api e qs) (\<lambda>_. rx_inv M) s"
  by (induction qs arbitrary: s) (auto simp: wp_return wp_bind intro: wp_conseq [OF rx_step_inv])

text \<open>No thread is left.\<close>

lemma wp_stop_workers:
  assumes "rx_inv M s"
    and "\<And>tr. rx_inv M (s\<lparr>trace := tr, running := False, bus_th := 0, sched := 0\<rparr>) \<Longrightarrow>
      Q () (s\<lparr>trace := tr, running := False, bus_th := 0, sched := 0\<rparr>)"
  shows "wp (stop_workers api) Q s"
proof -
  let ?L = "zr K_object (rx_self s) + zr K_pipeline (pipe s) + zr K_element (session s) +
     zr K_element (h264_parser_el s) + zr K_element (h264_caps_sink s) + zr K_clock (rx_clock s) +
     file_res (video_of (vpath s))"
  let ?S = "if sched s = 0 then {#} else {#Z_thread W_scheduler#}"
  let ?B = "if bus_th s = 0 then {#} else {#Z_thread W_bus#}"
  have l: "z_ledger (trace s) = Some (M + ?L + zr K_scheduler (sched s) + ?S + ?B)"
    using assms(1) by (simp add: rx_inv_def rx_live_def thread_res_def ac_simps)
  have rest: "at_rest (M + ?L)" using assms(1) by (simp add: rx_inv_def file_res_def)
  have fin: "Q () (s\<lparr>trace := tr, running := False, bus_th := 0, sched := 0\<rparr>)" if "z_ledger tr = Some (M + ?L)" for tr
    by (rule assms(2)) (use that assms(1) in \<open>simp add: rx_inv_def rx_live_def thread_res_def ac_simps\<close>)
  have sched: "wp (if sched s \<noteq> 0 then do {
        call api (SchedStop (sched s));
        call api (ThreadJoin W_scheduler);
        call api (Delete K_scheduler (sched s));
        modify (\<lambda>s. s\<lparr>sched := 0\<rparr>) } else ret ()) Q (s\<lparr>trace := tr, running := False, bus_th := 0\<rparr>)"
    if tr: "z_ledger tr = Some (M + ?L + zr K_scheduler (sched s) + ?S)" for tr
  proof (cases "sched s = 0")
    case True
    then have e: "s\<lparr>trace := tr, running := False, bus_th := 0, sched := 0\<rparr> = s\<lparr>trace := tr, running := False, bus_th := 0\<rparr>"
      by (cases s) simp
    show ?thesis using fin [of tr, unfolded e] tr True by (simp add: wp_return)
  next
    case False
    then have c: "(sched s \<noteq> 0) = True" by simp
    show ?thesis
      unfolding c if_True
    proof (rule zs_step, rule zs_call, simp, simp, simp, unfold wp_bind wp_modify, goal_cases)
      case (1 x tr1)
      show ?case
        by (rule wp_z_take [where N = "M + ?L + zr K_scheduler (sched s)" and X = "{#Z_thread W_scheduler#}"],
            use 1 tr False in simp, simp, simp, simp,
            rule wp_z_take [where N = "M + ?L" and X = "zr K_scheduler (sched s)"])
          (use False rest fin in \<open>simp_all add: zr_def z_trace_first\<close>)
    qed
  qed
  show ?thesis
    unfolding stop_workers_def wp_bind [of "modify _"] wp_modify wp_get_bind
      wp_bind [of "if bus_th _ \<noteq> 0 then _ else _"]
  proof (cases "bus_th s = 0")
    case True
    have e: "s\<lparr>trace := trace s, running := False, bus_th := 0\<rparr> = s\<lparr>running := False\<rparr>" using True by (cases s) simp
    show "wp (if bus_th (s\<lparr>running := False\<rparr>) \<noteq> 0 then do { call api (ThreadJoin W_bus); modify (\<lambda>s. s\<lparr>bus_th := 0\<rparr>) } else ret ())
      (\<lambda>_. wp (if sched (s\<lparr>running := False\<rparr>) \<noteq> 0 then do {
        call api (SchedStop (sched (s\<lparr>running := False\<rparr>)));
        call api (ThreadJoin W_scheduler);
        call api (Delete K_scheduler (sched (s\<lparr>running := False\<rparr>)));
        modify (\<lambda>s. s\<lparr>sched := 0\<rparr>) } else ret ()) Q) (s\<lparr>running := False\<rparr>)"
      using sched [of "trace s"] l True unfolding e by (cases "sched s = 0") (simp_all add: wp_return)
  next
    case False
    then have c: "(bus_th (s\<lparr>running := False\<rparr>) \<noteq> 0) = True" by simp
    show "wp (if bus_th (s\<lparr>running := False\<rparr>) \<noteq> 0 then do { call api (ThreadJoin W_bus); modify (\<lambda>s. s\<lparr>bus_th := 0\<rparr>) } else ret ())
      (\<lambda>_. wp (if sched (s\<lparr>running := False\<rparr>) \<noteq> 0 then do {
        call api (SchedStop (sched (s\<lparr>running := False\<rparr>)));
        call api (ThreadJoin W_scheduler);
        call api (Delete K_scheduler (sched (s\<lparr>running := False\<rparr>)));
        modify (\<lambda>s. s\<lparr>sched := 0\<rparr>) } else ret ()) Q) (s\<lparr>running := False\<rparr>)"
      unfolding c if_True wp_bind [of "call _ (ThreadJoin W_bus)"] wp_modify
      by (rule wp_z_take [where N = "M + ?L + zr K_scheduler (sched s) + ?S" and X = "{#Z_thread W_bus#}"])
        (use l False sched in \<open>(cases "sched s = 0"; simp add: z_trace_first)+\<close>)
  qed
qed

text \<open>The end of a receiver without threads, piece by piece.\<close>

definition idle_rx :: "zres multiset \<Rightarrow> rx_pipe \<Rightarrow> bool" where
  "idle_rx M s \<longleftrightarrow> z_ledger (trace s) = Some (M + rx_live s) \<and> at_rest M \<and> bus_th s = 0 \<and> sched s = 0 \<and>
     video_off (video_of (vpath s))"

lemma idle_rest: "idle_rx M s \<Longrightarrow> at_rest (M + rx_live s)"
  by (simp add: idle_rx_def rx_live_def thread_res_def file_res_def)

lemma idle_take:
  assumes "idle_rx M s" and "rx_live s = rx_live t + X" and "\<And>r. z_takes c r = X" and "\<And>r. z_gives c r = {#}"
    and "\<And>r tr. z_ledger tr = Some (M + rx_live t) \<Longrightarrow> Q r (s\<lparr>trace := tr\<rparr>)"
  shows "wp (call api c) Q s"
  by (rule wp_z_take [where N = "M + rx_live t" and X = X])
    (use assms idle_rest [OF assms(1)] in \<open>simp_all add: idle_rx_def ac_simps\<close>)

lemma idle_step:
  assumes "idle_rx M s" and "stays z_same m" and "\<And>x tr. idle_rx M (s\<lparr>trace := tr\<rparr>) \<Longrightarrow> wp (f x) Q (s\<lparr>trace := tr\<rparr>)"
  shows "wp (State_Monad.bind m f) Q s"
  by (rule zs_step [OF assms(2)]) (use assms(1,3) in \<open>simp add: idle_rx_def\<close>)

lemma wp_stop_session:
  assumes "idle_rx M s"
    and "\<And>tr. idle_rx M (s\<lparr>trace := tr, session := 0\<rparr>) \<Longrightarrow> Q () (s\<lparr>trace := tr, session := 0\<rparr>)"
  shows "wp (stop_session api) Q s"
proof (cases "session s = 0")
  case True
  then have e: "s\<lparr>trace := trace s, session := 0\<rparr> = s" by (cases s) simp
  show ?thesis using assms(1) assms(2) [of "trace s", unfolded e] True by (simp add: stop_session_def wp_get_bind wp_return)
next
  case False
  then have c: "(session s \<noteq> 0) = True" by simp
  have l: "rx_live (s\<lparr>trace := tr\<rparr>) = rx_live (s\<lparr>session := 0\<rparr>) + zr K_element (session s)" for tr
    by (simp add: rx_live_def thread_res_def ac_simps)
  show ?thesis
    unfolding stop_session_def wp_get_bind c if_True
  proof (rule idle_step [OF assms(1)], goal_cases)
    case (2 x tr)
    from 2 show ?case
      unfolding wp_bind wp_modify
      by (rule idle_take [OF _ l]) (use assms in \<open>simp_all add: z_trace_first idle_rx_def rx_live_def thread_res_def\<close>)
  qed (auto intro: zs_intros)
qed

lemma wp_close_dump:
  assumes "idle_rx M s"
    and "\<And>tr v. idle_rx M (s\<lparr>trace := tr, vpath := Vpath v\<rparr>) \<Longrightarrow> \<not> reconstructed_file v \<Longrightarrow>
      Q () (s\<lparr>trace := tr, vpath := Vpath v\<rparr>)"
  shows "wp (close_dump api) Q s"
proof (cases "reconstructed_file (video_of (vpath s))")
  case False
  have e: "s\<lparr>trace := trace s, vpath := Vpath (video_of (vpath s))\<rparr> = s" by (cases s) simp
  then show ?thesis
    using assms(1) assms(2) [where v = "video_of (vpath s)" and tr = "trace s", unfolded e] False by (simp add: close_dump_def wp_get_bind wp_return)
next
  case True
  let ?v = "(video_of (vpath s))\<lparr>reconstructed_file := False\<rparr>"
  have l: "rx_live s = rx_live (s\<lparr>vpath := Vpath ?v\<rparr>) + {#Z_file#}"
    using True by (simp add: rx_live_def thread_res_def file_res_def)
  have off: "video_off (v\<lparr>reconstructed_file := b\<rparr>) = video_off v" for v b
    by (simp add: video_off_def pcm_open_def)
  show ?thesis
    unfolding close_dump_def wp_get_bind if_P [OF True]
    unfolding wp_bind set_video_def wp_modify
  proof (rule wp_z_take [where N = "M + rx_live (s\<lparr>vpath := Vpath ?v\<rparr>)" and X = "{#Z_file#}"], goal_cases)
    case 4
    then show ?case using idle_rest [OF assms(1)] l by simp
  next
    case (5 r tr)
    then show ?case
      using assms(1) assms(2) [where tr = tr and v = ?v] by (simp add: idle_rx_def rx_live_def thread_res_def off)
  qed (use assms(1) l in \<open>simp_all add: idle_rx_def\<close>)
qed

lemma wp_stop_pipe:
  assumes "idle_rx M s"
    and "\<And>tr. idle_rx M (s\<lparr>trace := tr, pipe := 0\<rparr>) \<Longrightarrow> Q () (s\<lparr>trace := tr, pipe := 0\<rparr>)"
  shows "wp (stop_pipe api) Q s"
proof (cases "pipe s = 0")
  case True
  then have e: "s\<lparr>trace := trace s, pipe := 0\<rparr> = s" by (cases s) simp
  show ?thesis using assms(1) assms(2) [of "trace s", unfolded e] True by (simp add: stop_pipe_def wp_get_bind wp_return)
next
  case False
  then have c: "(pipe s \<noteq> 0) = True" by simp
  have l: "rx_live (s\<lparr>trace := tr\<rparr>) = rx_live (s\<lparr>pipe := 0\<rparr>) + {#Z_own K_pipeline (pipe s)#}" for tr
    using False by (simp add: rx_live_def thread_res_def zr_def [of K_pipeline])
  show ?thesis
    unfolding stop_pipe_def wp_get_bind c if_True
  proof (rule idle_step [OF assms(1)], goal_cases)
    case (2 x tr)
    from 2 show ?case
      unfolding wp_bind wp_modify
      by (rule idle_take [OF _ l]) (use assms in \<open>simp_all add: z_trace_first idle_rx_def rx_live_def thread_res_def\<close>)
  qed (auto intro: zs_intros)
qed

lemma wp_stop_clock:
  assumes "idle_rx M s"
    and "\<And>tr. idle_rx M (s\<lparr>trace := tr, rx_clock := 0\<rparr>) \<Longrightarrow> Q () (s\<lparr>trace := tr, rx_clock := 0\<rparr>)"
  shows "wp (stop_clock api) Q s"
proof (cases "rx_clock s = 0")
  case True
  then have e: "s\<lparr>trace := trace s, rx_clock := 0\<rparr> = s" by (cases s) simp
  show ?thesis using assms(1) assms(2) [of "trace s", unfolded e] True by (simp add: stop_clock_def wp_get_bind wp_return)
next
  case False
  then have c: "(rx_clock s \<noteq> 0) = True" by simp
  have l: "rx_live s = rx_live (s\<lparr>rx_clock := 0\<rparr>) + {#Z_own K_clock (rx_clock s)#}"
    using False by (simp add: rx_live_def thread_res_def zr_def [of K_clock])
  show ?thesis
    unfolding stop_clock_def wp_get_bind c if_True
    unfolding wp_bind wp_modify
    by (rule idle_take [OF assms(1) l])
      (use assms in \<open>simp_all add: z_trace_first idle_rx_def rx_live_def thread_res_def\<close>)
qed

lemma wp_idle_parser_destroy:
  assumes "idle_rx M s" and "\<And>tr. idle_rx M (with_parser 0 0 (s\<lparr>trace := tr\<rparr>)) \<Longrightarrow> Q () (with_parser 0 0 (s\<lparr>trace := tr\<rparr>))"
  shows "wp (rx_h264_parser_destroy api) Q s"
proof -
  let ?N = "M + zr K_object (rx_self s) + zr K_pipeline (pipe s) + zr K_element (session s) + zr K_clock (rx_clock s) +
    file_res (video_of (vpath s))"
  have off: "video_off (v\<lparr>h264_parser := b\<rparr>) = video_off v" for v b
    by (simp add: video_off_def pcm_open_def)
  show ?thesis
    by (rule wp_parser_destroy [where M = ?N], use assms(1) in \<open>simp add: idle_rx_def rx_live_def thread_res_def ac_simps\<close>,
        use assms(1) in \<open>simp add: idle_rx_def file_res_def\<close>, rule assms(2))
      (use assms(1) in \<open>simp add: idle_rx_def with_parser_def rx_live_def thread_res_def file_res_def off ac_simps\<close>)
qed

definition gone :: "zres multiset \<Rightarrow> rx_pipe \<Rightarrow> bool" where
  "gone M s \<longleftrightarrow> z_ledger (trace s) = Some M \<and> video_off (video_of (vpath s)) \<and>
     \<not> reconstructed_file (video_of (vpath s)) \<and> extra_data (video_of (vpath s)) = None"

lemma wp_take_down:
  assumes "idle_rx M s"
  shows "wp (do {
     stop_session api;
     close_dump api;
     stop_pipe api;
     rx_h264_parser_destroy api;
     set_video (\<lambda>v. v\<lparr>extra_data := None\<rparr>);
     stop_clock api;
     s \<leftarrow> State_Monad.get;
     call api (Delete K_object (rx_self s));
     ret () }) (\<lambda>_. gone M) s"
  unfolding wp_bind [of "stop_session _"]
proof (rule wp_stop_session [OF assms], goal_cases)
  case (1 tr1)
  then show ?case
    unfolding wp_bind [of "close_dump _"]
  proof (rule wp_close_dump, goal_cases)
    case (1 tr2 v)
    note shut = 1(2)
    from 1(1) show ?case
      unfolding wp_bind [of "stop_pipe _"]
    proof (rule wp_stop_pipe, goal_cases)
      case (1 tr3)
      then show ?case
        unfolding wp_bind [of "rx_h264_parser_destroy _"]
      proof (rule wp_idle_parser_destroy, goal_cases)
        case (1 tr4)
        let ?s = "(s\<lparr>trace := tr4, session := 0, pipe := 0, h264_parser_el := 0, h264_caps_sink := 0,
            vpath := Vpath (v\<lparr>h264_parser := False, extra_data := None\<rparr>)\<rparr>)"
        have off: "video_off (v\<lparr>h264_parser := False, extra_data := None\<rparr>) = video_off (v\<lparr>h264_parser := False\<rparr>)"
          by (simp add: video_off_def pcm_open_def)
        have s: "idle_rx M ?s"
          using 1 by (simp add: idle_rx_def with_parser_def rx_live_def thread_res_def file_res_def off)
        have "wp (do {
            stop_clock api;
            s \<leftarrow> State_Monad.get;
            call api (Delete K_object (rx_self s));
            ret () }) (\<lambda>_. gone M) ?s"
          unfolding wp_bind [of "stop_clock _"]
        proof (rule wp_stop_clock [OF s], goal_cases)
          case (1 tr5)
          show ?case
            unfolding wp_get_bind
            unfolding wp_bind wp_return
            by (rule wp_z_take [where N = M and X = "zr K_object (rx_self s)"])
              (use 1 shut in \<open>simp_all add: idle_rx_def gone_def rx_live_def thread_res_def file_res_def\<close>)
        qed
        then show ?case by (simp add: set_video_def wp_bind [of "modify _"] wp_modify with_parser_def z_trace_first)
      qed
    qed
  qed
qed

text \<open>What \<open>stop_dante_rx\<close> does when the workers have ended.\<close>

definition stop_rest :: "zcall api \<Rightarrow> out_env \<Rightarrow> unit zp" where
  "stop_rest api e = do {
     rx_stop_sound api;
     on_video api (\<lambda>v. stop_video v e);
     stop_session api;
     close_dump api;
     stop_pipe api;
     rx_h264_parser_destroy api;
     set_video (\<lambda>v. v\<lparr>extra_data := None\<rparr>);
     stop_clock api;
     s \<leftarrow> State_Monad.get;
     call api (Delete K_object (rx_self s));
     ret () }"

lemma wp_stop_rest:
  assumes "rx_results api" and "rx_inv M s" and "bus_th s = 0" "sched s = 0"
  shows "wp (stop_rest api e) (\<lambda>_. gone M) s"
proof -
  have v: "video_inv (video_of (vpath s))" using assms(2) by (simp add: rx_inv_def)
  show ?thesis
    unfolding stop_rest_def rx_stop_sound_def wp_bind [of "on_video _ _"]
  proof (rule wp_video_program [OF assms(2), where P = "\<lambda>v. \<not> pcm_open v"], goal_cases)
    case (1 api')
    show ?case
      by (rule wp_video_sound [OF v, where C = "\<lambda>a. \<not> audio_pcm a"]) (auto simp: pcm_open_def intro: sound_only_stop)
  next
    case (3 a v1 tr1)
    note quiet = 3
    show ?case
    proof (rule wp_video_program [OF 3(1), where P = video_off], goal_cases)
      case (1 api')
      have d: "display_results api'" by (rule inner_display [OF assms(1) 1])
      have i: "video_inv v1" using quiet(1) by (simp add: rx_inv_def)
      have "wp (stop_video api' e) (\<lambda>_ t. video_inv t \<and> video_off t) v1"
        by (rule wp_conj [OF vkeepsD [OF vkeeps_stop [OF d] i] wp_stop_video_off [OF d i quiet(2)]])
      then show ?case by simp
    next
      case (3 a' v2 tr2)
      then show ?case by (intro wp_take_down) (use assms(3,4) in \<open>simp add: idle_rx_def rx_inv_def\<close>)
    qed (rule fl_stop)
  qed (rule fl_screen)
qed

lemma stop_parts: "stop_dante_rx api e = do { stop_workers api; stop_rest api e }"
  by (simp add: stop_dante_rx_def stop_rest_def)

lemma wp_stop_dante_rx:
  assumes "rx_results api" and "rx_inv M s"
  shows "wp (stop_dante_rx api e) (\<lambda>_. gone M) s"
  unfolding stop_parts wp_bind
  by (rule wp_stop_workers [OF assms(2)], rule wp_stop_rest [OF assms(1)]) simp_all

text \<open>The workers have ended before anything is taken down.\<close>

lemma oc_stop_workers: "stays (only_calls (\<lambda>c. dismantles c \<longrightarrow> z_teardown c)) (stop_workers api)"
  unfolding stop_workers_def by (auto intro!: oc_intros)

lemma oc_stop_rest: "stays (only_calls (\<lambda>c. \<not> hires c)) (stop_rest api e)"
  unfolding stop_rest_def rx_stop_sound_def stop_session_def close_dump_def stop_pipe_def stop_clock_def
  by (auto intro!: oc_intros oc_on_video oc_set_video oc_parser_destroy)

lemma stop_in_order:
  assumes "rx_results api" and "rx_inv M s"
  shows "wp (stop_dante_rx api e) (\<lambda>_ u. gone M u \<and> (\<exists>new. trace u = new @ trace s \<and> dismantled_at_rest (trace s) new)) s"
  unfolding stop_parts
proof (rule wp_in_order [OF _ oc_stop_workers _ oc_stop_rest, where P = "\<lambda>t. rx_inv M t \<and> bus_th t = 0 \<and> sched t = 0"])
  show "wp (stop_workers api) (\<lambda>_ t. (rx_inv M t \<and> bus_th t = 0 \<and> sched t = 0) \<and>
      (\<exists>N. z_ledger (trace t) = Some N \<and> at_rest N)) s"
    by (rule wp_stop_workers [OF assms(2)]) (auto simp: rx_inv_def rx_live_def thread_res_def file_res_def)
  show "wp (stop_rest api e) (\<lambda>_ u. gone M u \<and> z_ledger (trace u) \<noteq> None) t"
    if "rx_inv M t \<and> bus_th t = 0 \<and> sched t = 0" for t
    by (rule wp_conseq [OF wp_stop_rest [OF assms(1)]]) (use that in \<open>auto simp: gone_def\<close>)
qed

section \<open>Properties\<close>

definition no_rx :: rx_pipe where
  "no_rx = \<lparr>trace = [], rx_self = 0, pipe = 0, sched = 0, rx_clock = 0, session = 0, coordinator = 0, rx_dep_src = 0,
      rx_video_sink = 0, h264_parser_el = 0, h264_caps_sink = 0, rx_audio_sink = 0, rx_video_pad = 0, video_stats_p = 0,
      audio_stats_p = 0, bus_th = 0, running = False, vpath = Vpath (video_init False False False)\<rparr>"


text \<open>A library that grants everything, and a receiver of a DVR session.\<close>

definition rx_api :: "zcall api" where
  "rx_api tr q =
     (case q of
        Vid v \<Rightarrow> video_api [] v
      | New k \<Rightarrow> (int (length tr) + 1, [])
      | ElemNew f \<Rightarrow> (int (length tr) + 1, [])
      | ElemCreate n p \<Rightarrow> (int (length tr) + 1, [])
      | GetPad x n \<Rightarrow> (1, [])
      | RequestRxPad x \<Rightarrow> (1, [])
      | FOpen n \<Rightarrow> (1, [])
      | ThreadCreate w \<Rightarrow> (0, [1])
      | QCreate k x \<Rightarrow> (0, [int (length tr) + 1])
      | _ \<Rightarrow> (0, []))"

definition rx_default :: rx_config where
  "rx_default = \<lparr>g_dvr_socket = ''/var/run/dante/dvr'', g_dep_name = ''DanteEP'', g_channels = ''1,2'', g_sample_rate = 48000,
     g_path = ''out.h264'', g_decode = True, g_stats_only = False, g_direct = False, g_peer = [], g_local = ''0.0.0.0'',
     g_port = 16490, g_display = True, g_reorder_window = 1, g_reorder_timeout = 1, g_auto = False, g_batched = True\<rparr>"

lemma rx_api_laws: "rx_results rx_api" "threads_granted rx_api"
  by (simp_all add: rx_results_def drm_results_def kernel_ids_def nonzero_ids_def threads_granted_def rx_api_def video_api_def
      grant_api_def outp_def)


text \<open>
  With that library the start of a receiver without audio succeeds.  Refused threads are joined by
  the stop all the same.
\<close>

lemmas rx_start_defs = start_dante_rx_def open_session_def open_coordinator_def open_video_def create_rx_video_sink_def
  create_rx_sink_def rx_h264_parser_create_def configure_parser_def link_elements_def set_parser_def set_video_def
  open_audio_def launch_def open_dump_def run_pipeline_def

lemma rx_api_starts: "wp (start_dante_rx rx_api e (rx_default\<lparr>g_stats_only := True\<rparr>)) (\<lambda>ok t. ok \<and> bus_th t \<noteq> 0) no_rx"
  by (simp add: rx_start_defs wp_rules wp_call rx_default_def rx_api_def new_rx_def no_rx_def outp_def)

definition no_threads :: "zcall api" where
  "no_threads tr q = (case q of ThreadCreate w \<Rightarrow> (11, []) | _ \<Rightarrow> rx_api tr q)"

lemma refused_thread_joined:
  "wp (do { start_dante_rx no_threads e (rx_default\<lparr>g_stats_only := True\<rparr>); stop_workers no_threads })
     (\<lambda>_ t. z_ledger (trace t) = None) no_rx"
  by (simp add: rx_start_defs stop_workers_def wp_rules wp_call rx_default_def no_threads_def rx_api_def new_rx_def no_rx_def
      outp_def zr_def)

text \<open>In direct mode there is no session; two error paths destroy it without the test of the first.\<close>

definition no_rx_pad :: "zcall api" where
  "no_rx_pad tr q = (case q of RequestRxPad x \<Rightarrow> (0, []) | _ \<Rightarrow> rx_api tr q)"

lemma null_session_destroyed:
  "wp (start_dante_rx no_rx_pad e (rx_default\<lparr>g_direct := True\<rparr>)) (\<lambda>ok t. \<not> ok \<and> (Delete K_element 0, (0, [])) \<in> set (trace t)) no_rx"
  by (simp add: rx_start_defs abandon_def wp_rules wp_call rx_default_def no_rx_pad_def rx_api_def new_rx_def no_rx_def outp_def)

end
