(* ===== verification/Qcap_Receiver.thy ===== *)
theory Qcap_Receiver
  imports Pipeline_Life
begin

text \<open>
  The receiver on the QCAP library in src/src/tests/sc6f0-dante-rx.cpp: \<open>start_qcap_dante_rx\<close> makes
  the decoder and audio parts (\<open>start_qcap_media_rx\<close>), a server and a client whose callbacks feed
  them; \<open>stop_qcap_dante_rx\<close> takes all down and is also the end of every error path.
\<close>

section \<open>The media part\<close>

text \<open>\<open>zst_dante_rx_t\<close> without pipeline; its statistics are memory of its own.\<close>

definition drop_media :: "zcall api \<Rightarrow> bool zp" where
  "drop_media api = do {
     s \<leftarrow> State_Monad.get;
     call api (Delete K_memory (video_stats_p s));
     call api (Delete K_memory (audio_stats_p s));
     call api (Delete K_object (rx_self s));
     ret False }"

definition start_qcap_media_rx :: "zcall api \<Rightarrow> out_env \<Rightarrow> bool \<Rightarrow> bool zp" where
  "start_qcap_media_rx api e display = do {
     x \<leftarrow> call api (New K_object);
     modify (new_rx True display (fst x));
     v \<leftarrow> call api (New K_memory);
     a \<leftarrow> call api (New K_memory);
     modify (\<lambda>s. s\<lparr>video_stats_p := fst v, audio_stats_p := fst a\<rparr>);
     if fst v = 0 \<or> fst a = 0 then drop_media api else do {
     h \<leftarrow> rx_h264_parser_create api;
     if h \<noteq> 0 then drop_media api else do {
     rx_start_sound api e;
     ret True } } }"

definition stop_qcap_media_rx :: "zcall api \<Rightarrow> out_env \<Rightarrow> unit zp" where
  "stop_qcap_media_rx api e = do {
     on_video api (\<lambda>v. stop_vdec_decoder v e);
     rx_h264_parser_destroy api;
     set_video (\<lambda>v. v\<lparr>extra_data := None\<rparr>);
     on_video api (\<lambda>v. stop_vdec_display v e);
     rx_stop_sound api;
     drop_media api;
     ret () }"

section \<open>Server and client\<close>

text \<open>The media part, behind a constructor.\<close>

datatype media = Media (media_of: rx_pipe)

record qcap_rx = "zcall io" +
  q_self :: int
  server :: int
  client :: int
  server_started :: bool
  client_started :: bool
  media :: media

type_synonym 'a qp = "(qcap_rx, 'a) state"

definition on_media :: "'a zp \<Rightarrow> 'a qp" where
  "on_media m = State (\<lambda>s. let (a, t) = run_state m ((media_of (media s))\<lparr>trace := trace s\<rparr>)
     in (a, s\<lparr>trace := trace t, media := Media t\<rparr>))"

definition stop_client :: "zcall api \<Rightarrow> unit qp" where
  "stop_client api = do {
     s \<leftarrow> State_Monad.get;
     (if client s \<noteq> 0 then do {
        (if client_started s then do { call api (QStop K_client (client s)); ret () } else ret ());
        call api (Delete K_client (client s));
        modify (\<lambda>s. s\<lparr>client := 0, client_started := False\<rparr>) } else ret ()) }"

definition stop_server :: "zcall api \<Rightarrow> unit qp" where
  "stop_server api = do {
     s \<leftarrow> State_Monad.get;
     (if server s \<noteq> 0 then do {
        (if server_started s then do { call api (QStop K_server (server s)); ret () } else ret ());
        call api (Delete K_server (server s));
        modify (\<lambda>s. s\<lparr>server := 0, server_started := False\<rparr>) } else ret ()) }"

definition stop_qcap_dante_rx :: "zcall api \<Rightarrow> out_env \<Rightarrow> unit qp" where
  "stop_qcap_dante_rx api e = do {
     stop_client api;
     stop_server api;
     on_media (stop_qcap_media_rx api e);
     s \<leftarrow> State_Monad.get;
     call api (Delete K_object (q_self s));
     ret () }"

definition quit_qcap :: "zcall api \<Rightarrow> out_env \<Rightarrow> bool qp" where
  "quit_qcap api e = do { stop_qcap_dante_rx api e; ret False }"

text \<open>A chain of settings, each with the error path of the code.\<close>

primrec qset_all :: "zcall api \<Rightarrow> zkind \<Rightarrow> int \<Rightarrow> string list \<Rightarrow> bool qp" where
  "qset_all api k x [] = ret True"
| "qset_all api k x (n # ns) = do {
     r \<leftarrow> call api (QSet k x n);
     if fst r \<noteq> QCAP_RS_SUCCESSFUL then ret False else qset_all api k x ns }"

text \<open>
  Making, setting and starting the server or the client: \<open>set_handle\<close> and \<open>set_started\<close> are the
  fields of the receiver that hold it.
\<close>

definition start_part :: "zcall api \<Rightarrow> out_env \<Rightarrow> zkind \<Rightarrow> int \<Rightarrow> (int \<Rightarrow> qcap_rx \<Rightarrow> qcap_rx) \<Rightarrow> (qcap_rx \<Rightarrow> qcap_rx) \<Rightarrow>
    string list \<Rightarrow> bool qp \<Rightarrow> bool qp" where
  "start_part api e k parent set_handle set_started names rest = do {
     r \<leftarrow> call api (QCreate k parent);
     modify (set_handle (outp r 0));
     if fst r \<noteq> QCAP_RS_SUCCESSFUL then quit_qcap api e else do {
     ok \<leftarrow> qset_all api k (outp r 0) names;
     if \<not> ok then quit_qcap api e else do {
     t \<leftarrow> call api (QStart k (outp r 0));
     if fst t \<noteq> QCAP_RS_SUCCESSFUL then quit_qcap api e else do {
     modify set_started;
     rest } } } }"

definition start_client :: "zcall api \<Rightarrow> out_env \<Rightarrow> bool qp" where
  "start_client api e = do {
     s \<leftarrow> State_Monad.get;
     start_part api e K_client (server s) (\<lambda>x s. s\<lparr>client := x\<rparr>) (\<lambda>s. s\<lparr>client_started := True\<rparr>)
       [''VIDEO_DECODE'', ''AUDIO_DECODE'', ''CONNECTED_CALLBACK'', ''FAIL_CALLBACK'', ''VIDEO_CALLBACK'', ''AUDIO_CALLBACK'']
       (ret True) }"

definition start_server :: "zcall api \<Rightarrow> out_env \<Rightarrow> bool qp" where
  "start_server api e =
     start_part api e K_server 0 (\<lambda>x s. s\<lparr>server := x\<rparr>) (\<lambda>s. s\<lparr>server_started := True\<rparr>)
       [''CUSTOM_PROPERTY'', ''MESSAGE_CALLBACK''] (start_client api e)"

definition new_qcap :: "int \<Rightarrow> qcap_rx \<Rightarrow> qcap_rx" where
  "new_qcap p s = \<lparr>trace = trace s, q_self = p, server = 0, client = 0, server_started = False, client_started = False,
     media = media s\<rparr>"

definition start_qcap_dante_rx :: "zcall api \<Rightarrow> out_env \<Rightarrow> bool \<Rightarrow> bool qp" where
  "start_qcap_dante_rx api e display = do {
     x \<leftarrow> call api (New K_object);
     modify (new_qcap (fst x));
     ok \<leftarrow> on_media (start_qcap_media_rx api e display);
     if \<not> ok then do { call api (Delete K_object (fst x)); ret False }
     else start_server api e }"

section \<open>The media part keeps the ledger\<close>

definition media_live :: "rx_pipe \<Rightarrow> zres multiset" where
  "media_live s = zr K_object (rx_self s) + zr K_memory (video_stats_p s) + zr K_memory (audio_stats_p s) +
     zr K_element (h264_parser_el s) + zr K_element (h264_caps_sink s) + file_res (video_of (vpath s))"

text \<open>The media part holds nothing that works by itself; the client may run in \<open>M\<close>.\<close>

definition media_inv :: "zres multiset \<Rightarrow> rx_pipe \<Rightarrow> bool" where
  "media_inv M s \<longleftrightarrow> z_ledger (trace s) = Some (M + media_live s) \<and> video_inv (video_of (vpath s)) \<and>
     \<not> reconstructed_file (video_of (vpath s))"

lemma media_rest [simp]: "at_rest (media_live s)"
  by (simp add: media_live_def file_res_def)

lemma wp_media_video:
  assumes "media_inv M s"
    and "\<And>api'. (\<forall>tr c. \<exists>h. api' tr c = api h (Vid c)) \<Longrightarrow> wp (prog api') (\<lambda>_ v. video_inv v \<and> P v) (video_of (vpath s))"
    and "\<And>api'. stays file_rel (prog api')"
    and "\<And>a v tr. media_inv M (s\<lparr>trace := tr, vpath := Vpath v\<rparr>) \<Longrightarrow> P v \<Longrightarrow> Q a (s\<lparr>trace := tr, vpath := Vpath v\<rparr>)"
  shows "wp (on_video api prog) Q s"
proof -
  let ?L = "zr K_object (rx_self s) + zr K_memory (video_stats_p s) + zr K_memory (audio_stats_p s) +
     zr K_element (h264_parser_el s) + zr K_element (h264_caps_sink s)"
  have "z_ledger (trace s) = Some (M + ?L + file_res (video_of (vpath s)))"
    using assms(1) by (simp add: media_inv_def media_live_def ac_simps)
  then show ?thesis
  proof (rule wp_on_video [where P = "\<lambda>_ v. video_inv v \<and> P v"], goal_cases)
    case (3 a v tr)
    then show ?case
      by (intro assms(4)) (use assms(1) in \<open>auto simp: media_inv_def media_live_def file_rel_def ac_simps\<close>)
  qed (use assms(2,3) in auto)
qed

lemma wp_drop_media:
  assumes "media_inv M s" and "at_rest M" and "h264_parser_el s = 0" "h264_caps_sink s = 0"
    and "\<And>tr. z_ledger tr = Some M \<Longrightarrow> Q False (s\<lparr>trace := tr\<rparr>)"
  shows "wp (drop_media api) Q s"
  unfolding drop_media_def wp_get_bind
  unfolding wp_bind wp_return
proof (rule wp_z_take [where N = "M + zr K_object (rx_self s) + zr K_memory (audio_stats_p s)" and X = "zr K_memory (video_stats_p s)"],
    goal_cases)
  case (5 r tr)
  then show ?case
    by (intro wp_z_take [where N = "M + zr K_object (rx_self s)" and X = "zr K_memory (audio_stats_p s)"]
        wp_z_take [where N = M and X = "zr K_object (rx_self s)"])
      (use assms(2,5) in simp_all)
qed (use assms in \<open>simp_all add: media_inv_def media_live_def file_res_def ac_simps\<close>)

lemma wp_start_media:
  assumes "z_ledger (trace s) = Some M" and "at_rest M"
    and "\<And>t. media_inv M t \<Longrightarrow> Q True t" and "\<And>t. z_ledger (trace t) = Some M \<Longrightarrow> Q False t"
  shows "wp (start_qcap_media_rx api e display) Q s"
  unfolding start_qcap_media_rx_def wp_bind [of "call _ (New K_object)"]
proof (rule wp_z_give [OF assms(1)], goal_cases)
  case (3 x tr)
  let ?n = "new_rx True display (fst x) (s\<lparr>trace := tr\<rparr>)"
  have fresh: "video_inv (video_of (vpath ?n))" "\<not> reconstructed_file (video_of (vpath ?n))"
    by (simp_all add: new_rx_def with_parser_inv video_init_inv) (simp add: video_init_def)
  show ?case
    unfolding wp_bind [of "modify _"] wp_modify wp_bind [of "call _ (New K_memory)"]
  proof (rule wp_z_give [where M = "M + zr K_object (fst x)"], goal_cases)
    case (4 v tr1)
    show ?case
    proof (rule wp_z_give [where M = "M + zr K_object (fst x) + zr K_memory (fst v)"], goal_cases)
      case (4 a tr2)
      let ?s = "?n\<lparr>trace := tr2, video_stats_p := fst v, audio_stats_p := fst a\<rparr>"
      have s: "media_inv M ?s"
        using 4 fresh by (simp add: media_inv_def media_live_def new_rx_def file_res_def ac_simps)
      have none: "h264_parser_el ?s = 0" "h264_caps_sink ?s = 0" by (simp_all add: new_rx_def)
      have drop: "wp (drop_media api) Q ?s"
        by (rule wp_drop_media [OF s assms(2) none]) (simp add: assms(4))
      have live: "media_live (with_parser p c (?s\<lparr>trace := tr\<rparr>)) = media_live ?s + zr K_element p + zr K_element c" for p c tr
        using none by (simp add: media_live_def with_parser_def file_res_def ac_simps)
      have built: "wp (do { h \<leftarrow> rx_h264_parser_create api; if h \<noteq> 0 then drop_media api else do { rx_start_sound api e; ret True } }) Q ?s"
        unfolding wp_bind [of "rx_h264_parser_create _"]
      proof (rule wp_parser_create [where M = "M + media_live ?s"], goal_cases)
        case (3 tr3 p c)
        let ?t = "with_parser p c (?s\<lparr>trace := tr3\<rparr>)"
        have t: "media_inv M ?t"
          using s 3 live by (simp add: media_inv_def) (simp add: with_parser_def with_parser_inv ac_simps)
        have v: "video_inv (video_of (vpath ?t))" using t by (simp add: media_inv_def)
        have sound: "wp (on_screen api' (\<lambda>d. start_sound d e)) (\<lambda>_ v. video_inv v \<and> True) (video_of (vpath ?t))" for api'
          by (rule wp_video_sound [OF v, where C = "\<lambda>_. True"], rule sound_only_start, assumption, simp)
        have "wp (rx_start_sound api e) (\<lambda>_. media_inv M) ?t"
          unfolding rx_start_sound_def by (rule wp_media_video [OF t sound fl_screen])
        then have "wp (rx_start_sound api e) (\<lambda>_. wp (ret True) Q) ?t"
          by (rule wp_conseq) (simp add: wp_return assms(3))
        then show ?case by (simp add: wp_bind)
      next
        case (4 tr3)
        have "media_inv M (with_parser 0 0 (?s\<lparr>trace := tr3\<rparr>))"
          using s 4 live by (simp add: media_inv_def) (simp add: with_parser_def with_parser_inv)
        then have "wp (drop_media api) Q (with_parser 0 0 (?s\<lparr>trace := tr3\<rparr>))"
          by (rule wp_drop_media [OF _ assms(2)]) (simp_all add: with_parser_def assms(4))
        then show ?case by simp
      qed (use s assms(2) in \<open>simp_all add: media_inv_def\<close>)
      show ?case using drop built by (simp add: z_twice z_trace_first)
    qed (use 4 in \<open>simp_all add: new_rx_def\<close>)
  qed (use 3 in \<open>simp_all add: new_rx_def\<close>)
qed simp_all

text \<open>The stop of the media part, when nothing works any more.\<close>

lemma fl_stop_parts: "stays file_rel (stop_vdec_decoder api e)" "stays file_rel (stop_vdec_display api e)"
  unfolding stop_vdec_decoder_def stop_vdec_display_def
  by (intro fl_intros fl_sink fl_thread fl_async_stop fl_drop; simp)+

definition shut :: "rx_video \<Rightarrow> bool" where
  "shut v \<longleftrightarrow> video_inv v \<and> vdec v = 0 \<and> \<not> vdec_started v \<and> \<not> decoder_initializing v"

lemma shut_frame: "shut (v\<lparr>h264_parser := b, extra_data := x\<rparr>) = shut v"
  by (auto simp: shut_def video_inv_def res_defs screen_inv_def configured_def async_none_def)

lemma wp_display_shut:
  assumes "shut v"
  shows "wp (stop_vdec_display api e) (\<lambda>_ t. video_inv t \<and> (v_ledger (trace t) = Some {#} \<and> vdec t = 0 \<and> vdec_sink t = 0 \<and>
    \<not> decoder_initializing t \<and> output_off (disp_of (screen t)))) v"
proof -
  have l: "v_ledger (trace v) = Some ({#} + sink_res v)" and i: "screen_inv v" "async_none v"
    using assms by (auto simp: shut_def video_inv_def video_res_def async_res_def vdec_res_def obj_res_def run_res_def async_none_def)
  show ?thesis
  proof (rule wp_conseq [OF wp_stop_vdec_display [OF i(1) l]], goal_cases)
    case (1 a t)
    then have t: "shown v t" "vdec_sink t = 0" "output_off (disp_of (screen t))" by simp_all
    note same = shown_same [OF t(1)] shown_res [OF t(1)] shown_inv [OF t(1)] shown_ledger [OF t(1) l]
    have n: "sink_res t = {#}" using t(2) same(15) by (simp add: screen_inv_def sink_res_def obj_res_def run_res_def)
    show ?case
      using same n t assms i by (auto simp: shut_def video_inv_def video_res_def vdec_res_def async_res_def obj_res_def run_res_def async_none_def)
  qed
qed

text \<open>What the stop of the media part leaves in the record of the video path.\<close>

definition media_gone :: "rx_pipe \<Rightarrow> bool" where
  "media_gone s \<longleftrightarrow> video_off (video_of (vpath s)) \<and> extra_data (video_of (vpath s)) = None"

lemma wp_stop_media:
  assumes "rx_results api" and "media_inv M s" and "at_rest M"
    and "\<And>t. z_ledger (trace t) = Some M \<Longrightarrow> media_gone t \<Longrightarrow> Q () t"
  shows "wp (stop_qcap_media_rx api e) Q s"
  unfolding stop_qcap_media_rx_def wp_bind [of "on_video _ _"]
proof (rule wp_media_video [OF assms(2) _ fl_stop_parts(1), where P = shut], goal_cases)
  case (1 api')
  have "video_inv (video_of (vpath s))" using assms(2) by (simp add: media_inv_def)
  then show ?case
    by (rule wp_conseq [OF wp_stop_vdec_decoder [OF inner_display [OF assms(1) 1]]]) (simp add: halted_def shut_def)
next
  case (2 a v tr)
  let ?s = "s\<lparr>trace := tr, vpath := Vpath v\<rparr>"
  have off: "shut (v\<lparr>h264_parser := False, extra_data := None\<rparr>)" using 2(2) by (simp add: shut_frame)
  show ?case
    unfolding wp_bind [of "rx_h264_parser_destroy _"]
  proof (rule wp_parser_destroy [where M = "M + zr K_object (rx_self s) + zr K_memory (video_stats_p s) +
        zr K_memory (audio_stats_p s)"], goal_cases)
    case (3 tr2)
    let ?t = "s\<lparr>trace := tr2, h264_parser_el := 0, h264_caps_sink := 0, vpath := Vpath (v\<lparr>h264_parser := False, extra_data := None\<rparr>)\<rparr>"
    have t: "media_inv M ?t"
      using 2(1) 3 off by (simp add: media_inv_def media_live_def file_res_def shut_def ac_simps)
    have display: "wp (stop_vdec_display api' e) (\<lambda>_ t. video_inv t \<and> (v_ledger (trace t) = Some {#} \<and> vdec t = 0 \<and>
        vdec_sink t = 0 \<and> \<not> decoder_initializing t \<and> output_off (disp_of (screen t)) \<and> extra_data t = None))
        (video_of (vpath ?t))" for api'
    proof -
      have "wp (stop_vdec_display api' e) (\<lambda>_ t. extra_data t = None) (v\<lparr>h264_parser := False, extra_data := None\<rparr>)"
      proof -
        have "screen_inv (v\<lparr>h264_parser := False, extra_data := None\<rparr>)"
          "v_ledger (trace (v\<lparr>h264_parser := False, extra_data := None\<rparr>)) =
             Some ({#} + sink_res (v\<lparr>h264_parser := False, extra_data := None\<rparr>))"
          using off by (auto simp: shut_def video_inv_def video_res_def async_res_def vdec_res_def obj_res_def run_res_def async_none_def)
        from wp_stop_vdec_display [OF this] show ?thesis by (rule wp_conseq) (auto dest: shown_same(7))
      qed
      from wp_conj [OF wp_display_shut [OF off] this] show ?thesis by (simp add: conj_assoc)
    qed
    have "wp (do {
        on_video api (\<lambda>v. stop_vdec_display v e);
        rx_stop_sound api;
        drop_media api;
        ret () }) Q ?t"
      unfolding wp_bind [of "on_video _ _"]
    proof (rule wp_media_video [OF t display fl_stop_parts(2)], goal_cases)
      case (1 a u tr3)
      let ?u = "?t\<lparr>trace := tr3, vpath := Vpath u\<rparr>"
      let ?C = "\<lambda>t. (v_ledger (trace t) = Some {#} \<and> vdec t = 0 \<and> vdec_sink t = 0 \<and> \<not> decoder_initializing t \<and>
          output_off (disp_of (screen t)) \<and> extra_data t = None)"
      have u: "video_inv (video_of (vpath ?u))" using 1(1) by (simp add: media_inv_def)
      have sound: "wp (on_screen api' stop_sound) (\<lambda>_ v. video_inv v \<and> (?C v \<and> \<not> pcm_open v)) (video_of (vpath ?u))" for api'
        by (rule wp_sound_exact [OF u, where C = "\<lambda>a. \<not> audio_pcm a"], rule sound_only_stop, assumption)
          (use 1(2) in \<open>simp add: pcm_open_def output_off_def\<close>)
      show ?case
        unfolding rx_stop_sound_def wp_bind [of "on_video _ _"]
      proof (rule wp_media_video [OF 1(1) sound fl_screen], goal_cases)
        case (1 a' w tr4)
        then show ?case
          unfolding wp_bind wp_return
          by (intro wp_drop_media [OF 1(1) assms(3)] assms(4)) (simp_all add: media_gone_def video_off_def)
      qed
    qed
    then show ?case by (simp add: set_video_def wp_bind [of "modify _"] wp_modify with_parser_def z_trace_first)
  qed (use 2 assms(3) in \<open>simp_all add: media_inv_def media_live_def file_res_def ac_simps\<close>)
qed

section \<open>Server and client keep the ledger\<close>

definition run_part :: "zkind \<Rightarrow> int \<Rightarrow> bool \<Rightarrow> zres multiset" where
  "run_part k x b = zr k x + (if b then {#Z_on k x#} else {#})"

definition qcap_live :: "qcap_rx \<Rightarrow> zres multiset" where
  "qcap_live s = zr K_object (q_self s) + run_part K_server (server s) (server_started s) +
     run_part K_client (client s) (client_started s)"

definition qinv :: "zres multiset \<Rightarrow> qcap_rx \<Rightarrow> bool" where
  "qinv M s \<longleftrightarrow> media_inv (M + qcap_live s) ((media_of (media s))\<lparr>trace := trace s\<rparr>) \<and> at_rest M \<and>
     (server_started s \<longrightarrow> server s \<noteq> 0) \<and> (client_started s \<longrightarrow> client s \<noteq> 0)"

definition handles_written :: "zcall api \<Rightarrow> bool" where
  "handles_written api \<longleftrightarrow> (\<forall>tr k x. fst (api tr (QCreate k x)) = QCAP_RS_SUCCESSFUL \<longrightarrow> outp (api tr (QCreate k x)) 0 \<noteq> 0)"

lemma wp_on_media:
  "wp m (\<lambda>a t. Q a (s\<lparr>trace := trace t, media := Media t\<rparr>)) ((media_of (media s))\<lparr>trace := trace s\<rparr>) \<Longrightarrow> wp (on_media m) Q s"
  by (simp add: wp_def on_media_def Let_def split: prod.splits)

lemma media_again: "(t :: rx_pipe)\<lparr>trace := trace t\<rparr> = t"
  by simp

lemma q_first:
  "s\<lparr>client := x, trace := tr\<rparr> = s\<lparr>trace := tr, client := x\<rparr>" "s\<lparr>server := x, trace := tr\<rparr> = s\<lparr>trace := tr, server := x\<rparr>"
  "s\<lparr>client_started := b, trace := tr\<rparr> = s\<lparr>trace := tr, client_started := b\<rparr>"
  "s\<lparr>server_started := b, trace := tr\<rparr> = s\<lparr>trace := tr, server_started := b\<rparr>"
  by simp_all

lemma wp_run_part_stop:
  assumes "z_ledger (trace s) = Some (N + run_part k x b)" and "at_rest N" and "k = K_server \<or> k = K_client" and "x \<noteq> 0"
    and "\<And>tr. z_ledger tr = Some N \<Longrightarrow> Q () (f (s\<lparr>trace := tr\<rparr>))"
  shows "wp (do {
     (if b then do { call api (QStop k x); ret () } else ret ());
     call api (Delete k x);
     modify f }) Q s"
proof -
  have delete: "wp (do { call api (Delete k x); modify f }) Q (s\<lparr>trace := tr\<rparr>)" if "z_ledger tr = Some (N + {#Z_own k x#})" for tr
    unfolding wp_bind wp_modify
    by (rule wp_z_take [where N = N and X = "{#Z_own k x#}"]) (use that assms(2,3,5) in auto)
  show ?thesis
  proof (cases b)
    case True
    show ?thesis
      unfolding if_P [OF True] wp_bind [of "State_Monad.bind _ _"] wp_bind [of "call _ (QStop _ _)"] wp_return
      by (rule wp_z_take [where N = "N + {#Z_own k x#}" and X = "{#Z_on k x#}"])
        (use True assms delete in \<open>simp_all add: run_part_def zr_def\<close>)
  next
    case False
    have "wp (do { call api (Delete k x); modify f }) Q (s\<lparr>trace := trace s\<rparr>)"
      by (rule delete) (use assms(1,4) False in \<open>simp add: run_part_def zr_def\<close>)
    then show ?thesis using False by (simp add: wp_bind [of "ret _"] wp_return)
  qed
qed

lemma wp_stop_client:
  assumes "z_ledger (trace s) = Some (N + run_part K_client (client s) (client_started s))" and "at_rest N"
    and "client_started s \<longrightarrow> client s \<noteq> 0"
    and "\<And>tr. z_ledger tr = Some N \<Longrightarrow> Q () (s\<lparr>trace := tr, client := 0, client_started := False\<rparr>)"
  shows "wp (stop_client api) Q s"
proof (cases "client s = 0")
  case True
  then have e: "s\<lparr>trace := trace s, client := 0, client_started := False\<rparr> = s" using assms(3) by (cases s) simp
  show ?thesis
    using assms(4) [of "trace s", unfolded e] assms(1,3) True by (simp add: stop_client_def wp_get_bind wp_return run_part_def)
next
  case False
  then have c: "(client s \<noteq> 0) = True" by simp
  show ?thesis
    unfolding stop_client_def wp_get_bind c if_True
    by (rule wp_run_part_stop [OF assms(1,2) _ False]) (simp_all add: assms(4))
qed

lemma wp_stop_server:
  assumes "z_ledger (trace s) = Some (N + run_part K_server (server s) (server_started s))" and "at_rest N"
    and "server_started s \<longrightarrow> server s \<noteq> 0"
    and "\<And>tr. z_ledger tr = Some N \<Longrightarrow> Q () (s\<lparr>trace := tr, server := 0, server_started := False\<rparr>)"
  shows "wp (stop_server api) Q s"
proof (cases "server s = 0")
  case True
  then have e: "s\<lparr>trace := trace s, server := 0, server_started := False\<rparr> = s" using assms(3) by (cases s) simp
  show ?thesis
    using assms(4) [of "trace s", unfolded e] assms(1,3) True by (simp add: stop_server_def wp_get_bind wp_return run_part_def)
next
  case False
  then have c: "(server s \<noteq> 0) = True" by simp
  show ?thesis
    unfolding stop_server_def wp_get_bind c if_True
    by (rule wp_run_part_stop [OF assms(1,2) _ False]) (simp_all add: assms(4))
qed

lemma qinv_stop_client:
  assumes "qinv M s"
  shows "wp (stop_client api) (\<lambda>_ t. qinv M t \<and> client t = 0 \<and> \<not> client_started t) s"
proof -
  have live: "media_live ((media_of (media s))\<lparr>trace := tr\<rparr>) = media_live (media_of (media s))" for tr by (simp add: media_live_def)
  note i = assms [unfolded qinv_def media_inv_def qcap_live_def live]
  show ?thesis
    by (rule wp_stop_client [where N = "M + zr K_object (q_self s) + run_part K_server (server s) (server_started s) +
        media_live (media_of (media s))"])
      (use i in \<open>simp_all add: qinv_def media_inv_def qcap_live_def live run_part_def ac_simps\<close>)
qed

text \<open>What \<open>stop_qcap_dante_rx\<close> does when the client has been stopped.\<close>

definition stop_qcap_rest :: "zcall api \<Rightarrow> out_env \<Rightarrow> unit qp" where
  "stop_qcap_rest api e = do {
     stop_server api;
     on_media (stop_qcap_media_rx api e);
     s \<leftarrow> State_Monad.get;
     call api (Delete K_object (q_self s));
     ret () }"

definition q_gone :: "zres multiset \<Rightarrow> qcap_rx \<Rightarrow> bool" where
  "q_gone M t \<longleftrightarrow> z_ledger (trace t) = Some M \<and> media_gone (media_of (media t)) \<and> client t = 0 \<and> server t = 0"

lemma wp_stop_qcap_rest:
  assumes "rx_results api" and "qinv M s \<and> client s = 0 \<and> \<not> client_started s"
  shows "wp (stop_qcap_rest api e) (\<lambda>_. q_gone M) s"
proof -
  let ?O = "zr K_object (q_self s)" and ?V = "run_part K_server (server s) (server_started s)"
  let ?m = "media_of (media s)"
  have live: "media_live (?m\<lparr>trace := tr\<rparr>) = media_live ?m" for tr by (simp add: media_live_def)
  note i = assms(2) [unfolded qinv_def media_inv_def qcap_live_def live]
  have rest: "at_rest M" using assms(2) by (simp add: qinv_def)
  show ?thesis
    unfolding stop_qcap_rest_def wp_bind [of "stop_server _"]
  proof (rule wp_stop_server [where N = "M + ?O + media_live ?m"], goal_cases)
    case (4 tr2)
    have m: "media_inv (M + ?O) (?m\<lparr>trace := tr2\<rparr>)" using 4 i live by (simp add: media_inv_def)
    show ?case
      unfolding wp_bind [of "on_media _"]
    proof (rule wp_on_media, simp, rule wp_stop_media [OF assms(1) m], goal_cases)
      case (2 t)
      show ?case
        unfolding wp_get_bind
        unfolding wp_bind wp_return
        by (rule wp_z_take [where N = M and X = ?O]) (use 2 rest assms(2) in \<open>simp_all add: q_gone_def\<close>)
    qed (use rest in simp)
  qed (use i rest in \<open>simp_all add: run_part_def ac_simps\<close>)
qed

lemma stop_qcap_parts: "stop_qcap_dante_rx api e = do { stop_client api; stop_qcap_rest api e }"
  by (simp add: stop_qcap_dante_rx_def stop_qcap_rest_def)

text \<open>The client has been stopped before anything is taken down.\<close>

lemma oc_stop_client: "stays (only_calls (\<lambda>c. dismantles c \<longrightarrow> z_teardown c)) (stop_client api)"
  unfolding stop_client_def by (auto intro!: oc_intros)

lemma oc_on_media: "stays (only_calls P) m \<Longrightarrow> stays (only_calls P) (on_media m)"
  unfolding stays_def
  by (intro allI wp_on_media, drule spec, erule wp_conseq) (simp add: only_calls_def)

lemma oc_stop_qcap_rest: "stays (only_calls (\<lambda>c. \<not> hires c)) (stop_qcap_rest api e)"
  unfolding stop_qcap_rest_def stop_server_def stop_qcap_media_rx_def rx_stop_sound_def drop_media_def
  by (auto intro!: oc_intros oc_on_media oc_on_video oc_set_video oc_parser_destroy)

lemma qcap_stop_in_order:
  assumes "rx_results api" and "qinv M s"
  shows "wp (stop_qcap_dante_rx api e) (\<lambda>_ u. q_gone M u \<and> (\<exists>new. trace u = new @ trace s \<and> dismantled_at_rest (trace s) new)) s"
  unfolding stop_qcap_parts
proof (rule wp_in_order [OF _ oc_stop_client _ oc_stop_qcap_rest, where P = "\<lambda>t. qinv M t \<and> client t = 0 \<and> \<not> client_started t"])
  show "wp (stop_client api) (\<lambda>_ t. (qinv M t \<and> client t = 0 \<and> \<not> client_started t) \<and>
      (\<exists>N. z_ledger (trace t) = Some N \<and> at_rest N)) s"
    by (rule wp_conseq [OF qinv_stop_client [OF assms(2)]]) (auto simp: qinv_def media_inv_def qcap_live_def run_part_def)
  show "wp (stop_qcap_rest api e) (\<lambda>_ u. q_gone M u \<and> z_ledger (trace u) \<noteq> None) t"
    if "qinv M t \<and> client t = 0 \<and> \<not> client_started t" for t
    by (rule wp_conseq [OF wp_stop_qcap_rest [OF assms(1) that]]) (simp add: q_gone_def)
qed

lemma wp_stop_qcap: "rx_results api \<Longrightarrow> qinv M s \<Longrightarrow> wp (stop_qcap_dante_rx api e) (\<lambda>_. q_gone M) s"
  by (erule (1) wp_conseq [OF qcap_stop_in_order]) simp

section \<open>Starting and running\<close>

text \<open>The outcome of a start.\<close>

definition q_outcome :: "zres multiset \<Rightarrow> bool \<Rightarrow> qcap_rx \<Rightarrow> bool" where
  "q_outcome M ok t \<longleftrightarrow> (if ok then qinv M t \<and> client_started t \<and> server_started t else z_ledger (trace t) = Some M)"

lemma wp_quit:
  assumes "rx_results api" and "qinv M s"
  shows "wp (quit_qcap api e) (q_outcome M) s"
  unfolding quit_qcap_def wp_bind by (rule wp_conseq [OF wp_stop_qcap [OF assms]]) (simp add: wp_return q_outcome_def q_gone_def)

text \<open>Calls of the QCAP library that only set something.\<close>

lemma qinv_trace: "qinv M s \<Longrightarrow> z_ledger tr = z_ledger (trace s) \<Longrightarrow> qinv M (s\<lparr>trace := tr\<rparr>)"
  by (simp add: qinv_def media_inv_def media_live_def qcap_live_def)

lemma wp_qset_all:
  assumes "qinv M s" and "\<And>ok tr. qinv M (s\<lparr>trace := tr\<rparr>) \<Longrightarrow> Q ok (s\<lparr>trace := tr\<rparr>)"
  shows "wp (qset_all api k x ns) Q s"
  using assms
proof (induction ns arbitrary: s)
  case Nil
  from Nil(2) [of "trace s"] Nil(1) show ?case by (simp add: wp_return)
next
  case (Cons n ns)
  have q: "qinv M (s\<lparr>trace := (c, r) # trace s\<rparr>)" if "c = QSet k x n" for c r
    by (rule qinv_trace [OF Cons.prems(1)]) (use Cons.prems(1) that in \<open>simp add: qinv_def media_inv_def\<close>)
  have "wp (qset_all api k x ns) Q (s\<lparr>trace := (QSet k x n, r) # trace s\<rparr>)" for r
    by (rule Cons.IH [OF q]) (simp_all add: Cons.prems(2))
  then show ?case using q Cons.prems(2) by (simp add: wp_rules wp_call)
qed

lemma qinv_ledger: "qinv M s \<Longrightarrow> z_ledger (trace s) = Some (M + qcap_live s + media_live (media_of (media s)))"
  by (simp add: qinv_def media_inv_def media_live_def)

text \<open>The record after a call that changes what the server or the client holds.\<close>

lemma qinv_change:
  assumes "qinv M s" and "z_ledger (trace t) = Some (M + qcap_live t + media_live (media_of (media s)))" and "media t = media s"
    and "server_started t \<longrightarrow> server t \<noteq> 0" and "client_started t \<longrightarrow> client t \<noteq> 0"
  shows "qinv M t"
  using assms by (simp add: qinv_def media_inv_def media_live_def)

text \<open>\<open>L\<close> is what is alive before; the record then has the handle, and after the start the flag.\<close>

lemma wp_start_part:
  assumes "rx_results api" and "handles_written api" and l: "z_ledger (trace s) = Some L"
    and again: "\<And>x tr tr'. (hs x (s\<lparr>trace := tr\<rparr>))\<lparr>trace := tr'\<rparr> = hs x (s\<lparr>trace := tr'\<rparr>)"
    and made: "\<And>x tr. qinv M (hs x (s\<lparr>trace := tr\<rparr>)) = (z_ledger tr = Some (L + zr k x))"
    and go: "\<And>x tr. x \<noteq> 0 \<Longrightarrow> z_ledger tr = Some (L + zr k x + {#Z_on k x#}) \<Longrightarrow> wp rest (q_outcome M) (ss (hs x (s\<lparr>trace := tr\<rparr>)))"
  shows "wp (start_part api e k p hs ss ns rest) (q_outcome M) s"
proof -
  have quit: "wp (quit_qcap api e) (q_outcome M) (hs x (s\<lparr>trace := tr\<rparr>))" if "z_ledger tr = Some (L + zr k x)" for x tr
    by (rule wp_quit [OF assms(1)]) (simp add: made that)
  have trace_hs: "trace (hs x (s\<lparr>trace := tr\<rparr>)) = tr" for x tr
    using arg_cong [OF again [where x = x and tr = tr and tr' = tr], of trace] by simp
  have start: "wp (do {
      t \<leftarrow> call api (QStart k x);
      if fst t \<noteq> QCAP_RS_SUCCESSFUL then quit_qcap api e else do { modify ss; rest } }) (q_outcome M) (hs x (s\<lparr>trace := tr\<rparr>))"
    if "z_ledger tr = Some (L + zr k x)" and "x \<noteq> 0" for x tr
    using that quit go by (simp add: wp_bind wp_call wp_modify again trace_hs)
  have all: "wp (do {
      ok \<leftarrow> qset_all api k x ns;
      if \<not> ok then quit_qcap api e else do {
      t \<leftarrow> call api (QStart k x);
      if fst t \<noteq> QCAP_RS_SUCCESSFUL then quit_qcap api e else do { modify ss; rest } } }) (q_outcome M) (hs x (s\<lparr>trace := tr\<rparr>))"
    if "z_ledger tr = Some (L + zr k x)" and "x \<noteq> 0" for x tr
    unfolding wp_bind [of "qset_all _ _ _ _"]
  proof (rule wp_qset_all [where M = M], goal_cases)
    case (2 ok tr')
    then have "z_ledger tr' = Some (L + zr k x)" by (simp add: again made)
    then show ?case unfolding again using start that(2) quit by (cases ok) simp_all
  qed (simp add: made that)
  let ?r = "api (trace s) (QCreate k p)"
  have r: "z_ledger ((QCreate k p, ?r) # trace s) = Some (L + zr k (outp ?r 0))" by (simp add: l)
  have "outp ?r 0 \<noteq> 0" if "fst ?r = QCAP_RS_SUCCESSFUL" using assms(2) that by (simp add: handles_written_def)
  then show ?thesis
    using quit [OF r] all [OF r]
    by (simp add: start_part_def wp_bind [of "call _ (QCreate _ _)"] wp_call wp_bind [of "modify _"] wp_modify del: z_ledger.simps)
qed

lemma wp_start_client:
  assumes "rx_results api" and "handles_written api" and "qinv M s" and "client s = 0" and "server_started s"
  shows "wp (start_client api e) (q_outcome M) s"
  unfolding start_client_def wp_get_bind
  by (rule wp_start_part [OF assms(1,2) qinv_ledger [OF assms(3)]])
    (use assms(3-5) in \<open>auto simp: q_first qinv_def media_inv_def media_live_def qcap_live_def run_part_def q_outcome_def wp_return ac_simps\<close>)

lemma wp_start_server:
  assumes "rx_results api" and "handles_written api" and "qinv M s" and "client s = 0" and "server s = 0"
  shows "wp (start_server api e) (q_outcome M) s"
  unfolding start_server_def
proof (rule wp_start_part [OF assms(1,2) qinv_ledger [OF assms(3)]], goal_cases)
  case (3 x tr)
  then show ?case
    by (intro wp_start_client [OF assms(1,2)])
      (use assms(3-5) in \<open>auto simp: qinv_def media_inv_def media_live_def qcap_live_def run_part_def ac_simps\<close>)
qed (use assms(3-5) in \<open>auto simp: q_first qinv_def media_inv_def media_live_def qcap_live_def run_part_def ac_simps\<close>)

lemma wp_start_qcap:
  assumes "rx_results api" and "handles_written api" and "z_ledger (trace s) = Some M" and "at_rest M"
  shows "wp (start_qcap_dante_rx api e display) (q_outcome M) s"
  unfolding start_qcap_dante_rx_def wp_bind [of "call _ (New _)"]
proof (rule wp_z_give [OF assms(3)], goal_cases)
  case (3 x tr)
  let ?s = "new_qcap (fst x) (s\<lparr>trace := tr\<rparr>)"
  show ?case
    unfolding wp_bind [of "modify _"] wp_modify wp_bind [of "on_media _"]
  proof (rule wp_on_media, rule wp_start_media [where M = "M + zr K_object (fst x)"], goal_cases)
    case (3 t)
    have "qinv M (?s\<lparr>trace := trace t, media := Media t\<rparr>)"
      using 3 assms(4) by (simp add: qinv_def qcap_live_def run_part_def new_qcap_def)
    from wp_start_server [OF assms(1,2) this] show ?case by (simp add: new_qcap_def)
  next
    case (4 t)
    have "wp (do { call api (Delete K_object (fst x)); ret False }) (q_outcome M) (?s\<lparr>trace := trace t, media := Media t\<rparr>)"
      unfolding wp_bind wp_return
      by (rule wp_z_take [where N = M and X = "zr K_object (fst x)"]) (use 4 assms(4) in \<open>simp_all add: q_outcome_def\<close>)
    then show ?case by simp
  qed (use 3 assms(4) in \<open>simp_all add: new_qcap_def\<close>)
qed simp_all

text \<open>The callbacks of a running receiver, in any order.\<close>

datatype qcap_event =
    Q_video rat "u8 list" bool "caps list"
  | Q_connected bool nat nat rat
  | Q_event rx_event

definition qcap_step :: "zcall api \<Rightarrow> out_env \<Rightarrow> qcap_event \<Rightarrow> unit qp" where
  "qcap_step api e q =
     (case q of
        Q_video x p k cs \<Rightarrow> on_media (on_video api (\<lambda>v. video_step v e (Qcap_video x p k cs)))
      | Q_connected h w ht fps \<Rightarrow> on_media (on_video api (\<lambda>v. video_step v e (Qcap_connected h w ht fps)))
      | Q_event a \<Rightarrow> on_media (rx_step api e a))"

primrec qcap_run :: "zcall api \<Rightarrow> out_env \<Rightarrow> qcap_event list \<Rightarrow> unit qp" where
  "qcap_run api e [] = ret ()"
| "qcap_run api e (q # qs) = do { qcap_step api e q; qcap_run api e qs }"

lemma media_work:
  assumes "media_inv M s" and "\<And>api'. display_results api' \<Longrightarrow> vkeeps (prog api')" and "\<And>api'. stays file_rel (prog api')"
    and "rx_results api"
  shows "wp (on_video api prog) (\<lambda>_. media_inv M) s"
proof -
  have v: "video_inv (video_of (vpath s))" using assms(1) by (simp add: media_inv_def)
  show ?thesis
    by (rule wp_media_video [OF assms(1) _ assms(3), where P = "\<lambda>_. True"])
      (use vkeepsD [OF assms(2) v] inner_display [OF assms(4)] in simp_all)
qed

lemma on_media_inv:
  assumes "qinv M s" and "\<And>M s. media_inv M s \<Longrightarrow> wp m (\<lambda>_. media_inv M) s"
  shows "wp (on_media m) (\<lambda>_ t. qinv M t \<and> client_started t = client_started s \<and> server_started t = server_started s) s"
proof (rule wp_on_media)
  have "media_inv (M + qcap_live s) ((media_of (media s))\<lparr>trace := trace s\<rparr>)" using assms(1) by (simp add: qinv_def)
  from assms(2) [OF this]
  show "wp m (\<lambda>a t. qinv M (s\<lparr>trace := trace t, media := Media t\<rparr>) \<and>
        client_started (s\<lparr>trace := trace t, media := Media t\<rparr>) = client_started s \<and>
        server_started (s\<lparr>trace := trace t, media := Media t\<rparr>) = server_started s) ((media_of (media s))\<lparr>trace := trace s\<rparr>)"
    by (rule wp_conseq) (use assms(1) in \<open>simp add: qinv_def qcap_live_def\<close>)
qed

lemma qcap_step_inv:
  assumes "rx_results api" and "qinv M s"
  shows "wp (qcap_step api e q) (\<lambda>_. qinv M) s"
proof -
  have "wp (on_video api (\<lambda>v. video_step v e x)) (\<lambda>_. media_inv M') t" if "media_inv M' t" for x M' t
    by (rule media_work [OF that vkeeps_step fl_step assms(1)])
  moreover have "wp (rx_step api e x) (\<lambda>_. media_inv M') t" if "media_inv M' t" for x M' t
    unfolding rx_step_def by (rule media_work [OF that vkeeps_work fl_work assms(1)])
  ultimately show ?thesis
    by (cases q) (auto simp: qcap_step_def intro!: wp_conseq [OF on_media_inv [OF assms(2)]])
qed

lemma qcap_run_inv: "rx_results api \<Longrightarrow> qinv M s \<Longrightarrow> wp (qcap_run api e qs) (\<lambda>_. qinv M) s"
  by (induction qs arbitrary: s) (auto simp: wp_return wp_bind intro: wp_conseq [OF qcap_step_inv])

section \<open>Properties\<close>

definition no_qcap :: qcap_rx where
  "no_qcap = \<lparr>trace = [], q_self = 0, server = 0, client = 0, server_started = False, client_started = False, media = Media no_rx\<rparr>"

text \<open>
  C16: the receiver on the QCAP library over its life, from nothing: whatever the library answers at
  any of its calls, a start that fails has released everything, each object once; after a start
  that succeeds and any sequence of callbacks, decoder starts, decoded frames and audio periods, the
  stop releases everything.  The stop ends the client first: when it stops the server, calls into the
  video path (decoder, sink, display, sound), changes the state of an element or releases an object,
  no client is running that could call back.  A successful create is documented to write its handle.
\<close>

theorem qcap_lifecycle:
  assumes "rx_results api" and "handles_written api"
  shows "wp (start_qcap_dante_rx api e display) (\<lambda>ok t.
     if ok then client_started t \<and> server_started t \<and>
       wp (qcap_run api e qs) (\<lambda>_ t'. wp (stop_qcap_dante_rx api e) (\<lambda>_ u.
         z_ledger (trace u) = Some {#} \<and> client u = 0 \<and> server u = 0 \<and>
         v_ledger (trace (video_of (vpath (media_of (media u))))) = Some {#} \<and>
         output_off (disp_of (screen (video_of (vpath (media_of (media u)))))) \<and>
         \<not> pcm_open (video_of (vpath (media_of (media u)))) \<and>
         (\<exists>new. trace u = new @ trace t' \<and> dismantled_at_rest (trace t') new)) t') t
     else z_ledger (trace t) = Some {#}) no_qcap"
proof (rule wp_conseq [OF wp_start_qcap [OF assms, where M = "{#}"]], goal_cases)
  case (3 ok t)
  have "wp (qcap_run api e qs) (\<lambda>_ t'. wp (stop_qcap_dante_rx api e) (\<lambda>_ u.
         z_ledger (trace u) = Some {#} \<and> client u = 0 \<and> server u = 0 \<and>
         v_ledger (trace (video_of (vpath (media_of (media u))))) = Some {#} \<and>
         output_off (disp_of (screen (video_of (vpath (media_of (media u)))))) \<and>
         \<not> pcm_open (video_of (vpath (media_of (media u)))) \<and>
         (\<exists>new. trace u = new @ trace t' \<and> dismantled_at_rest (trace t') new)) t') t" if "qinv {#} t"
    by (rule wp_conseq [OF qcap_run_inv [OF assms(1) that]], rule wp_conseq [OF qcap_stop_in_order [OF assms(1)]], assumption)
      (auto simp: q_gone_def media_gone_def video_off_def)
  then show ?case using 3 by (auto simp: q_outcome_def)
qed (simp_all add: no_qcap_def)

lemma rx_api_handles: "handles_written rx_api"
  by (simp add: handles_written_def rx_api_def outp_def)

theorem qcap_lifecycle_witness:
  "wp (start_qcap_dante_rx rx_api grant_env True) (\<lambda>ok t.
     if ok then client_started t \<and> server_started t \<and>
       wp (qcap_run rx_api grant_env [Q_connected True 1920 1080 60, Q_video 0 (au_data idr_unit) True [hd_caps],
           Q_event On_decoder, Q_event (On_frames 2)]) (\<lambda>_ t'. wp (stop_qcap_dante_rx rx_api grant_env) (\<lambda>_ u.
         z_ledger (trace u) = Some {#} \<and> client u = 0 \<and> server u = 0 \<and>
         v_ledger (trace (video_of (vpath (media_of (media u))))) = Some {#} \<and>
         output_off (disp_of (screen (video_of (vpath (media_of (media u)))))) \<and>
         \<not> pcm_open (video_of (vpath (media_of (media u)))) \<and>
         (\<exists>new. trace u = new @ trace t' \<and> dismantled_at_rest (trace t') new)) t') t
     else z_ledger (trace t) = Some {#}) no_qcap"
  by (rule qcap_lifecycle [OF rx_api_laws(1) rx_api_handles])

end
