(* ===== verification/Spec2Isabelle.thy ===== *)
theory Spec2Isabelle
  imports Testkit Timing Zz_String Rx_Audio Sdi_Resync Drm_Ops Rx_Output Button Udptest Zz_Stats Zz_Utils
    Zz_Filters Sync Ticks_Stat Demo_Apps Modeset Video_Flow Qcap_Receiver
begin

text \<open>
  A verification library for the C and C++ code of qcap-demos: the utility library and the test
  kit under src/src/zzlab, the utilities under src/src/utils, the tools under src/tools, and the
  Dante receiver (src/src/tests/sc6f0-dante-rx.cpp and its headers): the pipeline it builds, the
  video path from the access unit to the display, the audio path to ALSA, and its direct output.

  \<^bold>\<open>The program and how its parts interact.\<close>  Every program of the repository is built on the
  test kit (testkit.h): a test case starts an event thread, acquires qcap2 objects with helpers
  that push the matching release on a clean-up stack, waits for the end of the test, and flushes
  the stacks.  The receiver builds a pipeline of zstreamer elements, or a server and a client of the
  QCAP library, whose callbacks hand it access units and audio periods.  A parser observes the
  parameter sets and so the format of the stream; a thread then starts the display and the decoder,
  which are fed from the next key frame on.  An audio sink converts and queues PCM frames for ALSA,
  an output selection parses EDID data, hot-plug events and mode lists, and a watchdog resets the
  SDI output when its alignment history is suspect; in the direct mode the Dante service tells the
  receiver the format of the stream and it programs the display for it.  The zzlab library below
  them has the clock and timers, string and environment parsing, statistics, logging, module start-up,
  memory maps, caches and reference counts.  The tools are programs of their own.

  \<^bold>\<open>Theories and sources.\<close>
  \<^item> Prelude: widths of the C integers, C division, errno values, C strings, weakest preconditions
    of state-monad programs (the collections wp_rules and unat_rules), and the locale
    \<open>step_relation\<close> of programs that stay inside a reflexive and transitive relation.
  \<^item> Effects: calls that leave the repository.  A program is a state-monad computation over a
    state that records the trace of calls; the outside world is an arbitrary function \<open>api\<close> from
    the history and the call to a reply, so a theorem for all \<open>api\<close> covers every behaviour of the
    called library.  The ledger \<open>live\<close> replays a trace and fails on a release of anything but the
    innermost held resource, \<open>ledger\<close> only on a release of what is not held; \<open>embed\<close> runs a
    program of one interface inside a larger one.  The locale \<open>cleanup\<close> is the contract between a program and its
    clean-up stack (\<open>free_stack_t\<close>, \<open>FreeStack\<close>).
  \<^item> Testkit: src/src/zzlab/testkit.h, one definition per helper, the interpretation \<open>tk\<close> of
    \<open>cleanup\<close> on its calls, and the class \<open>helper_prog\<close> of all programs composed of helpers.
  \<^item> Timing: ZzClock.cpp, \<open>SetNextTimer\<close>, \<open>tick_ctrl_t\<close>, \<open>FPSControl2\<close>, \<open>wait_for_test_finish\<close>.
  \<^item> Zz_String: ZzUtils_string.cpp, ZzUtils_env.cpp and \<open>fourcc\<close>.
  \<^item> Zz_Stats: ZzStats, ZzLog and ZzModules.
  \<^item> Zz_Utils: ZzUtils.cpp, ZzUtils_memory.cpp and the reference counts, caches, register windows
    and epoll wrapper of ZzUtils.h; the interpretation \<open>sys\<close> of \<open>cleanup\<close> on system calls.
  \<^item> Zz_Filters: \<open>FPSControl\<close>, \<open>SimpleKalmanFilter\<close>, \<open>qexpneg\<close> and \<open>TimeFilter::eval\<close> of ZzUtils.h.
  \<^item> Sync: the spin lock of testkit.h as a step relation over threads, \<open>ZzScopedLock\<close>, \<open>Scoped\<close>;
    the locale \<open>forward_simulation\<close>, interpreted on the spin lock and an abstract mutex.
  \<^item> Pcm_Queue: sc6f0-pcm-write-queue.h, the queue between the audio callback and ALSA.
  \<^item> Rx_Audio: the mixer controls, the sink and the playback callback of the receiver.
  \<^item> Rx_Output: sc6f0-dante-rx-output.h and the EDID, uevent, mode and CRTC functions.
  \<^item> Drm_Ops: DRM property and plane lookup, dumb frame buffers and the black fill.
  \<^item> Sdi_Resync: sc6f0-sdi-resync-policy.h and the watchdog that acts on its decisions.
  \<^item> Out_Modes: refresh rates, the choice of the display mode and the picture rectangle.
  \<^item> Drm_Ledger: what the programs on the DRM library share, and the rules for the kernel objects
    that are alive after a trace.
  \<^item> Modeset: the direct output of the receiver: the atomic modeset, the clean-up and the requests
    of the Dante service.
  \<^item> Drm_Output: \<open>start_drm_output\<close> and \<open>stop_drm_output\<close>, the display of the decoded stream: the
    search for connector, mode, CRTC and planes, and the programming, with every error path.
  \<^item> Rx_Video: the video path of \<open>zst_dante_rx_t\<close>: the video sink, the caps, the start and stop of
    decoder and display, the feeding of access units, the decoder events and the video callbacks of
    the RTSP and QCAP clients.  Video_Objects: the qcap2 objects it owns.  Video_Flow: key frames,
    formats and counters over any sequence of its operations.
  \<^item> Rx_Pipeline: \<open>start_dante_rx\<close>, \<open>stop_dante_rx\<close> and the elements they build, with the ledger of
    zstreamer objects, threads and files.  Pipeline_Life: the life of such a receiver.
    Qcap_Receiver: \<open>start_qcap_dante_rx\<close>, \<open>stop_qcap_dante_rx\<close> and the media part below them.
  \<^item> Ticks_Stat: src/src/utils/zdev-ticks-stat.cpp.
  \<^item> Demo_Apps: src/src/utils/qdemo.cpp and sc6f0-dante-box.cpp, with their menu loop.
  \<^item> Button: src/include/sc6f0_button.h, src/tools/sc6f0_button.c and its demo.
  \<^item> Udptest: src/tools/udptest.c.

  Structs are records with the source's field names, enumerations and tagged results datatypes,
  fixed-width integers words where they wrap in the code, and \<open>int\<close> with explicit narrowing where
  the code narrows.  Errors are values: a \<open>QRESULT\<close>, a negative errno, \<open>None\<close>, or \<open>Inl\<close>.

  \<^bold>\<open>What the lemmas show.\<close>
  \<^item> Resources: helper programs, the Dante box, frame buffers, mode blobs, ALSA and system
    descriptors are released exactly once and in order on every path (Testkit, Demo_Apps and
    below, Drm_Ops, Sdi_Resync, Rx_Audio, Zz_Utils); over any sequence of modesets the live
    kernel objects are those the context names (Modeset), and likewise for the display output
    (Drm_Output) and the objects of the decoder (Video_Objects); the caches and reference counts delete every
    object once.
  \<^item> Life of the receiver: a start that fails has released what it made, up to one error path that
    is named; after any sequence of callbacks, decoder starts, frames and audio periods the stop
    releases everything, once, and nothing is torn down while a thread or the client still works
    (Pipeline_Life, Qcap_Receiver).  A component that runs inside a larger one is lifted by
    \<open>embed\<close>, so the theorems of the display hold in the video path and those in the pipeline.
  \<^item> Video: a decoder is given a key frame first, the format of the stream follows the last valid
    caps, every access unit is counted once, and the scan for key frames is exact (Rx_Video,
    Video_Flow).
  \<^item> Data: one drain and any sequence of audio callbacks neither lose, repeat nor reorder frames
    except those counted as dropped; the frame-buffer fills stay in bounds; the buffer layouts
    hold their planes; mapping and unmapping are inverse.
  \<^item> Control: the watchdog is debounced, rate limited, latches failures and tests before it
    commits; audio routes are only switched while the passthrough is off; ticks and waits stay
    within one period; a modeset is all or nothing, succeeds when the driver grants it, and a
    stream outside the SDI contract never reaches the screen anew; every service request is
    answered once; the spin lock refines a mutex and is not lost.
  \<^item> Accounting: the UDP test counts exactly the missing datagrams, the tick monitor reports the
    true rate of wrapping counters, its running statistics are those of the rates, its loop ends;
    the bit-rate statistics lose nothing.
  \<^item> Parsing and selection: numbers, substrings, EDID blocks, uevents, modes, rectangles, CRTCs, audio cards,
    button states and the device-tree search are characterised exactly.

  \<^bold>\<open>Bounds and loops.\<close>  The drain is bounded by 16 attempts, as in the code.  Loops that depend
  on the outside world take the list of what it answers and say explicitly when the list has
  ended before the loop has (\<open>None\<close>, \<open>Running\<close>, \<open>Waiting\<close>); where the code returns, that it does
  is proved.  No definition uses fuel that the code does not have.

  \<^bold>\<open>Floating point.\<close>  The refresh rate of a mode is rounded to single precision as the code
  rounds it; its comparisons with a frame rate are exact, since both have few significant
  bits.  Rates compared elsewhere in double, \<open>strtod\<close>, \<open>sqrt\<close> and rates that are only
  printed are arguments or left out.  The statistics of zdev-ticks-stat and the filters of
  ZzUtils.h are modelled in rational numbers, without rounding.

  \<^bold>\<open>Not modelled.\<close>  \<open>rgb_yuv_p\<close> and \<open>rgb_yuv\<close> (their result depends on the rounding of double); the
  classes that ZzUtils.h only declares; weak memory behaviour of the atomic flag.  What zstreamer,
  QCAP and DRM do inside their calls: their results are those of \<open>api\<close>, and the ledgers follow the
  documented ownership (a pipeline owns the elements added to it, an element its private data and
  pads).  The threads of the receiver interleave in whole steps, one callback or one phase at a
  time.  Its statistics thread, the RTSP client around its callbacks, the start-up and loop of the
  direct mode and the command line; the transmitter and the other test programs, which are
  sequences of library calls on the test kit; log output; build files, scripts and the wiki.
\<close>

section \<open>Programs\<close>

text \<open>
  C7: the tick monitor of the Dante box as a whole program: started with nothing held, for any
  value of TEST_CASE and any keys typed at the menu, whatever the qcap2 library answers (of
  \<open>qcap2_event_handlers_invoke\<close> it is only assumed that it has run the callback when it reports
  success) and however often the timer fires, the program holds no resource when it is back at
  the menu or ends: every heap object, the register window, the timer, its handler and the event
  handlers were released as often as they were acquired, each in reverse order of acquisition,
  and both clean-up stacks are empty.  The one exception is a refusal: the library has failed,
  without running it, a callback that was to be run while the register window was mapped; only
  \<open>OnExitEventHandlers\<close> invokes one then, and testkit.h logs that failure and goes on.
\<close>

theorem box_program_no_leak:
  fixes s :: box
  assumes "invoke_law api" and "idle s"
  shows "let t = snd (App_Run (DoCase (box_DoWork api fires)) TEST_CASE xs s) in
    idle t \<and> (\<forall>x. n_acq q_acq q_rel x (trace t) = n_rel q_rel x (trace t)) \<or> exit_refused (trace t)"
proof -
  have "idle (snd (App_Run (DoCase (box_DoWork api fires)) TEST_CASE xs s)) \<or>
      exit_refused (trace (snd (App_Run (DoCase (box_DoWork api fires)) TEST_CASE xs s)))"
    by (rule App_Run_keeps [where P = "\<lambda>u. idle u \<or> exit_refused (trace u)"])
       (auto intro: box_DoWork_idle [OF assms(1)] assms(2))
  then show ?thesis by (auto simp: Let_def idle_def dest: live_balance)
qed

theorem box_program_no_leak_witness:
  "let t = snd (App_Run (DoCase (box_DoWork api_ok [(13, 1000000)])) 0 [(1, True, 49), (1, True, 49), (1, True, 113)] box0) in
    idle t \<and> (\<forall>x. n_acq q_acq q_rel x (trace t) = n_rel q_rel x (trace t)) \<or> exit_refused (trace t)"
  by (rule box_program_no_leak) (simp_all add: invoke_law_def api_ok_def outp_def idle_def box0_def)

end
